(* ===== verification/SwuPrelude.thy ===== *)
theory SwuPrelude
  imports Main "HOL-Library.Word" "HOL-Library.State_Monad" "HOL-Library.Sublist"
begin

text \<open>
  Shared foundations of the development: the state monad in which the C++ methods are
  written (a method that reads and writes members is a value of type
  \<^typ>\<open>('s, 'a) state\<close>), small Hoare-style rules for it, and the locale of
  transition systems whose invariants hold in every reachable state.
\<close>

named_theorems pres \<open>rules that show an operation keeps a predicate of the state\<close>

subsection \<open>The monad of stateful methods\<close>

abbreviation ret :: "'a \<Rightarrow> ('s, 'a) state" where
  "ret \<equiv> State_Monad.return"

definition gets :: "('s \<Rightarrow> 'a) \<Rightarrow> ('s, 'a) state" where
  "gets f = State (\<lambda>s. (f s, s))"

definition modify :: "('s \<Rightarrow> 's) \<Rightarrow> ('s, unit) state" where
  "modify f = State (\<lambda>s. ((), f s))"

definition whenM :: "bool \<Rightarrow> ('s, unit) state \<Rightarrow> ('s, unit) state" where
  "whenM b m = (if b then m else ret ())"

lemma run_gets [simp]: "run_state (gets f) s = (f s, s)"
  by (simp add: gets_def)

lemma run_modify [simp]: "run_state (modify f) s = ((), f s)"
  by (simp add: modify_def)

lemma run_whenM [simp]: "run_state (whenM b m) s = (if b then run_state m s else ((), s))"
  by (simp add: whenM_def)

lemma run_if [simp]: "run_state (if b then m else n) s = (if b then run_state m s else run_state n s)"
  by simp

abbreviation result_of :: "('s, 'a) state \<Rightarrow> 's \<Rightarrow> 'a" where
  "result_of m s \<equiv> fst (run_state m s)"

abbreviation after :: "('s, 'a) state \<Rightarrow> 's \<Rightarrow> 's" where
  "after m s \<equiv> snd (run_state m s)"

subsection \<open>Hoare triples and preserved predicates\<close>

definition hoare :: "('s \<Rightarrow> bool) \<Rightarrow> ('s, 'a) state \<Rightarrow> ('a \<Rightarrow> 's \<Rightarrow> bool) \<Rightarrow> bool" where
  "hoare P m Q \<longleftrightarrow> (\<forall>s. P s \<longrightarrow> Q (result_of m s) (after m s))"

definition preserves :: "('s \<Rightarrow> bool) \<Rightarrow> ('s, 'a) state \<Rightarrow> bool" where
  "preserves I m \<longleftrightarrow> (\<forall>s. I s \<longrightarrow> I (after m s))"

lemma preservesI: "(\<And>s. I s \<Longrightarrow> I (after m s)) \<Longrightarrow> preserves I m"
  by (simp add: preserves_def)

lemma preservesD: "preserves I m \<Longrightarrow> I s \<Longrightarrow> I (after m s)"
  by (simp add: preserves_def)

lemma preserves_runD: "preserves I m \<Longrightarrow> I s \<Longrightarrow> run_state m s = (r, t) \<Longrightarrow> I t"
  by (metis preservesD snd_conv)

lemma hoareI: "(\<And>s. P s \<Longrightarrow> Q (result_of m s) (after m s)) \<Longrightarrow> hoare P m Q"
  by (simp add: hoare_def)

lemma hoareD: "hoare P m Q \<Longrightarrow> P s \<Longrightarrow> Q (result_of m s) (after m s)"
  by (simp add: hoare_def)

lemma preserves_hoare: "preserves I m \<longleftrightarrow> hoare I m (\<lambda>_. I)"
  by (simp add: preserves_def hoare_def)

lemma hoare_bind:
  assumes "hoare P m R" and "\<And>x. hoare (R x) (f x) Q"
  shows "hoare P (State_Monad.bind m f) Q"
proof (rule hoareI)
  fix s
  assume "P s"
  obtain a t where at: "run_state m s = (a, t)" by (cases "run_state m s")
  with hoareD [OF assms(1) \<open>P s\<close>] have "R a t" by simp
  from hoareD [OF assms(2) this] at
  show "Q (result_of (State_Monad.bind m f) s) (after (State_Monad.bind m f) s)" by simp
qed

lemma preserves_return [pres]: "preserves I (ret x)"
  by (simp add: preserves_def)

lemma preserves_gets [pres]: "preserves I (gets f)"
  by (simp add: preserves_def)

lemma preserves_modify: "(\<And>s. I s \<Longrightarrow> I (f s)) \<Longrightarrow> preserves I (modify f)"
  by (simp add: preserves_def)

lemma preserves_bind [pres]:
  assumes "preserves I m" and "\<And>x. preserves I (f x)"
  shows "preserves I (State_Monad.bind m f)"
  using hoare_bind [of I m "\<lambda>_. I" f "\<lambda>_. I"] assms by (simp add: preserves_hoare)

lemma preserves_whenM [pres]: "(b \<Longrightarrow> preserves I m) \<Longrightarrow> preserves I (whenM b m)"
  by (simp add: whenM_def preserves_return)

lemma preserves_if [pres]:
  "(b \<Longrightarrow> preserves I m) \<Longrightarrow> (\<not> b \<Longrightarrow> preserves I n) \<Longrightarrow> preserves I (if b then m else n)"
  by simp

lemma preserves_case_option [pres]:
  "(x = None \<Longrightarrow> preserves I m) \<Longrightarrow> (\<And>y. x = Some y \<Longrightarrow> preserves I (n y))
   \<Longrightarrow> preserves I (case x of None \<Rightarrow> m | Some y \<Rightarrow> n y)"
  by (cases x) auto

lemma preserves_case_prod [pres]:
  "(\<And>y z. x = (y, z) \<Longrightarrow> preserves I (n y z)) \<Longrightarrow> preserves I (case x of (y, z) \<Rightarrow> n y z)"
  by (cases x) auto

lemma preserves_let [pres]: "preserves I (f x) \<Longrightarrow> preserves I (let y = x in f y)"
  by simp

lemma preserves_conj:
  "preserves I m \<Longrightarrow> preserves J m \<Longrightarrow> preserves (\<lambda>s. I s \<and> J s) m"
  by (simp add: preserves_def)

text \<open>
  A field that an operation does not write: the frame property is the preserved
  predicate \<open>f s = c\<close> for every \<open>c\<close>.
\<close>

lemma frameI: "(\<And>c. preserves (\<lambda>s. f s = c) m) \<Longrightarrow> f (after m s) = f s"
  by (simp add: preserves_def)

subsection \<open>Transition systems\<close>

text \<open>
  The contract shared by the components that are driven by a sequence of events: a set
  of start states, an executable step that is \<open>None\<close> where the event is not
  enabled, and an invariant that the start states satisfy and every step keeps.
\<close>

fun run_events :: "('e \<Rightarrow> 's \<Rightarrow> 's option) \<Rightarrow> 'e list \<Rightarrow> 's \<Rightarrow> 's option" where
  "run_events step [] s = Some s"
| "run_events step (e # es) s = (case step e s of None \<Rightarrow> None | Some t \<Rightarrow> run_events step es t)"

locale transition_system =
  fixes initial :: "'s \<Rightarrow> bool"
    and step :: "'e \<Rightarrow> 's \<Rightarrow> 's option"
    and invariant :: "'s \<Rightarrow> bool"
  assumes initial_invariant: "initial s \<Longrightarrow> invariant s"
    and step_invariant: "invariant s \<Longrightarrow> step e s = Some t \<Longrightarrow> invariant t"
begin

lemma run_invariant_from: "invariant s \<Longrightarrow> run_events step es s = Some t \<Longrightarrow> invariant t"
proof (induction es arbitrary: s)
  case Nil
  then show ?case by simp
next
  case (Cons e es)
  then show ?case by (auto split: option.splits dest: step_invariant)
qed

lemma reached_invariant: "initial s \<Longrightarrow> run_events step es s = Some t \<Longrightarrow> invariant t"
  by (rule run_invariant_from [OF initial_invariant])

end

lemma run_events_append:
  "run_events step (es @ fs) s =
     (case run_events step es s of None \<Rightarrow> None | Some t \<Rightarrow> run_events step fs t)"
  by (induction es arbitrary: s) (auto split: option.splits)

lemma run_events_then:
  "run_events step es s = Some u \<Longrightarrow> run_events step (es @ fs) s = run_events step fs u"
  by (simp add: run_events_append)

lemma run_events_step: "step e s = Some t \<Longrightarrow> run_events step (e # es) s = run_events step es t"
  by simp

text \<open>A set of states closed under every step is never left: the form a deadlock takes.\<close>

lemma run_events_closed:
  assumes "\<And>e s t. I s \<Longrightarrow> step e s = Some t \<Longrightarrow> I t" and "I s" and "run_events step es s = Some t"
  shows "I t"
  using assms(2,3)
proof (induction es arbitrary: s)
  case Nil
  then show ?case by simp
next
  case (Cons e es)
  then show ?case by (auto split: option.splits intro: assms(1))
qed

subsection \<open>Refinement\<close>

text \<open>
  What an observer sees of a run: a step shows a list of the labels of an abstract system. A
  concrete system refines an abstract one where the labels shown by each step lead from the
  abstraction of its state to that of the next; then those of a whole run do.
\<close>

fun shown_run :: "('e \<Rightarrow> 's \<Rightarrow> 's option) \<Rightarrow> ('e \<Rightarrow> 's \<Rightarrow> 's \<Rightarrow> 'a list) \<Rightarrow> 'e list \<Rightarrow> 's \<Rightarrow> 'a list" where
  "shown_run step shown [] s = []"
| "shown_run step shown (e # es) s =
     (case step e s of None \<Rightarrow> [] | Some t \<Rightarrow> shown e s t @ shown_run step shown es t)"

locale refinement = transition_system initial step invariant
  for initial :: "'s \<Rightarrow> bool" and step :: "'e \<Rightarrow> 's \<Rightarrow> 's option" and invariant :: "'s \<Rightarrow> bool" +
  fixes astep :: "'a \<Rightarrow> 'u \<Rightarrow> 'u option"
    and abstraction :: "'s \<Rightarrow> 'u"
    and shown :: "'e \<Rightarrow> 's \<Rightarrow> 's \<Rightarrow> 'a list"
  assumes simulates: "invariant s \<Longrightarrow> step e s = Some t \<Longrightarrow>
    run_events astep (shown e s t) (abstraction s) = Some (abstraction t)"
begin

lemma run_simulates: "invariant s \<Longrightarrow> run_events step es s = Some t \<Longrightarrow>
    run_events astep (shown_run step shown es s) (abstraction s) = Some (abstraction t)"
proof (induction es arbitrary: s)
  case Nil
  then show ?case by simp
next
  case (Cons e es)
  then obtain u where u: "step e s = Some u" "run_events step es u = Some t"
    by (auto split: option.splits)
  with Cons.IH [OF step_invariant [OF Cons.prems(1) u(1)]] simulates [OF Cons.prems(1) u(1)]
  show ?case by (simp add: run_events_then)
qed

lemma refines: "initial s \<Longrightarrow> run_events step es s = Some t \<Longrightarrow>
    run_events astep (shown_run step shown es s) (abstraction s) = Some (abstraction t)"
  by (rule run_simulates [OF initial_invariant])

end

subsection \<open>Bounded retries\<close>

text \<open>
  The first of \<open>n + 1\<close> attempts and the others: how a bounded search over consecutive
  moments splits when the first one has been made.
\<close>

lemma ex_less_Suc_shift: "(\<exists>k<Suc n. P (t + k)) \<longleftrightarrow> P t \<or> (\<exists>k<n. P (Suc t + k))"
  by (auto simp: less_Suc_eq_0_disj)

end
