(* ===== verification/CxxStrings.thy ===== *)
theory CxxStrings
  imports SwuPrelude
begin

text \<open>
  The operations of \<open>std::string\<close>, \<open>std::getline\<close> and the number conversions that the
  sources use, on \<^typ>\<open>string\<close> (a list of bytes). A position that the code compares with
  \<open>npos\<close> is an option. The functions of the repository that are built from them are in
  the theories of their components.
\<close>

subsection \<open>Searching\<close>

fun index_where :: "('a \<Rightarrow> bool) \<Rightarrow> 'a list \<Rightarrow> nat option" where
  "index_where p [] = None"
| "index_where p (x # xs) = (if p x then Some 0 else map_option Suc (index_where p xs))"

fun last_index_where :: "('a \<Rightarrow> bool) \<Rightarrow> 'a list \<Rightarrow> nat option" where
  "last_index_where p [] = None"
| "last_index_where p (x # xs) =
     (case last_index_where p xs of Some i \<Rightarrow> Some (Suc i) | None \<Rightarrow> if p x then Some 0 else None)"

definition find_first_of :: "string \<Rightarrow> char \<Rightarrow> nat option" where
  "find_first_of s c = index_where (\<lambda>x. x = c) s"

definition find_last_of :: "string \<Rightarrow> char \<Rightarrow> nat option" where
  "find_last_of s c = last_index_where (\<lambda>x. x = c) s"

fun find_str :: "'a list \<Rightarrow> 'a list \<Rightarrow> nat option" where
  "find_str s pat =
     (if take (length pat) s = pat then Some 0
      else case s of [] \<Rightarrow> None | x # xs \<Rightarrow> map_option Suc (find_str xs pat))"

declare find_str.simps [simp del]

text \<open>The test \<open>s.find(pat) != npos\<close>.\<close>

definition has_str :: "'a list \<Rightarrow> 'a list \<Rightarrow> bool" where
  "has_str s pat \<longleftrightarrow> find_str s pat \<noteq> None"

definition starts_with :: "'a list \<Rightarrow> 'a list \<Rightarrow> bool" where
  "starts_with s pat \<longleftrightarrow> take (length pat) s = pat"

lemma index_where_None: "index_where p xs = None \<longleftrightarrow> (\<forall>x\<in>set xs. \<not> p x)"
  by (induction xs) auto

lemma index_where_append:
  "\<forall>x\<in>set a. \<not> p x \<Longrightarrow> p c \<Longrightarrow> index_where p (a @ c # b) = Some (length a)"
  by (induction a) auto

lemma index_where_SomeD: "index_where p xs = Some i \<Longrightarrow> i < length xs \<and> p (xs ! i)"
  by (induction xs arbitrary: i) (auto split: if_splits)

lemma index_where_less: "index_where p xs = Some i \<Longrightarrow> j < i \<Longrightarrow> \<not> p (xs ! j)"
proof (induction xs arbitrary: i j)
  case Nil
  then show ?case by simp
next
  case (Cons x xs)
  then show ?case by (cases j) (auto split: if_splits)
qed

lemma last_index_where_None: "last_index_where p xs = None \<longleftrightarrow> (\<forall>x\<in>set xs. \<not> p x)"
  by (induction xs) (auto split: option.splits)

lemma last_index_where_append:
  "\<forall>x\<in>set b. \<not> p x \<Longrightarrow> p c \<Longrightarrow> last_index_where p (a @ c # b) = Some (length a)"
  by (induction a) (auto split: option.splits simp: last_index_where_None)

lemma find_first_of_append:
  "c \<notin> set a \<Longrightarrow> find_first_of (a @ c # b) c = Some (length a)"
  unfolding find_first_of_def by (rule index_where_append) auto

lemma find_last_of_append:
  "c \<notin> set b \<Longrightarrow> find_last_of (a @ c # b) c = Some (length a)"
  unfolding find_last_of_def by (rule last_index_where_append) auto

lemma find_str_refl [simp]: "find_str s s = Some 0"
  by (subst find_str.simps) simp

lemma find_str_None_iff: "find_str s pat = None \<longleftrightarrow> \<not> sublist pat s"
proof (induction s)
  case Nil
  show ?case by (subst find_str.simps) auto
next
  case (Cons x xs)
  have "take (length pat) (x # xs) = pat \<longleftrightarrow> prefix pat (x # xs)"
    by (metis append_eq_conv_conj prefix_def)
  with Cons show ?case
    by (subst find_str.simps) (auto simp: sublist_Cons_right)
qed

lemma find_str_Some_iff: "(\<exists>i. find_str s pat = Some i) \<longleftrightarrow> sublist pat s"
  using find_str_None_iff [of s pat] by auto

lemma starts_with_append [simp]: "starts_with (p @ s) p"
  by (simp add: starts_with_def)

lemma starts_with_prefix: "starts_with s p \<longleftrightarrow> prefix p s"
  unfolding starts_with_def by (metis append_eq_conv_conj prefix_def)

subsection \<open>Lines\<close>

fun split_by :: "('a \<Rightarrow> bool) \<Rightarrow> 'a list \<Rightarrow> 'a list list" where
  "split_by p [] = [[]]"
| "split_by p (x # xs) =
     (if p x then [] # split_by p xs
      else case split_by p xs of [] \<Rightarrow> [[x]] | y # ys \<Rightarrow> (x # y) # ys)"

abbreviation newline :: char where
  "newline \<equiv> CHR 0x0A"

text \<open>
  \<open>split_nl\<close> is what \<open>while (!eof) getline(f, line)\<close> sees: every piece between newlines,
  with a last empty one after a final newline. \<open>getlines\<close> is what
  \<open>while (getline(f, line))\<close> sees: no such last piece.
\<close>

definition split_nl :: "string \<Rightarrow> string list" where
  "split_nl s = split_by (\<lambda>c. c = newline) s"

definition getlines :: "string \<Rightarrow> string list" where
  "getlines s = (let xs = split_nl s in if last xs = [] then butlast xs else xs)"

lemma split_by_not_Nil [simp]: "split_by p xs \<noteq> []"
  by (cases xs) (auto split: list.splits)

lemma split_by_append:
  "\<forall>x\<in>set a. \<not> p x \<Longrightarrow> p c \<Longrightarrow> split_by p (a @ c # b) = a # split_by p b"
  by (induction a) auto

lemma split_by_none: "\<forall>x\<in>set a. \<not> p x \<Longrightarrow> split_by p a = [a]"
  by (induction a) auto

lemma split_nl_line: "newline \<notin> set a \<Longrightarrow> split_nl (a @ newline # b) = a # split_nl b"
  unfolding split_nl_def by (rule split_by_append) auto

lemma split_nl_Nil [simp]: "split_nl [] = [[]]"
  by (simp add: split_nl_def)

lemma split_nl_lines:
  "\<forall>l\<in>set ls. newline \<notin> set l \<Longrightarrow> split_nl (concat (map (\<lambda>l. l @ [newline]) ls)) = ls @ [[]]"
  by (induction ls) (auto simp: split_nl_line)

lemma getlines_lines:
  "\<forall>l\<in>set ls. newline \<notin> set l \<Longrightarrow> getlines (concat (map (\<lambda>l. l @ [newline]) ls)) = ls"
  by (simp add: getlines_def split_nl_lines Let_def)

lemma split_by_pieces: "\<forall>ys\<in>set (split_by p xs). \<forall>y\<in>set ys. \<not> p y"
proof (induction xs)
  case Nil
  then show ?case by simp
next
  case (Cons x xs)
  then show ?case by (cases "split_by p xs") auto
qed

lemma getlines_no_newline: "l \<in> set (getlines s) \<Longrightarrow> newline \<notin> set l"
  using split_by_pieces [of "\<lambda>c. c = newline" s]
  by (auto simp: getlines_def split_nl_def Let_def split: if_splits dest: in_set_butlastD)

subsection \<open>Numbers and text\<close>

definition digit_char :: "nat \<Rightarrow> char" where
  "digit_char d = char_of (48 + d)"

definition isdigit :: "char \<Rightarrow> bool" where
  "isdigit c \<longleftrightarrow> 48 \<le> (of_char c :: nat) \<and> (of_char c :: nat) \<le> 57"

definition digit_val :: "char \<Rightarrow> nat" where
  "digit_val c = of_char c - 48"

fun dec_nat :: "nat \<Rightarrow> string" where
  "dec_nat n = (if n < 10 then [digit_char n] else dec_nat (n div 10) @ [digit_char (n mod 10)])"

declare dec_nat.simps [simp del]

definition to_string :: "int \<Rightarrow> string" where
  "to_string i = (if i < 0 then CHR ''-'' # dec_nat (nat (- i)) else dec_nat (nat i))"

definition digits_value :: "string \<Rightarrow> nat" where
  "digits_value s = foldl (\<lambda>acc c. 10 * acc + digit_val c) 0 s"

definition isspace :: "char \<Rightarrow> bool" where
  "isspace c \<longleftrightarrow> c = CHR '' '' \<or> (9 \<le> (of_char c :: nat) \<and> (of_char c :: nat) \<le> 13)"

text \<open>
  The C conversion of the longest numeric prefix: blanks, a sign, digits; \<open>None\<close> where
  there is no digit. \<open>stoi\<close> throws there (\<open>invalid_argument\<close>) and where the value does
  not fit an \<open>int\<close> (\<open>out_of_range\<close>); \<open>strtol\<close> and \<open>atoi\<close> give 0 where there is no digit.
\<close>

definition numeric_prefix :: "string \<Rightarrow> int option" where
  "numeric_prefix s =
     (let t = dropWhile isspace s;
          neg = (t \<noteq> [] \<and> hd t = CHR ''-'');
          u = (if t \<noteq> [] \<and> (hd t = CHR ''-'' \<or> hd t = CHR ''+'') then tl t else t);
          ds = takeWhile isdigit u
      in if ds = [] then None
         else Some (if neg then - int (digits_value ds) else int (digits_value ds)))"

definition stoi :: "string \<Rightarrow> int option" where
  "stoi s = (case numeric_prefix s of None \<Rightarrow> None
             | Some i \<Rightarrow> if - (2 ^ 31) \<le> i \<and> i < 2 ^ 31 then Some i else None)"

text \<open>\<open>strtol\<close> on the 64-bit targets: the value saturates at the limits of \<open>long\<close>.\<close>

definition strtol :: "string \<Rightarrow> int" where
  "strtol s = (case numeric_prefix s of None \<Rightarrow> 0
               | Some i \<Rightarrow> max (- (2 ^ 63)) (min (2 ^ 63 - 1) i))"

text \<open>Whether \<open>strtol\<close> consumes the whole of a non-empty text (\<open>*endptr == 0\<close>).\<close>

definition strtol_all :: "string \<Rightarrow> bool" where
  "strtol_all s =
     (let t = dropWhile isspace s;
          u = (if t \<noteq> [] \<and> (hd t = CHR ''-'' \<or> hd t = CHR ''+'') then tl t else t)
      in u \<noteq> [] \<and> list_all isdigit u)"

lemma of_char_digit: "d < 10 \<Longrightarrow> (of_char (digit_char d) :: nat) = 48 + d"
  by (simp add: digit_char_def)

lemma isdigit_digit_char [simp]: "d < 10 \<Longrightarrow> isdigit (digit_char d)"
  by (simp add: isdigit_def of_char_digit)

lemma digit_val_digit_char [simp]: "d < 10 \<Longrightarrow> digit_val (digit_char d) = d"
  by (simp add: digit_val_def of_char_digit)

lemma dec_nat_not_Nil [simp]: "dec_nat n \<noteq> []"
  by (subst dec_nat.simps) simp

lemma dec_nat_digits: "\<forall>c\<in>set (dec_nat n). isdigit c"
proof (induction n rule: dec_nat.induct)
  case (1 n)
  then show ?case by (subst dec_nat.simps) (auto simp: isdigit_digit_char)
qed

lemma digits_value_snoc: "digits_value (s @ [c]) = 10 * digits_value s + digit_val c"
  by (simp add: digits_value_def)

lemma digits_value_dec_nat: "digits_value (dec_nat n) = n"
proof (induction n rule: dec_nat.induct)
  case (1 n)
  show ?case
  proof (cases "n < 10")
    case True
    then show ?thesis by (subst dec_nat.simps) (simp add: digits_value_def)
  next
    case False
    with 1 have "digits_value (dec_nat (n div 10)) = n div 10" by simp
    with False show ?thesis by (subst dec_nat.simps) (simp add: digits_value_snoc)
  qed
qed

lemma isdigit_not_space: "isdigit c \<Longrightarrow> \<not> isspace c"
  by (auto simp: isdigit_def isspace_def)

lemma isdigit_not_sign: "isdigit c \<Longrightarrow> c \<noteq> CHR ''-'' \<and> c \<noteq> CHR ''+''"
  by (auto simp: isdigit_def)

lemma numeric_prefix_digits:
  assumes "\<forall>c\<in>set s. isdigit c" and "s \<noteq> []"
  shows "numeric_prefix s = Some (int (digits_value s))"
proof -
  obtain c cs where s: "s = c # cs" using assms(2) by (cases s) auto
  with assms(1) have c: "isdigit c" by simp
  then have "dropWhile isspace s = s" using s isdigit_not_space by simp
  moreover have "takeWhile isdigit s = s"
    using assms(1) by (simp add: takeWhile_eq_all_conv)
  ultimately show ?thesis
    using s isdigit_not_sign [OF c] by (simp add: numeric_prefix_def Let_def)
qed

text \<open>The round trip of a time through its text, within the range of \<open>int\<close>.\<close>

lemma stoi_to_string: "0 \<le> i \<Longrightarrow> i < 2 ^ 31 \<Longrightarrow> stoi (to_string i) = Some i"
  using numeric_prefix_digits [OF dec_nat_digits dec_nat_not_Nil, of "nat i"]
  by (simp add: stoi_def to_string_def digits_value_dec_nat)

lemma stoi_to_string_overflow: "2 ^ 31 \<le> i \<Longrightarrow> stoi (to_string i) = None"
  using numeric_prefix_digits [OF dec_nat_digits dec_nat_not_Nil, of "nat i"]
  by (simp add: stoi_def to_string_def digits_value_dec_nat)

lemma to_string_not_Nil [simp]: "to_string i \<noteq> []"
  by (simp add: to_string_def)

lemma to_string_no_eq: "CHR ''='' \<notin> set (to_string i) \<and> newline \<notin> set (to_string i)"
proof -
  have "\<not> isdigit (CHR ''='')" "\<not> isdigit newline" by (simp_all add: isdigit_def)
  then show ?thesis
    using dec_nat_digits by (auto simp: to_string_def)
qed

lemma distinct_singleton_list: "distinct xs \<Longrightarrow> set xs = {k} \<Longrightarrow> xs = [k]"
  by (cases xs) (auto simp: subset_singleton_iff set_empty2 simp flip: set_empty)

end
