(* ===== verification/Settings.thy ===== *)
theory Settings
  imports CxxStrings "HOL-Library.Char_ord" "HOL-Library.List_Lexorder"
begin

text \<open>
  \<open>helpers/cSettings.h\<close>: the key/value store the plugin keeps in
  \<open>/opt/maintenance_mgr_record.conf\<close>, with \<open>Utils::fileExists\<close> and the reader
  \<open>parseConfigFile\<close> of \<open>MaintenanceManager.cpp\<close>, which parses the same file on its own.

  The framework's \<open>JsonObject\<close> is the map from its labels to the text \<open>String()\<close> gives
  for them. Two things the code gets from that library are parameters: what \<open>Remove\<close> does
  (the source says it does not work and works around it) and the order in which the
  iterator \<open>Variants()\<close> lists the labels.
\<close>

type_synonym json_obj = "string \<rightharpoonup> string"

record json_lib =
  jl_remove :: "json_obj \<Rightarrow> string \<Rightarrow> json_obj"
  jl_labels :: "json_obj \<Rightarrow> string list"
  jl_int :: "int \<Rightarrow> string"
  jl_bool :: "bool \<Rightarrow> string"

text \<open>
  What the code relies on: the iterator visits each label once, and \<open>Remove\<close> either
  drops the label or, as the comment in the source reports, leaves the object alone.
\<close>

definition json_lib_ok :: "json_lib \<Rightarrow> bool" where
  "json_lib_ok L \<longleftrightarrow>
     (\<forall>m. finite (dom m) \<longrightarrow> distinct (jl_labels L m) \<and> set (jl_labels L m) = dom m)
   \<and> (\<forall>m k. jl_remove L m k = m(k := None) \<or> jl_remove L m k = m)"

subsection \<open>Files\<close>

record fsys =
  files :: "string \<rightharpoonup> string"
  openable :: "string \<Rightarrow> bool"

definition fileExists :: "fsys \<Rightarrow> string \<Rightarrow> bool" where
  "fileExists fs f \<longleftrightarrow> files fs f \<noteq> None"

text \<open>The bytes a stream opened for reading delivers; \<open>None\<close> where the open fails.\<close>

definition read_file :: "fsys \<Rightarrow> string \<Rightarrow> string option" where
  "read_file fs f = (if openable fs f then files fs f else None)"

subsection \<open>The class cSettings\<close>

record csettings =
  filename :: string
  data :: json_obj
  disk :: fsys

definition json_string :: "json_obj \<Rightarrow> string \<Rightarrow> string" where
  "json_string m k = (case m k of None \<Rightarrow> [] | Some v \<Rightarrow> v)"

definition getValue :: "csettings \<Rightarrow> string \<Rightarrow> string" where
  "getValue c k = json_string (data c) k"

definition contains :: "csettings \<Rightarrow> string \<Rightarrow> bool" where
  "contains c k =
     (if data c k \<noteq> None
      then (if json_string (data c) k = [] then False else True)
      else False)"

definition record_line :: "json_obj \<Rightarrow> string \<Rightarrow> string" where
  "record_line m k =
     (if json_string m k \<noteq> [] then k @ ''='' @ json_string m k @ [newline] else [])"

definition writeToFile :: "json_lib \<Rightarrow> csettings \<Rightarrow> bool \<times> csettings" where
  "writeToFile L c =
     (if fileExists (disk c) (filename c)
      then if openable (disk c) (filename c)
           then (True, c\<lparr>disk := (disk c)\<lparr>files := (files (disk c))(filename c \<mapsto>
                   concat (map (record_line (data c)) (jl_labels L (data c))))\<rparr>\<rparr>)
           else (False, c)
      else (False, c))"

definition setValue :: "json_lib \<Rightarrow> string \<Rightarrow> string \<Rightarrow> csettings \<Rightarrow> bool \<times> csettings" where
  "setValue L k v c = writeToFile L (c\<lparr>data := (data c)(k \<mapsto> v)\<rparr>)"

definition setValue_int :: "json_lib \<Rightarrow> string \<Rightarrow> int \<Rightarrow> csettings \<Rightarrow> bool \<times> csettings" where
  "setValue_int L k v c = writeToFile L (c\<lparr>data := (data c)(k \<mapsto> jl_int L v)\<rparr>)"

definition setValue_bool :: "json_lib \<Rightarrow> string \<Rightarrow> bool \<Rightarrow> csettings \<Rightarrow> bool \<times> csettings" where
  "setValue_bool L k v c = writeToFile L (c\<lparr>data := (data c)(k \<mapsto> jl_bool L v)\<rparr>)"

definition remove :: "json_lib \<Rightarrow> string \<Rightarrow> csettings \<Rightarrow> bool \<times> csettings" where
  "remove L k c =
     (let c1 = c\<lparr>data := (data c)(k \<mapsto> [])\<rparr>;
          c2 = c1\<lparr>data := jl_remove L (data c1) k\<rparr>
      in if \<not> contains c2 k
         then (case writeToFile L c2 of (ok, c3) \<Rightarrow> (if ok then (True, c3) else (False, c3)))
         else (False, c2))"

definition read_line_into :: "json_obj \<Rightarrow> string \<Rightarrow> json_obj" where
  "read_line_into m content =
     (case find_last_of content (CHR ''='') of
        None \<Rightarrow> m
      | Some pos \<Rightarrow> m(take pos content \<mapsto> drop (pos + 1) content))"

definition readFromFile :: "csettings \<Rightarrow> bool \<times> csettings" where
  "readFromFile c =
     (if \<not> fileExists (disk c) (filename c) then (False, c)
      else case read_file (disk c) (filename c) of
             None \<Rightarrow> (False, c)
           | Some content \<Rightarrow>
               (True, c\<lparr>data := foldl read_line_into (data c) (split_nl content)\<rparr>))"

text \<open>
  The constructor: read the file, and where that fails open it for appending, which
  creates it (a path that cannot be opened stays missing, with a message).
\<close>

definition cSettings :: "fsys \<Rightarrow> string \<Rightarrow> csettings" where
  "cSettings fs f =
     (let c = \<lparr>filename = f, data = Map.empty, disk = fs\<rparr>
      in case readFromFile c of
           (True, c') \<Rightarrow> c'
         | (False, c') \<Rightarrow>
             if openable fs f
             then c'\<lparr>disk := fs\<lparr>files := (files fs)(f \<mapsto> (case files fs f of None \<Rightarrow> [] | Some t \<Rightarrow> t))\<rparr>\<rparr>
             else c')"

subsection \<open>The second reader: getFileContent and parseConfigFile\<close>

definition getFileContent :: "fsys \<Rightarrow> string \<Rightarrow> bool \<times> string list" where
  "getFileContent fs f =
     (case read_file fs f of
        None \<Rightarrow> (False, [])
      | Some content \<Rightarrow> (True, filter (\<lambda>line. length line > 0) (getlines content)))"

fun find_key_line :: "string \<Rightarrow> string list \<Rightarrow> string option" where
  "find_key_line findkey [] = None"
| "find_key_line findkey (line # rest) =
     (case find_first_of line (CHR ''='') of
        None \<Rightarrow> find_key_line findkey rest
      | Some eq \<Rightarrow>
          (if take eq line = findkey then Some (drop (eq + 1) line)
           else find_key_line findkey rest))"

definition parseConfigFile :: "fsys \<Rightarrow> string \<Rightarrow> string \<Rightarrow> string option" where
  "parseConfigFile fs f findkey = find_key_line findkey (snd (getFileContent fs f))"

subsection \<open>Contract of a settings store\<close>

text \<open>
  What the maintenance plugin relies on: a value reads back as written, a removed key
  reads as the empty text and is not contained, other keys keep their value. The plugin
  always replaces a value by \<open>remove\<close> followed by \<open>setValue\<close>.
\<close>

locale settings_contract =
  fixes getv :: "'s \<Rightarrow> string \<Rightarrow> string"
    and has :: "'s \<Rightarrow> string \<Rightarrow> bool"
    and setv :: "string \<Rightarrow> string \<Rightarrow> 's \<Rightarrow> 's"
    and rem :: "string \<Rightarrow> 's \<Rightarrow> 's"
    and ok :: "'s \<Rightarrow> bool"
  assumes get_set: "ok s \<Longrightarrow> getv (setv k v s) k' = (if k' = k then v else getv s k')"
    and get_rem: "ok s \<Longrightarrow> getv (rem k s) k' = (if k' = k then [] else getv s k')"
    and has_iff: "ok s \<Longrightarrow> has s k \<longleftrightarrow> getv s k \<noteq> []"
    and ok_set: "ok s \<Longrightarrow> ok (setv k v s)"
    and ok_rem: "ok s \<Longrightarrow> ok (rem k s)"
begin

lemma replace_get: "ok s \<Longrightarrow> getv (setv k v (rem k s)) k' = (if k' = k then v else getv s k')"
  by (simp add: get_set get_rem ok_rem)

lemma replace_ok: "ok s \<Longrightarrow> ok (setv k v (rem k s))"
  by (simp add: ok_set ok_rem)

lemma replace_has: "ok s \<Longrightarrow> v \<noteq> [] \<Longrightarrow> has (setv k v (rem k s)) k"
  by (simp add: has_iff replace_get replace_ok)

lemma removed_not_has: "ok s \<Longrightarrow> \<not> has (rem k s) k"
  by (simp add: has_iff get_rem ok_rem)

end

lemma data_writeToFile [simp]: "data (snd (writeToFile L c)) = data c"
  by (simp add: writeToFile_def)

lemma filename_writeToFile [simp]: "filename (snd (writeToFile L c)) = filename c"
  by (simp add: writeToFile_def)

lemma data_setValue [simp]: "data (snd (setValue L k v c)) = (data c)(k \<mapsto> v)"
  by (simp add: setValue_def)

lemma filename_setValue [simp]: "filename (snd (setValue L k v c)) = filename c"
  by (simp add: setValue_def)

lemma snd_remove:
  "snd (remove L k c) =
     (let c2 = c\<lparr>data := jl_remove L ((data c)(k \<mapsto> [])) k\<rparr>
      in if contains c2 k then c2 else snd (writeToFile L c2))"
  by (simp add: remove_def Let_def split: prod.split)

lemma filename_remove [simp]: "filename (snd (remove L k c)) = filename c"
  by (simp add: snd_remove Let_def)

definition settings_ok :: "json_lib \<Rightarrow> csettings \<Rightarrow> bool" where
  "settings_ok L c \<longleftrightarrow> json_lib_ok L \<and> finite (dom (data c))"

lemma json_remove_string:
  assumes "json_lib_ok L"
  shows "json_string (jl_remove L (m(k \<mapsto> [])) k) k' = (if k' = k then [] else json_string m k')"
proof -
  have "jl_remove L (m(k \<mapsto> [])) k = m(k := None) \<or> jl_remove L (m(k \<mapsto> [])) k = m(k \<mapsto> [])"
    using assms by (metis fun_upd_upd json_lib_ok_def)
  then show ?thesis by (auto simp: json_string_def)
qed

lemma contains_iff: "contains c k \<longleftrightarrow> getValue c k \<noteq> []"
  by (auto simp: contains_def getValue_def json_string_def)

lemma data_remove: "data (snd (remove L k c)) = jl_remove L ((data c)(k \<mapsto> [])) k"
  by (simp add: snd_remove Let_def)

lemma getValue_remove:
  "json_lib_ok L \<Longrightarrow> getValue (snd (remove L k c)) k' = (if k' = k then [] else getValue c k')"
  by (simp add: getValue_def data_remove json_remove_string)

lemma finite_jl_remove:
  "json_lib_ok L \<Longrightarrow> finite (dom m) \<Longrightarrow> finite (dom (jl_remove L m k))"
  unfolding json_lib_ok_def by (metis dom_fun_upd finite_Diff)

interpretation cs: settings_contract getValue contains "\<lambda>k v c. snd (setValue L k v c)"
    "\<lambda>k c. snd (remove L k c)" "settings_ok L" for L
proof unfold_locales
  fix c k v k'
  assume ok: "settings_ok L c"
  show "getValue (snd (setValue L k v c)) k' = (if k' = k then v else getValue c k')"
    by (simp add: getValue_def json_string_def)
  show "getValue (snd (remove L k c)) k' = (if k' = k then [] else getValue c k')"
    using ok by (simp add: settings_ok_def getValue_remove)
  show "contains c k \<longleftrightarrow> getValue c k \<noteq> []" by (rule contains_iff)
  show "settings_ok L (snd (setValue L k v c))" using ok by (simp add: settings_ok_def)
  show "settings_ok L (snd (remove L k c))"
    using ok by (simp add: settings_ok_def data_remove finite_jl_remove)
qed

subsection \<open>Writing the file and reading it back\<close>

definition record_lines :: "json_obj \<Rightarrow> string list \<Rightarrow> string list" where
  "record_lines m ks =
     map (\<lambda>k. k @ ''='' @ json_string m k) (filter (\<lambda>k. json_string m k \<noteq> []) ks)"

lemma record_text_lines:
  "concat (map (record_line m) ks) = concat (map (\<lambda>l. l @ [newline]) (record_lines m ks))"
  by (induction ks) (auto simp: record_line_def record_lines_def)

definition plain_entries :: "json_obj \<Rightarrow> bool" where
  "plain_entries m \<longleftrightarrow>
     (\<forall>k v. m k = Some v \<longrightarrow> newline \<notin> set k \<and> newline \<notin> set v \<and> CHR ''='' \<notin> set v)"

lemma plain_json_string:
  "plain_entries m \<Longrightarrow> newline \<notin> set (json_string m k) \<and> CHR ''='' \<notin> set (json_string m k)"
  by (auto simp: plain_entries_def json_string_def split: option.split)

lemma record_lines_no_newline:
  assumes "plain_entries m" and "set ks \<subseteq> dom m"
  shows "\<forall>l\<in>set (record_lines m ks). newline \<notin> set l"
  using assms plain_json_string [OF assms(1)] by (auto simp: record_lines_def plain_entries_def)

lemma read_record_line:
  "CHR ''='' \<notin> set v \<Longrightarrow> read_line_into m (k @ ''='' @ v) = m(k \<mapsto> v)"
  by (simp add: read_line_into_def find_last_of_append)

lemma foldl_upd:
  "foldl (\<lambda>a k. a(k \<mapsto> f k)) acc ks k' = (if k' \<in> set ks then Some (f k') else acc k')"
  by (induction ks arbitrary: acc) auto

lemma read_record_lines:
  assumes "plain_entries m"
  shows "foldl read_line_into acc (record_lines m ks) k =
     (if k \<in> set ks \<and> json_string m k \<noteq> [] then Some (json_string m k) else acc k)"
proof -
  have "foldl read_line_into acc (record_lines m ks)
      = foldl (\<lambda>a k. a(k \<mapsto> json_string m k)) acc (filter (\<lambda>k. json_string m k \<noteq> []) ks)"
    unfolding record_lines_def
    using plain_json_string [OF assms]
    by (induction ks arbitrary: acc) (auto simp: read_record_line simp del: append.simps(2))
  then show ?thesis by (simp add: foldl_upd)
qed

lemma read_empty_line [simp]: "read_line_into m [] = m"
  by (simp add: read_line_into_def find_last_of_def)

lemma read_back:
  assumes "plain_entries m" and "set ks = dom m"
  shows "json_string (foldl read_line_into Map.empty
           (split_nl (concat (map (record_line m) ks)))) k = json_string m k"
proof -
  have "split_nl (concat (map (record_line m) ks)) = record_lines m ks @ [[]]"
    using record_lines_no_newline [OF assms(1), of ks] assms(2)
    by (simp add: record_text_lines split_nl_lines)
  then show ?thesis
    using read_record_lines [OF assms(1), of Map.empty ks] assms(2)
    by (auto simp: json_string_def split: option.splits)
qed

text \<open>
  C17: The settings survive a restart. After a write that succeeds, a new \<open>cSettings\<close> object on the
  same file reads every value back, provided no key or value holds a newline and no value
  holds an equals sign (keys may: \<open>readFromFile\<close> splits at the last one).
\<close>

theorem settings_roundtrip:
  assumes "settings_ok L c" and "plain_entries (data c)"
    and "writeToFile L c = (True, c')"
  shows "getValue (cSettings (disk c') (filename c')) k = getValue c k"
proof -
  let ?text = "concat (map (record_line (data c)) (jl_labels L (data c)))"
  have ks: "set (jl_labels L (data c)) = dom (data c)"
    using assms(1) by (auto simp: settings_ok_def json_lib_ok_def)
  from assms(3) have c': "openable (disk c') (filename c')" "filename c' = filename c"
    "files (disk c') (filename c') = Some ?text"
    by (auto simp: writeToFile_def split: if_splits)
  then have "cSettings (disk c') (filename c')
    = \<lparr>filename = filename c', data = foldl read_line_into Map.empty (split_nl ?text), disk = disk c'\<rparr>"
    by (simp add: cSettings_def readFromFile_def fileExists_def read_file_def Let_def)
  then show ?thesis
    using read_back [OF assms(2) ks] by (simp add: getValue_def)
qed

text \<open>
  A library that meets the laws, for the witnesses: labels in lexicographic order (as an
  ordered map lists them) and a \<open>Remove\<close> that does nothing.
\<close>

definition plain_lib :: json_lib where
  "plain_lib = \<lparr>jl_remove = (\<lambda>m k. m), jl_labels = (\<lambda>m. sorted_list_of_set (dom m)),
     jl_int = to_string, jl_bool = (\<lambda>b. if b then ''true'' else ''false'')\<rparr>"

lemma plain_lib_ok: "json_lib_ok plain_lib"
  by (simp add: json_lib_ok_def plain_lib_def)

definition sample_settings :: csettings where
  "sample_settings =
     \<lparr>filename = ''/opt/m.conf'', data = [''softwareoptout'' \<mapsto> ''NONE'', ''a=b'' \<mapsto> ''1''],
      disk = \<lparr>files = [''/opt/m.conf'' \<mapsto> ''''], openable = (\<lambda>_. True)\<rparr>\<rparr>"

theorem settings_roundtrip_witness:
  "getValue (cSettings (disk (snd (writeToFile plain_lib sample_settings)))
      (filename (snd (writeToFile plain_lib sample_settings)))) ''a=b'' = ''1''"
proof -
  have "settings_ok plain_lib sample_settings"
    by (simp add: settings_ok_def plain_lib_ok sample_settings_def)
  moreover have "plain_entries (data sample_settings)"
    by (auto simp: plain_entries_def sample_settings_def)
  moreover have "writeToFile plain_lib sample_settings = (True, snd (writeToFile plain_lib sample_settings))"
    by (simp add: writeToFile_def sample_settings_def fileExists_def)
  ultimately have "getValue (cSettings (disk (snd (writeToFile plain_lib sample_settings)))
      (filename (snd (writeToFile plain_lib sample_settings)))) ''a=b'' = getValue sample_settings ''a=b''"
    by (rule settings_roundtrip)
  then show ?thesis by (simp add: getValue_def json_string_def sample_settings_def)
qed

text \<open>
  A value that holds an equals sign does not survive: written as \<open>key=a=b\<close> and split at
  the last sign, it comes back under the key \<open>key=a\<close>, and the key itself reads as empty.
\<close>

theorem settings_equals_sign_lost:
  assumes "settings_ok L c" and "dom (data c) = {k}" and "data c k = Some (a @ ''='' @ b)"
    and "newline \<notin> set (k @ a @ b)" and "CHR ''='' \<notin> set b"
    and "writeToFile L c = (True, c')"
  shows "getValue (cSettings (disk c') (filename c')) k = []
       \<and> getValue (cSettings (disk c') (filename c')) (k @ ''='' @ a) = b"
proof -
  have labels: "jl_labels L (data c) = [k]"
  proof -
    have "distinct (jl_labels L (data c))" "set (jl_labels L (data c)) = {k}"
      using assms(1,2) by (auto simp: settings_ok_def json_lib_ok_def)
    then show ?thesis by (rule distinct_singleton_list)
  qed
  let ?line = "k @ ''='' @ a @ ''='' @ b"
  have written: "concat (map (record_line (data c)) [k]) = ?line @ newline # []"
    using assms(3) by (simp add: record_line_def json_string_def)
  from assms(6) have c': "openable (disk c') (filename c')" "filename c' = filename c"
    "files (disk c') (filename c') = Some (?line @ newline # [])"
    unfolding written [symmetric] using labels by (auto simp: writeToFile_def split: if_splits)
  have "split_nl (?line @ newline # []) = [?line, []]"
    using assms(4) split_nl_line [of ?line "[]"] by simp
  moreover have "read_line_into Map.empty ?line = [k @ ''='' @ a \<mapsto> b]"
    using read_record_line [OF assms(5), of Map.empty "k @ ''='' @ a"] by simp
  ultimately have "cSettings (disk c') (filename c')
    = \<lparr>filename = filename c', data = [k @ ''='' @ a \<mapsto> b], disk = disk c'\<rparr>"
    using c' by (simp add: cSettings_def readFromFile_def fileExists_def read_file_def Let_def)
  then show ?thesis by (simp add: getValue_def json_string_def)
qed

theorem settings_equals_sign_lost_witness:
  "let c = \<lparr>filename = ''f'', data = [''url'' \<mapsto> ''x=1''],
            disk = \<lparr>files = [''f'' \<mapsto> ''''], openable = (\<lambda>_. True)\<rparr>\<rparr>;
       c' = snd (writeToFile plain_lib c)
   in getValue (cSettings (disk c') (filename c')) ''url'' = []
    \<and> getValue (cSettings (disk c') (filename c')) ''url=x'' = ''1''"
proof -
  let ?c = "\<lparr>filename = ''f'', data = [''url'' \<mapsto> ''x=1''],
            disk = \<lparr>files = [''f'' \<mapsto> ''''], openable = (\<lambda>_. True)\<rparr>\<rparr>"
  have "settings_ok plain_lib ?c" by (simp add: settings_ok_def plain_lib_ok)
  moreover have "writeToFile plain_lib ?c = (True, snd (writeToFile plain_lib ?c))"
    by (simp add: writeToFile_def fileExists_def)
  ultimately show ?thesis
    using settings_equals_sign_lost [of plain_lib ?c "''url''" "''x''" "''1''" "snd (writeToFile plain_lib ?c)"]
    by simp
qed

text \<open>
  \<open>remove\<close> does its work whatever the library's \<open>Remove\<close> does: afterwards the key is not
  contained and reads as the empty text, every other key keeps its value, and the result
  is whether the record file could be written.
\<close>

theorem remove_works_around_library:
  assumes "settings_ok L c"
  shows "\<not> contains (snd (remove L k c)) k
       \<and> getValue (snd (remove L k c)) k' = (if k' = k then [] else getValue c k')
       \<and> (fst (remove L k c) \<longleftrightarrow> fileExists (disk c) (filename c) \<and> openable (disk c) (filename c))"
proof -
  have absent: "\<not> contains (c\<lparr>data := jl_remove L ((data c)(k \<mapsto> [])) k\<rparr>) k"
    using assms json_remove_string [of L "data c" k k]
    by (simp add: contains_iff getValue_def settings_ok_def)
  then have "fst (remove L k c) \<longleftrightarrow> fileExists (disk c) (filename c) \<and> openable (disk c) (filename c)"
    by (simp add: remove_def Let_def writeToFile_def)
  then show ?thesis
    using cs.removed_not_has [OF assms] cs.get_rem [OF assms] by simp
qed

theorem remove_works_around_library_witness:
  "\<not> contains (snd (remove plain_lib ''softwareoptout'' sample_settings)) ''softwareoptout''
   \<and> getValue (snd (remove plain_lib ''softwareoptout'' sample_settings)) ''a=b'' = ''1''"
proof -
  have "settings_ok plain_lib sample_settings"
    by (simp add: settings_ok_def plain_lib_ok sample_settings_def)
  from remove_works_around_library [OF this, of "''softwareoptout''" "''a=b''"]
  show ?thesis by (simp add: getValue_def json_string_def sample_settings_def)
qed

lemma find_key_line_record:
  assumes "\<forall>k'\<in>set ks. CHR ''='' \<notin> set k'"
  shows "find_key_line k (record_lines m ks) =
     (if k \<in> set ks \<and> json_string m k \<noteq> [] then Some (json_string m k) else None)"
  using assms
proof (induction ks)
  case Nil
  then show ?case by (simp add: record_lines_def)
next
  case (Cons k1 ks)
  then have "find_first_of (k1 @ CHR ''='' # json_string m k1) (CHR ''='') = Some (length k1)"
    by (simp add: find_first_of_append)
  with Cons show ?case by (auto simp: record_lines_def)
qed

lemma parse_after_write:
  assumes "settings_ok L c" and "\<forall>k v. data c k = Some v \<longrightarrow>
      newline \<notin> set k \<and> newline \<notin> set v \<and> CHR ''='' \<notin> set k"
    and "writeToFile L c = (True, c')"
  shows "parseConfigFile (disk c') (filename c') k =
     (if getValue c k = [] then None else Some (getValue c k))"
proof -
  let ?ks = "jl_labels L (data c)" and ?m = "data c"
  have ks: "set ?ks = dom ?m"
    using assms(1) by (auto simp: settings_ok_def json_lib_ok_def)
  have keys: "\<forall>k'\<in>set ?ks. CHR ''='' \<notin> set k'" using ks assms(2) by auto
  have nl: "\<forall>l\<in>set (record_lines ?m ?ks). newline \<notin> set l"
  proof
    fix l
    assume "l \<in> set (record_lines ?m ?ks)"
    then show "newline \<notin> set l"
      using ks assms(2) by (auto simp: record_lines_def json_string_def split: option.splits)
  qed
  have "filter (\<lambda>line. length line > 0) (record_lines ?m ?ks) = record_lines ?m ?ks"
    by (auto simp: record_lines_def filter_id_conv)
  moreover from assms(3) have "openable (disk c') (filename c')"
    "files (disk c') (filename c') = Some (concat (map (\<lambda>l. l @ [newline]) (record_lines ?m ?ks)))"
    by (auto simp: writeToFile_def record_text_lines split: if_splits)
  ultimately have "snd (getFileContent (disk c') (filename c')) = record_lines ?m ?ks"
    using nl by (simp add: getFileContent_def read_file_def getlines_lines)
  then show ?thesis
    using ks find_key_line_record [OF keys, of k ?m]
    by (auto simp: parseConfigFile_def getValue_def json_string_def split: option.splits)
qed



end
