(* ===== verification/StatusBits.thy ===== *)
theory StatusBits
  imports SwuPrelude
begin

text \<open>
  The status bit field of a maintenance cycle (\<open>g_task_status\<close>, a \<open>uint16_t\<close>) with the
  macros and constants of \<open>MaintenanceManager.h\<close>, and the generic bit macros of
  \<open>helpers/UtilsBIT.h\<close>, which act on 64-bit operands.
\<close>

unbundle bit_operations_syntax

type_synonym u16 = "16 word"
type_synonym u64 = "64 word"

definition SET_STATUS :: "u16 \<Rightarrow> nat \<Rightarrow> u16" where
  "SET_STATUS v n = v OR push_bit n 1"

definition CLEAR_STATUS :: "u16 \<Rightarrow> nat \<Rightarrow> u16" where
  "CLEAR_STATUS v n = v AND NOT (push_bit n 1)"

definition CHECK_STATUS :: "u16 \<Rightarrow> nat \<Rightarrow> bool" where
  "CHECK_STATUS v n \<longleftrightarrow> v AND push_bit n 1 \<noteq> 0"

definition TASKS_COMPLETED :: u16 where "TASKS_COMPLETED = 0x2A"
definition ALL_TASKS_SUCCESS :: u16 where "ALL_TASKS_SUCCESS = 0x3F"
definition MAINTENANCE_TASK_SKIPPED :: u16 where "MAINTENANCE_TASK_SKIPPED = 0x200"

definition RFC_SUCCESS :: nat where "RFC_SUCCESS = 0"
definition RFC_COMPLETE :: nat where "RFC_COMPLETE = 1"
definition LOGUPLOAD_SUCCESS :: nat where "LOGUPLOAD_SUCCESS = 2"
definition LOGUPLOAD_COMPLETE :: nat where "LOGUPLOAD_COMPLETE = 3"
definition SWUPDATE_SUCCESS :: nat where "SWUPDATE_SUCCESS = 4"
definition SWUPDATE_COMPLETE :: nat where "SWUPDATE_COMPLETE = 5"
definition REBOOT_REQUIRED :: nat where "REBOOT_REQUIRED = 6"
definition TASK_SKIPPED :: nat where "TASK_SKIPPED = 7"

lemmas status_bit_defs = RFC_SUCCESS_def RFC_COMPLETE_def LOGUPLOAD_SUCCESS_def
  LOGUPLOAD_COMPLETE_def SWUPDATE_SUCCESS_def SWUPDATE_COMPLETE_def REBOOT_REQUIRED_def
  TASK_SKIPPED_def

definition mask_set :: "u16 \<Rightarrow> u16 \<Rightarrow> bool" where
  "mask_set v m \<longleftrightarrow> v AND m = m"

lemma bit_one_at: "bit (push_bit n 1 :: 'a :: len word) k \<longleftrightarrow> k = n \<and> n < LENGTH('a)"
  by (auto simp: bit_simps)

lemma nonzero_bit: "(v :: 'a :: len word) \<noteq> 0 \<longleftrightarrow> (\<exists>k. bit v k)"
  by (auto simp: bit_eq_iff dest: bit_imp_le_length)

lemma single_bit_test: "v AND push_bit n 1 \<noteq> 0 \<longleftrightarrow> bit (v :: 'a :: len word) n"
  unfolding nonzero_bit bit_and_iff bit_one_at by (auto dest: bit_imp_le_length)

lemma bit_SET_STATUS: "bit (SET_STATUS v n) k \<longleftrightarrow> bit v k \<or> (k = n \<and> n < 16)"
  unfolding SET_STATUS_def bit_or_iff bit_one_at by simp

lemma bit_CLEAR_STATUS: "bit (CLEAR_STATUS v n) k \<longleftrightarrow> bit v k \<and> k \<noteq> n"
  unfolding CLEAR_STATUS_def bit_and_iff bit_not_iff bit_one_at
  by (auto dest: bit_imp_le_length)

lemma CHECK_STATUS_bit: "CHECK_STATUS v n \<longleftrightarrow> bit v n"
  unfolding CHECK_STATUS_def by (rule single_bit_test)

lemma word_mask_iff: "v AND m = m \<longleftrightarrow> (\<forall>k. bit m k \<longrightarrow> bit (v :: 'a :: len word) k)"
proof
  assume "v AND m = m"
  then show "\<forall>k. bit m k \<longrightarrow> bit v k" by (metis bit_and_iff)
next
  assume "\<forall>k. bit m k \<longrightarrow> bit v k"
  then show "v AND m = m" by (intro bit_word_eqI) (auto simp: bit_and_iff)
qed

lemma mask_set_iff: "mask_set v m \<longleftrightarrow> (\<forall>k. bit m k \<longrightarrow> bit v k)"
  unfolding mask_set_def by (rule word_mask_iff)

lemma mask_set_zero: "mask_set v 0"
  by (simp add: mask_set_def)

lemma mask_set_SET_STATUS: "n < 16 \<Longrightarrow> mask_set v (SET_STATUS m n) \<longleftrightarrow> mask_set v m \<and> bit v n"
  unfolding mask_set_iff bit_SET_STATUS by blast

lemma tasks_completed_iff: "mask_set v TASKS_COMPLETED \<longleftrightarrow> bit v 1 \<and> bit v 3 \<and> bit v 5"
proof -
  have m: "TASKS_COMPLETED = SET_STATUS (SET_STATUS (SET_STATUS 0 1) 3) 5"
    by (simp add: TASKS_COMPLETED_def SET_STATUS_def)
  show ?thesis unfolding m by (simp add: mask_set_SET_STATUS mask_set_zero)
qed

lemma all_tasks_success_iff:
  "mask_set v ALL_TASKS_SUCCESS \<longleftrightarrow> bit v 0 \<and> bit v 1 \<and> bit v 2 \<and> bit v 3 \<and> bit v 4 \<and> bit v 5"
proof -
  have m: "ALL_TASKS_SUCCESS =
      SET_STATUS (SET_STATUS (SET_STATUS (SET_STATUS (SET_STATUS (SET_STATUS 0 0) 1) 2) 3) 4) 5"
    by (simp add: ALL_TASKS_SUCCESS_def SET_STATUS_def)
  show ?thesis unfolding m by (simp add: mask_set_SET_STATUS mask_set_zero)
qed

lemma task_skipped_mask_iff: "mask_set v MAINTENANCE_TASK_SKIPPED \<longleftrightarrow> bit v 9"
proof -
  have m: "MAINTENANCE_TASK_SKIPPED = SET_STATUS 0 9"
    by (simp add: MAINTENANCE_TASK_SKIPPED_def SET_STATUS_def)
  show ?thesis unfolding m by (simp add: mask_set_SET_STATUS mask_set_zero)
qed

subsection \<open>The macros of UtilsBIT.h\<close>

definition BIT_SET :: "u64 \<Rightarrow> nat \<Rightarrow> u64" where "BIT_SET a b = a OR push_bit b 1"
definition BIT_CLEAR :: "u64 \<Rightarrow> nat \<Rightarrow> u64" where "BIT_CLEAR a b = a AND NOT (push_bit b 1)"
definition BIT_FLIP :: "u64 \<Rightarrow> nat \<Rightarrow> u64" where "BIT_FLIP a b = a XOR push_bit b 1"
definition BIT_CHECK :: "u64 \<Rightarrow> nat \<Rightarrow> bool" where "BIT_CHECK a b \<longleftrightarrow> a AND push_bit b 1 \<noteq> 0"
definition BITMASK_SET :: "u64 \<Rightarrow> u64 \<Rightarrow> u64" where "BITMASK_SET x m = x OR m"
definition BITMASK_CLEAR :: "u64 \<Rightarrow> u64 \<Rightarrow> u64" where "BITMASK_CLEAR x m = x AND NOT m"
definition BITMASK_FLIP :: "u64 \<Rightarrow> u64 \<Rightarrow> u64" where "BITMASK_FLIP x m = x XOR m"
definition BITMASK_CHECK_ALL :: "u64 \<Rightarrow> u64 \<Rightarrow> bool" where
  "BITMASK_CHECK_ALL x m \<longleftrightarrow> NOT x AND m = 0"
definition BITMASK_CHECK_ANY :: "u64 \<Rightarrow> u64 \<Rightarrow> bool" where
  "BITMASK_CHECK_ANY x m \<longleftrightarrow> x AND m \<noteq> 0"

lemma BIT_CHECK_bit: "BIT_CHECK a b \<longleftrightarrow> bit a b"
  unfolding BIT_CHECK_def by (rule single_bit_test)

lemma bit_macros:
  "b < 64 \<Longrightarrow> BIT_CHECK (BIT_SET a b) k \<longleftrightarrow> k = b \<or> BIT_CHECK a k"
  "BIT_CHECK (BIT_CLEAR a b) k \<longleftrightarrow> k \<noteq> b \<and> BIT_CHECK a k"
  "b < 64 \<Longrightarrow> BIT_CHECK (BIT_FLIP a b) k \<longleftrightarrow> (if k = b then \<not> BIT_CHECK a k else BIT_CHECK a k)"
  unfolding BIT_CHECK_bit BIT_SET_def BIT_CLEAR_def BIT_FLIP_def bit_or_iff bit_and_iff
    bit_xor_iff bit_not_iff bit_one_at
  by (auto dest: bit_imp_le_length)

lemma bitmask_check_all_iff: "BITMASK_CHECK_ALL x m \<longleftrightarrow> (\<forall>k. bit m k \<longrightarrow> bit x k)"
proof -
  have "NOT x AND m = 0 \<longleftrightarrow> \<not> (\<exists>k. bit (NOT x AND m) k)"
    using nonzero_bit [of "NOT x AND m"] by blast
  also have "\<dots> \<longleftrightarrow> (\<forall>k. bit m k \<longrightarrow> bit x k)"
    unfolding bit_and_iff bit_not_iff using bit_imp_possible_bit [of m] by blast
  finally show ?thesis unfolding BITMASK_CHECK_ALL_def .
qed

lemma bitmask_set_check_all: "BITMASK_CHECK_ALL (BITMASK_SET x m) m"
  by (auto simp: bitmask_check_all_iff BITMASK_SET_def bit_or_iff)

lemma bitmask_clear_check_any: "\<not> BITMASK_CHECK_ANY (BITMASK_CLEAR x m) m"
  unfolding BITMASK_CHECK_ANY_def BITMASK_CLEAR_def nonzero_bit bit_and_iff bit_not_iff by simp

end
