(* ===== verification/MaintTypes.thy ===== *)
theory MaintTypes
  imports Settings StatusBits
begin

text \<open>
  The data of the MaintenanceManager plugin: the enumerations and string tables of
  \<open>MaintenanceManager.h\<close> and \<open>MaintenanceManager.cpp\<close>, the class members as a record,
  the environment (every call that leaves the sources) and the primitive accesses the
  methods are written with.

  An answer of the environment is a function of a counter that every question advances,
  so a device may answer the same question differently each time. What the plugin does
  to the outside (notifications, commands, signals, parameters) is kept in a trace,
  newest first. Log lines and telemetry markers are left out.
\<close>

subsection \<open>Enumerations and tables\<close>

datatype Maint_notify_status_t =
  MAINTENANCE_IDLE | MAINTENANCE_STARTED | MAINTENANCE_ERROR | MAINTENANCE_COMPLETE
| MAINTENANCE_INCOMPLETE

datatype Auth_activation_status_t =
  ACTIVATION_CONNECT | ACTIVATION_READY | NOT_ACTIVATED | ACTIVATION_DISCONNECT | ACTIVATED
| INVALID_ACTIVATION

datatype Maintenance_Type_t = SOLICITED_MAINTENANCE | UNSOLICITED_MAINTENANCE

datatype TaskIndices = TASK_RFC | TASK_SWUPDATE | TASK_LOGUPLOAD

text \<open>The enumeration of the IARM header; values the sources do not name are one case.\<close>

datatype IARM_Maint_module_status_t =
  MAINT_RFC_COMPLETE | MAINT_RFC_ERROR | MAINT_LOGUPLOAD_COMPLETE | MAINT_LOGUPLOAD_ERROR
| MAINT_FWDOWNLOAD_COMPLETE | MAINT_FWDOWNLOAD_ERROR | MAINT_REBOOT_REQUIRED
| MAINT_FWDOWNLOAD_ABORTED | MAINT_CRITICAL_UPDATE | MAINT_RFC_INPROGRESS
| MAINT_FWDOWNLOAD_INPROGRESS | MAINT_LOGUPLOAD_INPROGRESS | MAINT_other nat

datatype DATA_TYPE = WDMP_STRING | WDMP_BOOLEAN | WDMP_other nat
datatype WDMP_STATUS = WDMP_SUCCESS | WDMP_ERR_DEFAULT_VALUE | WDMP_FAILURE_other nat
datatype signal = SIGABRT | SIGUSR1 | SIGALRM | SIG_other nat
datatype plugin_state = PLUGIN_ACTIVATED | PLUGIN_UNAVAILABLE | PLUGIN_other nat

definition notifyStatusToString :: "Maint_notify_status_t \<Rightarrow> string" where
  "notifyStatusToString status = (case status of
     MAINTENANCE_IDLE \<Rightarrow> ''MAINTENANCE_IDLE''
   | MAINTENANCE_STARTED \<Rightarrow> ''MAINTENANCE_STARTED''
   | MAINTENANCE_ERROR \<Rightarrow> ''MAINTENANCE_ERROR''
   | MAINTENANCE_COMPLETE \<Rightarrow> ''MAINTENANCE_COMPLETE''
   | MAINTENANCE_INCOMPLETE \<Rightarrow> ''MAINTENANCE_INCOMPLETE'')"

definition OptOutModes :: "string list" where
  "OptOutModes = [''ENFORCE_OPTOUT'', ''BYPASS_OPTOUT'', ''IGNORE_UPDATE'', ''NONE'']"

definition checkValidOptOutModes :: "string \<Rightarrow> bool" where
  "checkValidOptOutModes m \<longleftrightarrow> m \<in> set OptOutModes"

definition moduleStatusToString :: "IARM_Maint_module_status_t \<Rightarrow> string" where
  "moduleStatusToString status = (case status of
     MAINT_RFC_COMPLETE \<Rightarrow> ''MAINTENANCE_RFC_COMPLETE''
   | MAINT_RFC_ERROR \<Rightarrow> ''MAINTENANCE_RFC_ERROR''
   | MAINT_LOGUPLOAD_COMPLETE \<Rightarrow> ''MAINTENANCE_LOGUPLOAD_COMPLETE''
   | MAINT_LOGUPLOAD_ERROR \<Rightarrow> ''MAINTENANCE_LOGUPLOAD_ERROR''
   | MAINT_FWDOWNLOAD_COMPLETE \<Rightarrow> ''MAINTENANCE_FWDOWNLOAD_COMPLETE''
   | MAINT_FWDOWNLOAD_ERROR \<Rightarrow> ''MAINTENANCE_FWDOWNLOAD_ERROR''
   | MAINT_REBOOT_REQUIRED \<Rightarrow> ''MAINTENANCE_REBOOT_REQUIRED''
   | MAINT_FWDOWNLOAD_ABORTED \<Rightarrow> ''MAINTENANCE_FWDOWNLOAD_ABORTED''
   | MAINT_CRITICAL_UPDATE \<Rightarrow> ''MAINTENANCE_CRITICAL_UPDATE''
   | _ \<Rightarrow> ''MAINTENANCE_EMPTY'')"

definition TASK_SCRIPT :: string where
  "TASK_SCRIPT = ''/lib/rdk/Start_MaintenanceTasks.sh''"

definition IMAGE_CHECK_SCRIPT :: string where
  "IMAGE_CHECK_SCRIPT = ''/lib/rdk/xconfImageCheck.sh''"

definition RFC_TASK :: string where "RFC_TASK = ''RFC''"

definition task_param :: "TaskIndices \<Rightarrow> string" where
  "task_param t = (case t of TASK_RFC \<Rightarrow> ''RFC'' | TASK_SWUPDATE \<Rightarrow> ''SWUPDATE''
                   | TASK_LOGUPLOAD \<Rightarrow> ''LOGUPLOAD'')"

definition task_names_foreground :: "TaskIndices \<Rightarrow> string" where
  "task_names_foreground t = TASK_SCRIPT @ '' '' @ task_param t"

definition task_complete_status :: "TaskIndices \<Rightarrow> nat" where
  "task_complete_status t = (case t of TASK_RFC \<Rightarrow> RFC_COMPLETE
     | TASK_SWUPDATE \<Rightarrow> SWUPDATE_COMPLETE | TASK_LOGUPLOAD \<Rightarrow> LOGUPLOAD_COMPLETE)"

definition task_success_status :: "TaskIndices \<Rightarrow> nat" where
  "task_success_status t = (case t of TASK_RFC \<Rightarrow> RFC_SUCCESS
     | TASK_SWUPDATE \<Rightarrow> SWUPDATE_SUCCESS | TASK_LOGUPLOAD \<Rightarrow> LOGUPLOAD_SUCCESS)"

definition task_status_map :: "string \<rightharpoonup> nat" where
  "task_status_map =
     [task_names_foreground TASK_RFC \<mapsto> RFC_COMPLETE,
      task_names_foreground TASK_SWUPDATE \<mapsto> SWUPDATE_COMPLETE,
      task_names_foreground TASK_LOGUPLOAD \<mapsto> LOGUPLOAD_COMPLETE]"

text \<open>The process names; the first depends on the build option \<open>ENABLE_RFC_MANAGER\<close>.\<close>

definition task_names :: "bool \<Rightarrow> TaskIndices \<Rightarrow> string" where
  "task_names rfc_manager t = (case t of
     TASK_RFC \<Rightarrow> if rfc_manager then ''rfcMgr'' else ''RFCbase.sh''
   | TASK_SWUPDATE \<Rightarrow> ''rdkvfwupgrader''
   | TASK_LOGUPLOAD \<Rightarrow> ''uploadSTBLogs.sh'')"

definition kDeviceInitContextKeyVals :: "string list" where
  "kDeviceInitContextKeyVals = [''partnerId'', ''osClass'', ''regionalConfigService'']"

definition TR181_PARTNER_ID :: string where
  "TR181_PARTNER_ID = ''Device.DeviceInfo.X_RDKCENTRAL-COM_RFC.Bootstrap.PartnerName''"

definition TR181_TARGET_OS_CLASS :: string where
  "TR181_TARGET_OS_CLASS = ''Device.DeviceInfo.X_RDKCENTRAL-COM_RFC.Bootstrap.OsClass''"

definition TR181_XCONFURL :: string where
  "TR181_XCONFURL = ''Device.DeviceInfo.X_RDKCENTRAL-COM_RFC.Bootstrap.XconfUrl''"

definition MAINTENANCE_MGR_RECORD_FILE :: string where
  "MAINTENANCE_MGR_RECORD_FILE = ''/opt/maintenance_mgr_record.conf''"

definition FOREGROUND_MODE :: string where "FOREGROUND_MODE = ''FOREGROUND''"
definition BACKGROUND_MODE :: string where "BACKGROUND_MODE = ''BACKGROUND''"

definition MAX_NETWORK_RETRIES :: nat where "MAX_NETWORK_RETRIES = 4"
definition INTERNET_CONNECTED_STATE :: int where "INTERNET_CONNECTED_STATE = 3"
definition MAX_ACTIVATION_RETRIES :: nat where "MAX_ACTIVATION_RETRIES = 4"
definition TASK_RETRY_COUNT :: nat where "TASK_RETRY_COUNT = 1"
definition TASK_TIMEOUT :: nat where "TASK_TIMEOUT = 3600"

definition all_tasks :: "TaskIndices list" where
  "all_tasks = [TASK_RFC, TASK_SWUPDATE, TASK_LOGUPLOAD]"

lemma all_tasks_all [simp]: "t \<in> set all_tasks"
  by (cases t) (simp_all add: all_tasks_def)

lemma task_names_foreground_inj [simp]:
  "task_names_foreground t = task_names_foreground u \<longleftrightarrow> t = u"
  by (cases t; cases u) (simp_all add: task_names_foreground_def task_param_def)

lemma task_status_map_task [simp]:
  "task_status_map (task_names_foreground t) = Some (task_complete_status t)"
  by (cases t) (simp_all add: task_status_map_def task_complete_status_def)

text \<open>The order of the enumeration, which indexes every task table.\<close>

definition task_index :: "TaskIndices \<Rightarrow> nat" where
  "task_index t = (case t of TASK_RFC \<Rightarrow> 0 | TASK_SWUPDATE \<Rightarrow> 1 | TASK_LOGUPLOAD \<Rightarrow> 2)"

instantiation TaskIndices :: linorder
begin

definition less_eq_TaskIndices :: "TaskIndices \<Rightarrow> TaskIndices \<Rightarrow> bool" where
  "t \<le> u \<longleftrightarrow> task_index t \<le> task_index u"

definition less_TaskIndices :: "TaskIndices \<Rightarrow> TaskIndices \<Rightarrow> bool" where
  "t < u \<longleftrightarrow> task_index t < task_index u"

instance
proof
  fix x y z :: TaskIndices
  show "x < y \<longleftrightarrow> x \<le> y \<and> \<not> y \<le> x"
    by (auto simp: less_eq_TaskIndices_def less_TaskIndices_def)
  show "x \<le> x" by (simp add: less_eq_TaskIndices_def)
  show "x \<le> z" if "x \<le> y" and "y \<le> z" using that by (simp add: less_eq_TaskIndices_def)
  show "x = y" if "x \<le> y" and "y \<le> x"
    using that by (cases x; cases y) (simp_all add: less_eq_TaskIndices_def task_index_def)
  show "x \<le> y \<or> y \<le> x" by (auto simp: less_eq_TaskIndices_def)
qed

end

lemma all_tasks_sorted: "sorted_wrt (<) all_tasks"
  by (simp add: all_tasks_def less_TaskIndices_def task_index_def)

subsection \<open>The class members\<close>

text \<open>
  The execution thread is a value of \<open>thread_pc\<close>: no joinable thread, one of the points
  between which its code runs without another thread having to be considered, or
  finished and not joined. The arguments are the locals that are live there:
  \<open>T_Checks delay\<close>, \<open>T_WhoAmI delay skip internet activation\<close>,
  \<open>T_WaitContext delay skip\<close> (the wait for the device context tests its predicate),
  \<open>T_BlockContext delay skip\<close> (it has found that it must wait and is about to block),
  \<open>T_SleepContext delay skip\<close> (blocked), \<open>T_Proceed delay skip\<close>, \<open>T_Loop i retry_count timerStarted\<close>
  (the head of the task loop), \<open>T_Invoked i\<close> (\<open>system()\<close> has succeeded, the wait has not
  begun), \<open>T_Wait i woken\<close>.
\<close>

datatype thread_pc =
  T_None
| T_Begin
| T_Checks bool
| T_WhoAmI bool bool bool string
| T_WaitContext bool bool
| T_BlockContext bool bool
| T_SleepContext bool bool
| T_Exit
| T_Proceed bool bool
| T_Loop nat nat bool
| T_Invoked nat
| T_Wait nat bool
| T_Done

text \<open>
  A handler that has reached \<open>m_thread.join()\<close> keeps \<open>m_statusMutex\<close> and waits; what it
  still has to do is its continuation: \<open>startMaintenance\<close> (with the saved flag),
  \<open>stopMaintenanceTasks\<close> (called from the API or from \<open>Deinitialize\<close>), or
  \<open>iarmEventHandler\<close> with the status to report.
\<close>

datatype continuation =
  C_None
| C_Start string
| C_Stop bool
| C_Iarm Maint_notify_status_t

datatype effect =
  Notified Maint_notify_status_t
| Ran string
| Signalled int signal
| RfcSet string string DATA_TYPE
| PartnerSet string
| ModeBroadcast int
| Replied string bool

record mm =
  g_currentMode :: string
  g_triggerMode :: string
  g_is_critical_maintenance :: string
  g_is_reboot_pending :: string
  g_lastSuccessful_maint_time :: string
  g_epoch_time :: string
  m_notify_status :: Maint_notify_status_t
  g_maintenance_type :: Maintenance_Type_t
  m_setting :: csettings
  m_abort_flag :: bool
  g_task_status :: u16
  g_unsolicited_complete :: bool
  g_listen_to_nwevents :: bool
  g_subscribed_for_nwevents :: bool
  g_listen_to_deviceContextUpdate :: bool
  g_subscribed_for_deviceContextUpdate :: bool
  g_whoami_support_enabled :: bool
  g_suppress_maintenance_enabled :: bool
  m_task_map :: "string \<rightharpoonup> bool"
  m_param_map :: "string \<rightharpoonup> string"
  m_paramType_map :: "string \<rightharpoonup> DATA_TYPE"
  m_service :: bool
  m_authservicePlugin :: bool
  instance_alive :: bool
  tasks :: "string list"
  currentTask :: string
  g_task_timerCreated :: bool
  timer_armed :: bool
  m_thread :: thread_pc
  status_lock :: continuation
  crashed :: bool
  destroyed :: bool
  tick :: nat
  trace :: "effect list"

subsection \<open>The environment\<close>

text \<open>A connection to a Thunder plugin: its callsign and the query with the token.\<close>

type_synonym link = "string \<times> string"

text \<open>The answer to \<open>getDeviceInitializationContext\<close>: the two labels the code looks at.\<close>

record wai_response =
  wai_success :: "bool option"
  wai_context :: "json_obj option"

record env =
  env_json :: json_lib
  env_rfc_manager :: bool
  env_service_state :: "nat \<Rightarrow> string \<Rightarrow> plugin_state option"
  env_token :: "nat \<Rightarrow> string option"
  env_subscribe :: "nat \<Rightarrow> link \<Rightarrow> string \<Rightarrow> bool"
  env_connected :: "nat \<Rightarrow> link \<Rightarrow> nat \<times> bool option"
  env_wai :: "nat \<Rightarrow> link \<Rightarrow> wai_response"
  env_authservice :: "nat \<Rightarrow> bool"
  env_activation :: "nat \<Rightarrow> string option"
  env_set_partner :: "nat \<Rightarrow> string \<Rightarrow> bool"
  env_setRFC :: "nat \<Rightarrow> string \<Rightarrow> string \<Rightarrow> DATA_TYPE \<Rightarrow> WDMP_STATUS"
  env_getRFC :: "nat \<Rightarrow> string \<Rightarrow> WDMP_STATUS \<times> DATA_TYPE \<times> string"
  env_system :: "nat \<Rightarrow> string \<Rightarrow> int"
  env_timer_create :: "nat \<Rightarrow> bool"
  env_timer_settime :: "nat \<Rightarrow> nat \<Rightarrow> bool"
  env_timer_delete :: "nat \<Rightarrow> bool"
  env_kill :: "nat \<Rightarrow> int \<Rightarrow> signal \<Rightarrow> int"
  env_proc :: "nat \<Rightarrow> string list"
  env_cmdline :: "nat \<Rightarrow> string \<Rightarrow> string list option"
  env_thread :: "nat \<Rightarrow> bool"
  env_broadcast :: "nat \<Rightarrow> int \<Rightarrow> bool"
  env_time :: "nat \<Rightarrow> int"
  env_iarm_name :: string
  env_event_update :: nat
  env_iarm_init :: "nat \<Rightarrow> bool"
  env_iarm_connected :: "nat \<Rightarrow> bool"
  env_signal :: "nat \<Rightarrow> bool"
  env_device_properties :: "string option"

definition ask :: "(nat \<Rightarrow> 'a) \<Rightarrow> (mm, 'a) state" where
  "ask f = State (\<lambda>s. (f (tick s), s\<lparr>tick := Suc (tick s)\<rparr>))"

definition emit :: "effect \<Rightarrow> (mm, unit) state" where
  "emit e = modify (trace_update (Cons e))"

lemma run_ask [simp]: "run_state (ask f) s = (f (tick s), s\<lparr>tick := Suc (tick s)\<rparr>)"
  by (simp add: ask_def)

lemma run_emit [simp]: "run_state (emit e) s = ((), s\<lparr>trace := e # trace s\<rparr>)"
  by (simp add: emit_def)

text \<open>\<open>m_setting.setValue\<close> and \<open>m_setting.remove\<close> on the member.\<close>

definition setting_set :: "env \<Rightarrow> string \<Rightarrow> string \<Rightarrow> (mm, unit) state" where
  "setting_set E k v =
     modify (\<lambda>s. s\<lparr>m_setting := snd (setValue (env_json E) k v (m_setting s))\<rparr>)"

definition setting_remove :: "env \<Rightarrow> string \<Rightarrow> (mm, unit) state" where
  "setting_remove E k = modify (\<lambda>s. s\<lparr>m_setting := snd (remove (env_json E) k (m_setting s))\<rparr>)"

lemma run_setting_set [simp]: "run_state (setting_set E k v) s =
    ((), s\<lparr>m_setting := snd (setValue (env_json E) k v (m_setting s))\<rparr>)"
  by (simp add: setting_set_def)

lemma run_setting_remove [simp]: "run_state (setting_remove E k) s =
    ((), s\<lparr>m_setting := snd (remove (env_json E) k (m_setting s))\<rparr>)"
  by (simp add: setting_remove_def)

definition SET_TASK_STATUS :: "nat \<Rightarrow> (mm, unit) state" where
  "SET_TASK_STATUS n = modify (\<lambda>s. s\<lparr>g_task_status := SET_STATUS (g_task_status s) n\<rparr>)"

definition set_task_map :: "string \<Rightarrow> bool \<Rightarrow> (mm, unit) state" where
  "set_task_map k b = modify (\<lambda>s. s\<lparr>m_task_map := (m_task_map s)(k \<mapsto> b)\<rparr>)"

lemma run_SET_TASK_STATUS [simp]: "run_state (SET_TASK_STATUS n) s =
    ((), s\<lparr>g_task_status := SET_STATUS (g_task_status s) n\<rparr>)"
  by (simp add: SET_TASK_STATUS_def)

lemma run_set_task_map [simp]: "run_state (set_task_map k b) s =
    ((), s\<lparr>m_task_map := (m_task_map s)(k \<mapsto> b)\<rparr>)"
  by (simp add: set_task_map_def)

text \<open>
  \<open>task_thread.notify_one()\<close>: it wakes the thread where it waits for a task; a thread that is
  blocked in the wait for the device context goes back to the test of its predicate. Where
  nobody is blocked the notification is lost. (The handlers that notify do not take
  \<open>m_waiMutex\<close>, so they can run between the test of the predicate and the blocking.)
\<close>

definition notify_thread :: "thread_pc \<Rightarrow> thread_pc" where
  "notify_thread p = (case p of T_Wait i _ \<Rightarrow> T_Wait i True
     | T_SleepContext d sk \<Rightarrow> T_WaitContext d sk | _ \<Rightarrow> p)"

definition notify_one :: "(mm, unit) state" where
  "notify_one = modify (m_thread_update notify_thread)"

lemma run_notify_one [simp]:
  "run_state notify_one s = ((), s\<lparr>m_thread := notify_thread (m_thread s)\<rparr>)"
  by (simp add: notify_one_def)

text \<open>\<open>onMaintenanceStatusChange\<close>: store the status and notify the subscribers.\<close>

definition onMaintenanceStatusChange :: "Maint_notify_status_t \<Rightarrow> (mm, unit) state" where
  "onMaintenanceStatusChange st = do {
     modify (m_notify_status_update (\<lambda>_. st));
     emit (Notified st)
   }"

lemma run_onMaintenanceStatusChange [simp]:
  "run_state (onMaintenanceStatusChange st) s =
     ((), s\<lparr>m_notify_status := st, trace := Notified st # trace s\<rparr>)"
  by (simp add: onMaintenanceStatusChange_def)

text \<open>
  Which locks are free: \<open>m_statusMutex\<close> is kept by a handler that waits in \<open>join\<close>, and the
  execution thread keeps \<open>m_callMutex\<close> from its first task on, except while it waits.
\<close>

definition status_mutex_free :: "mm \<Rightarrow> bool" where
  "status_mutex_free s \<longleftrightarrow> status_lock s = C_None"

definition call_mutex_free :: "mm \<Rightarrow> bool" where
  "call_mutex_free s \<longleftrightarrow>
     (case m_thread s of T_Loop _ _ _ \<Rightarrow> False | T_Invoked _ \<Rightarrow> False | _ \<Rightarrow> True)"

text \<open>Which service is reached for a callsign, and its state.\<close>

definition getServiceState :: "env \<Rightarrow> string \<Rightarrow> (mm, plugin_state option) state" where
  "getServiceState E callsign = ask (\<lambda>n. env_service_state E n callsign)"

definition service_active :: "env \<Rightarrow> string \<Rightarrow> (mm, bool) state" where
  "service_active E callsign = do {
     st \<leftarrow> getServiceState E callsign;
     ret (st = Some PLUGIN_ACTIVATED)
   }"

text \<open>
  \<open>getThunderPluginHandle\<close>: the token is what the security agent wrote, empty where there
  is no agent; the link is always created.
\<close>

definition getThunderPluginHandle :: "env \<Rightarrow> string \<Rightarrow> (mm, link) state" where
  "getThunderPluginHandle E callsign = do {
     agent \<leftarrow> ask (env_token E);
     let token = (case agent of None \<Rightarrow> [] | Some tok \<Rightarrow> tok);
     ret (callsign, ''token='' @ token)
   }"

end
