(* ===== verification/MaintTimer.thy ===== *)
theory MaintTimer
  imports MaintTypes
begin

text \<open>
  The task timer of the MaintenanceManager: creation, start, stop and deletion of the one
  POSIX timer, and the contract of its users as a locale. \<open>timer_armed\<close> is the state of
  the timer in the kernel: armed by a successful \<open>timer_settime\<close> with a non-zero time,
  disarmed by one with zero, by expiry and by deletion.
\<close>

subsection \<open>The operations\<close>

definition timer_settime :: "env \<Rightarrow> nat \<Rightarrow> (mm, bool) state" where
  "timer_settime E secs = do {
     ok \<leftarrow> ask (\<lambda>n. env_timer_settime E n secs);
     whenM ok (modify (timer_armed_update (\<lambda>_. secs \<noteq> 0)));
     ret ok
   }"

definition maintenance_initTimer :: "env \<Rightarrow> (mm, bool) state" where
  "maintenance_initTimer E = do {
     created \<leftarrow> gets g_task_timerCreated;
     if created then ret created
     else do {
       ok \<leftarrow> ask (env_timer_create E);
       whenM ok (modify (g_task_timerCreated_update (\<lambda>_. True)));
       gets g_task_timerCreated
     }
   }"

definition task_startTimer :: "env \<Rightarrow> (mm, bool) state" where
  "task_startTimer E = do {
     created \<leftarrow> gets g_task_timerCreated;
     ready \<leftarrow> (if created then ret True else maintenance_initTimer E);
     if \<not> ready then ret False else timer_settime E TASK_TIMEOUT
   }"

definition task_stopTimer :: "env \<Rightarrow> (mm, bool) state" where
  "task_stopTimer E = do {
     created \<leftarrow> gets g_task_timerCreated;
     if \<not> created then ret False else timer_settime E 0
   }"

definition maintenance_deleteTimer :: "env \<Rightarrow> (mm, bool) state" where
  "maintenance_deleteTimer E = do {
     created \<leftarrow> gets g_task_timerCreated;
     if \<not> created then ret False
     else do {
       ok \<leftarrow> ask (env_timer_delete E);
       whenM ok (modify (\<lambda>s. s\<lparr>g_task_timerCreated := False, timer_armed := False\<rparr>));
       ret ok
     }
   }"

subsection \<open>The contract\<close>

text \<open>
  What the users of a timer rely on. \<open>created\<close> and \<open>armed\<close> observe the state, and the
  operations return whether they succeeded: a start that succeeds arms the timer and
  leaves it created, a stop or a deletion that succeeds disarms it, a stop or a deletion
  of a timer that was not created fails and changes nothing.
\<close>

locale one_timer =
  fixes created :: "'s \<Rightarrow> bool"
    and armed :: "'s \<Rightarrow> bool"
    and start :: "'s \<Rightarrow> bool \<times> 's"
    and stop :: "'s \<Rightarrow> bool \<times> 's"
    and delete :: "'s \<Rightarrow> bool \<times> 's"
  assumes start_ok: "fst (start s) \<Longrightarrow> created (snd (start s)) \<and> armed (snd (start s))"
    and start_keeps: "created s \<Longrightarrow> created (snd (start s))"
    and start_failed: "\<not> fst (start s) \<Longrightarrow> armed (snd (start s)) = armed s"
    and stop_ok: "fst (stop s) \<Longrightarrow> created s \<and> \<not> armed (snd (stop s))"
    and stop_keeps: "created (snd (stop s)) = created s"
    and stop_failed: "\<not> fst (stop s) \<Longrightarrow> armed (snd (stop s)) = armed s"
    and delete_ok: "fst (delete s) \<Longrightarrow> created s \<and> \<not> created (snd (delete s)) \<and> \<not> armed (snd (delete s))"
    and delete_failed: "\<not> fst (delete s) \<Longrightarrow>
      created (snd (delete s)) = created s \<and> armed (snd (delete s)) = armed s"
begin

definition sound :: "'s \<Rightarrow> bool" where
  "sound s \<longleftrightarrow> (armed s \<longrightarrow> created s)"

lemma start_sound: "sound s \<Longrightarrow> sound (snd (start s))"
  unfolding sound_def using start_ok start_keeps start_failed by metis

lemma stop_sound: "sound s \<Longrightarrow> sound (snd (stop s))"
  unfolding sound_def using stop_ok stop_keeps stop_failed by metis

lemma delete_sound: "sound s \<Longrightarrow> sound (snd (delete s))"
  unfolding sound_def using delete_ok delete_failed by metis

lemma stopped_after: "fst (stop (snd (start s))) \<Longrightarrow> \<not> armed (snd (stop (snd (start s))))"
  using stop_ok by blast

lemma deleted_stop_fails:
  assumes "fst (delete s)"
  shows "\<not> fst (stop (snd (delete s)))"
proof
  assume "fst (stop (snd (delete s)))"
  then have "created (snd (delete s))" using stop_ok by blast
  with delete_ok [OF assms] show False by simp
qed

end

lemma timer_run_simps:
  "run_state (timer_settime E n) s =
     (let ok = env_timer_settime E (tick s) n
      in (ok, (if ok then s\<lparr>tick := Suc (tick s), timer_armed := (n \<noteq> 0)\<rparr> else s\<lparr>tick := Suc (tick s)\<rparr>)))"
  by (simp add: timer_settime_def Let_def)

interpretation tm: one_timer g_task_timerCreated timer_armed "run_state (task_startTimer E)"
    "run_state (task_stopTimer E)" "run_state (maintenance_deleteTimer E)" for E
  by unfold_locales
     (auto simp: task_startTimer_def task_stopTimer_def maintenance_deleteTimer_def
        maintenance_initTimer_def timer_run_simps TASK_TIMEOUT_def Let_def split: if_splits)

text \<open>
  The life of the task timer. Starting it succeeds exactly when it exists or can be
  created and the kernel accepts the time, and then it is created and armed; stopping
  it succeeds only on a created timer and disarms it without deleting it; deleting it
  succeeds only on a created timer, and a stop after that fails.
\<close>

theorem timer_life_cycle:
  "(let (ok, t) = run_state (task_startTimer E) s
    in (ok \<longleftrightarrow> (if g_task_timerCreated s then env_timer_settime E (tick s) TASK_TIMEOUT
               else env_timer_create E (tick s) \<and> env_timer_settime E (Suc (tick s)) TASK_TIMEOUT))
      \<and> timer_armed t = (ok \<or> timer_armed s) \<and> g_task_timerCreated t =
           (g_task_timerCreated s \<or> env_timer_create E (tick s)))
   \<and> (let (ok, t) = run_state (task_stopTimer E) s
      in (ok \<longleftrightarrow> g_task_timerCreated s \<and> env_timer_settime E (tick s) 0)
        \<and> timer_armed t = (\<not> ok \<and> timer_armed s) \<and> g_task_timerCreated t = g_task_timerCreated s)
   \<and> (let (ok, t) = run_state (maintenance_deleteTimer E) s
      in (ok \<longleftrightarrow> g_task_timerCreated s \<and> env_timer_delete E (tick s))
        \<and> g_task_timerCreated t = (g_task_timerCreated s \<and> \<not> ok)
        \<and> timer_armed t = (\<not> ok \<and> timer_armed s)
        \<and> \<not> (ok \<and> result_of (task_stopTimer E) t))"
  by (simp add: task_startTimer_def task_stopTimer_def maintenance_deleteTimer_def
      maintenance_initTimer_def timer_run_simps TASK_TIMEOUT_def Let_def)

end
