(* ===== verification/FileContent.thy ===== *)
theory FileContent
  imports Settings
begin

text \<open>
  \<open>helpers/UtilsgetFileContent.h\<close>: reading a property with recursive \<open>$\<close> expansion,
  the wildcard file search and the expansion of variables in a text.
\<close>

subsection \<open>readPropertyFromFile\<close>

definition property_line :: "string \<Rightarrow> string \<Rightarrow> bool" where
  "property_line p line \<longleftrightarrow>
     find_str line (p @ '' '') = Some 0 \<or> find_str line (p @ ''='') = Some 0"

definition property_content :: "string \<Rightarrow> string" where
  "property_content line =
     (case find_first_of line (CHR ''='') of None \<Rightarrow> line | Some i \<Rightarrow> drop (Suc i) line)"

text \<open>Only a carriage return can be there: \<open>getline\<close> has removed the newline.\<close>

definition chomp :: "string \<Rightarrow> string" where
  "chomp v = (if v \<noteq> [] \<and> (last v = CHR 0x0D \<or> last v = newline) then butlast v else v)"

text \<open>What a line is for a property: neither, its value, or a reference to another one.\<close>

datatype line_kind = L_other | L_value string | L_ref string

definition classify :: "string \<Rightarrow> string \<Rightarrow> line_kind" where
  "classify p line =
     (if line \<noteq> [] \<and> hd line = CHR ''#'' then L_other
      else if property_line p line then
        (let content = property_content line in
         if content \<noteq> [] \<and> hd content = CHR ''$'' then L_ref (tl content)
         else L_value (chomp content))
      else L_other)"

text \<open>
  The recursion of the source reopens the file for a value that starts with \<open>$\<close>. The first
  argument is the depth of nested calls that is still available; \<open>None\<close> is a recursion
  that is deeper. A reference that fails lets the loop go on with the next line.
\<close>

fun readPropertyFromFile :: "nat \<Rightarrow> string list \<Rightarrow> string \<Rightarrow> string list \<Rightarrow> (bool \<times> string) option" where
  "readPropertyFromFile n lines p [] = Some (False, [])"
| "readPropertyFromFile n lines p (line # rest) =
     (case classify p line of
        L_other \<Rightarrow> readPropertyFromFile n lines p rest
      | L_value v \<Rightarrow> Some (True, v)
      | L_ref q \<Rightarrow>
          (case n of 0 \<Rightarrow> None
           | Suc m \<Rightarrow>
               (case readPropertyFromFile m lines q lines of
                  None \<Rightarrow> None
                | Some (True, v) \<Rightarrow> Some (True, v)
                | Some (False, _) \<Rightarrow> readPropertyFromFile n lines p rest)))"

definition read_property :: "nat \<Rightarrow> string option \<Rightarrow> string \<Rightarrow> (bool \<times> string) option" where
  "read_property n file p =
     (case file of None \<Rightarrow> Some (False, [])
      | Some text \<Rightarrow> readPropertyFromFile n (getlines text) p (getlines text))"

text \<open>The names that lines of a file refer to.\<close>

definition references :: "string list \<Rightarrow> string set" where
  "references lines = (\<lambda>line. tl (property_content line)) ` set lines"

lemma classify_ref: "classify p line = L_ref q \<Longrightarrow> q = tl (property_content line)"
  by (auto simp: classify_def Let_def split: if_splits)

lemma read_other: "classify p line = L_other \<Longrightarrow>
    readPropertyFromFile n lines p (line # rest) = readPropertyFromFile n lines p rest"
  by simp

lemma read_value: "classify p line = L_value v \<Longrightarrow>
    readPropertyFromFile n lines p (line # rest) = Some (True, v)"
  by simp

lemma read_ref_0: "classify p line = L_ref q \<Longrightarrow>
    readPropertyFromFile 0 lines p (line # rest) = None"
  by simp

lemma read_ref_Suc: "classify p line = L_ref q \<Longrightarrow>
    readPropertyFromFile (Suc m) lines p (line # rest) =
      (case readPropertyFromFile m lines q lines of
         None \<Rightarrow> None
       | Some (True, v) \<Rightarrow> Some (True, v)
       | Some (False, _) \<Rightarrow> readPropertyFromFile (Suc m) lines p rest)"
  by simp

lemmas read_line = read_other read_value read_ref_0 read_ref_Suc

declare readPropertyFromFile.simps(2) [simp del]

lemma readProperty_mono:
  "readPropertyFromFile n lines p ls = Some r \<Longrightarrow> n \<le> m \<Longrightarrow> readPropertyFromFile m lines p ls = Some r"
proof (induction n arbitrary: m p ls r)
  case 0
  show ?case using 0(1)
  proof (induction ls)
    case (Cons line rest)
    then show ?case by (cases "classify p line") (simp_all add: read_line)
  qed simp
next
  case (Suc k)
  from Suc.prems(2) obtain l where m: "m = Suc l" "k \<le> l" by (cases m) auto
  show ?case using Suc.prems(1)
  proof (induction ls)
    case Nil
    then show ?case by simp
  next
    case (Cons line rest)
    show ?case
    proof (cases "classify p line")
      case (L_ref q)
      with Cons.prems obtain b v
        where sub: "readPropertyFromFile k lines q lines = Some (b, v)"
        by (auto simp: read_line split: option.splits)
      with Suc.IH m(2) have "readPropertyFromFile l lines q lines = Some (b, v)" by blast
      with sub L_ref Cons m(1) show ?thesis by (cases b) (auto simp: read_line)
    qed (use Cons in \<open>auto simp: read_line\<close>)
  qed
qed

text \<open>\<open>level\<close>: the number of nested calls a lookup needs, where it ends.\<close>

definition level :: "string list \<Rightarrow> string \<Rightarrow> nat \<Rightarrow> bool" where
  "level lines p n \<longleftrightarrow> readPropertyFromFile n lines p lines \<noteq> None
     \<and> (\<forall>m<n. readPropertyFromFile m lines p lines = None)"

lemma level_unique: "level lines p n \<Longrightarrow> level lines p m \<Longrightarrow> n = m"
  unfolding level_def by (metis linorder_neqE_nat)

lemma lookup_needs_reference:
  "readPropertyFromFile (Suc n) lines p ls \<noteq> None \<Longrightarrow> readPropertyFromFile n lines p ls = None
   \<Longrightarrow> set ls \<subseteq> set lines
   \<Longrightarrow> \<exists>q\<in>references lines. readPropertyFromFile n lines q lines \<noteq> None
         \<and> (case n of 0 \<Rightarrow> True | Suc k \<Rightarrow> readPropertyFromFile k lines q lines = None)"
proof (induction ls)
  case Nil
  then show ?case by simp
next
  case (Cons line rest)
  show ?case
  proof (cases "classify p line")
    case (L_ref q)
    then have q: "q \<in> references lines"
      using Cons.prems(3) classify_ref by (auto simp: references_def)
    from L_ref Cons.prems(1) obtain b v
      where sub: "readPropertyFromFile n lines q lines = Some (b, v)"
      by (auto simp: read_line split: option.splits)
    show ?thesis
    proof (cases "case n of 0 \<Rightarrow> True | Suc k \<Rightarrow> readPropertyFromFile k lines q lines = None")
      case True
      with q sub show ?thesis by auto
    next
      case False
      then obtain k w where "n = Suc k" "readPropertyFromFile k lines q lines = Some w"
        by (auto split: nat.splits)
      moreover with sub readProperty_mono [of k lines q lines w n] have "w = (b, v)" by simp
      ultimately show ?thesis using Cons L_ref sub by (auto simp: read_line split: bool.splits)
    qed
  qed (use Cons in \<open>auto simp: read_line\<close>)
qed

lemma level_chain: "level lines p (Suc n) \<Longrightarrow> \<exists>q\<in>references lines. level lines q n"
proof -
  assume a: "level lines p (Suc n)"
  then have "readPropertyFromFile (Suc n) lines p lines \<noteq> None"
    "readPropertyFromFile n lines p lines = None"
    by (simp_all add: level_def)
  from lookup_needs_reference [OF this] obtain q where q: "q \<in> references lines"
    "readPropertyFromFile n lines q lines \<noteq> None"
    "case n of 0 \<Rightarrow> True | Suc k \<Rightarrow> readPropertyFromFile k lines q lines = None" by auto
  have "readPropertyFromFile m lines q lines = None" if "m < n" for m
  proof (cases "readPropertyFromFile m lines q lines")
    case (Some r)
    with that q(3) readProperty_mono [OF Some, of "n - 1"] show ?thesis
      by (cases n) (auto simp: less_Suc_eq_le)
  qed
  with q show ?thesis by (auto simp: level_def)
qed

lemma level_chain_below: "level lines p n \<Longrightarrow> k < n \<Longrightarrow> \<exists>q\<in>references lines. level lines q k"
proof (induction n arbitrary: p)
  case 0
  then show ?case by simp
next
  case (Suc n)
  from level_chain [OF Suc.prems(1)] obtain q where "q \<in> references lines" "level lines q n" by auto
  with Suc show ?case by (cases "k = n") auto
qed

lemma level_bound:
  assumes "level lines p n"
  shows "n \<le> length lines"
proof -
  from level_chain_below [OF assms] obtain f
    where f: "\<And>k. k < n \<Longrightarrow> f k \<in> references lines \<and> level lines (f k) k" by metis
  have "inj_on f {..<n}" by (rule inj_onI) (metis f lessThan_iff level_unique)
  moreover have "f ` {..<n} \<subseteq> references lines" using f by auto
  ultimately have "n \<le> card (references lines)"
    using card_mono [of "references lines" "f ` {..<n}"] card_image [of f "{..<n}"]
    by (simp add: references_def)
  also have "\<dots> \<le> card (set lines)" unfolding references_def by (rule card_image_le) simp
  also have "\<dots> \<le> length lines" by (rule card_length)
  finally show ?thesis .
qed

text \<open>
  C24: The depth of the recursion. A lookup that ends at all ends within as many nested calls
  as the file has lines; what needs more never ends (in the program: the stack
  overflows), as a property that refers to itself does.
\<close>

theorem readProperty_depth:
  "((\<exists>n r. readPropertyFromFile n lines p lines = Some r) \<longleftrightarrow>
      (\<exists>r. readPropertyFromFile (length lines) lines p lines = Some r))
   \<and> readPropertyFromFile n [''A=$A''] ''A'' [''A=$A''] = None"
proof -
  have "\<exists>r. readPropertyFromFile (length lines) lines p lines = Some r"
    if "readPropertyFromFile n lines p lines = Some r" for n r
  proof -
    have "readPropertyFromFile n lines p lines \<noteq> None" using that by simp
    from exists_least_iff [THEN iffD1, OF exI [of "\<lambda>n. readPropertyFromFile n lines p lines \<noteq> None", OF this]]
    obtain m where m: "level lines p m" unfolding level_def by blast
    then obtain w where "readPropertyFromFile m lines p lines = Some w" by (auto simp: level_def)
    from readProperty_mono [OF this level_bound [OF m]] show ?thesis by blast
  qed
  moreover have "readPropertyFromFile n [''A=$A''] ''A'' [''A=$A''] = None" for n
  proof -
    have *: "classify ''A'' ''A=$A'' = L_ref ''A''"
      by (simp add: classify_def property_line_def property_content_def find_first_of_def
          find_str.simps)
    show ?thesis by (induction n) (simp_all add: read_ref_0 [OF *] read_ref_Suc [OF *])
  qed
  ultimately show ?thesis by blast
qed

text \<open>The boundary cases of one line, for the users of the reader.\<close>

lemma read_plain_line:
  assumes "p \<noteq> []" and "hd p \<noteq> CHR ''#''" and "CHR ''='' \<notin> set p" and "v = [] \<or> hd v \<noteq> CHR ''$''"
  shows "readPropertyFromFile n lines p ((p @ ''='' @ v) # rest) = Some (True, chomp v)"
proof -
  have "find_str (p @ ''='' @ v) (p @ ''='') = Some 0" by (subst find_str.simps) simp
  then have "classify p (p @ ''='' @ v) = L_value (chomp v)" using assms
    by (auto simp: classify_def property_line_def property_content_def find_first_of_append Let_def)
  then show ?thesis by (rule read_value)
qed

end
