(* ===== verification/MaintDevice.thy ===== *)
theory MaintDevice
  imports MaintTimer FileContent
begin

text \<open>
  The part of the MaintenanceManager that talks to other services: network check,
  activation status, device initialization context, RFC parameters and the processes of
  the tasks.
\<close>

subsection \<open>Polling\<close>

text \<open>
  The retry loops: probe at most \<open>n\<close> times (each after a sleep), stop at the first probe
  that succeeds.
\<close>

fun poll :: "('s, bool) state \<Rightarrow> nat \<Rightarrow> ('s, bool) state" where
  "poll m 0 = ret False"
| "poll m (Suc n) = do { b \<leftarrow> m; if b then ret True else poll m n }"

text \<open>The state in which the probe is made for the k-th time.\<close>

definition probe_state :: "('s, bool) state \<Rightarrow> nat \<Rightarrow> 's \<Rightarrow> 's" where
  "probe_state m k = (after m) ^^ k"

lemma poll_iff: "result_of (poll m n) s \<longleftrightarrow> (\<exists>k<n. result_of m (probe_state m k s))"
proof (induction n arbitrary: s)
  case 0
  then show ?case by simp
next
  case (Suc n)
  obtain b t where m: "run_state m s = (b, t)" by (cases "run_state m s")
  have shift: "probe_state m (Suc k) s = probe_state m k t" for k
    by (simp add: probe_state_def funpow_Suc_right m del: funpow.simps)
  have "(\<exists>k<Suc n. result_of m (probe_state m k s)) \<longleftrightarrow>
      result_of m s \<or> (\<exists>k<n. result_of m (probe_state m k t))"
    using shift by (auto simp: less_Suc_eq_0_disj) (auto simp: probe_state_def)
  with Suc.IH [of t] m show ?case by simp
qed

lemma preserves_poll [pres]: "preserves I m \<Longrightarrow> preserves I (poll m n)"
  by (induction n) (auto intro!: pres)

subsection \<open>Network\<close>

definition subscribeForInternetStatusEvent :: "env \<Rightarrow> string \<Rightarrow> (mm, bool) state" where
  "subscribeForInternetStatusEvent E event = do {
     l \<leftarrow> getThunderPluginHandle E ''org.rdk.Network.1'';
     ask (\<lambda>n. env_subscribe E n l event)
   }"

definition checkNetwork :: "env \<Rightarrow> (mm, bool) state" where
  "checkNetwork E = do {
     active \<leftarrow> service_active E ''org.rdk.Network'';
     if \<not> active then ret False
     else do {
       ty \<leftarrow> gets g_maintenance_type;
       subscribed \<leftarrow> gets g_subscribed_for_nwevents;
       whenM (ty = UNSOLICITED_MAINTENANCE \<and> \<not> subscribed) (do {
         ok \<leftarrow> subscribeForInternetStatusEvent E ''onInternetStatusChange'';
         whenM ok (modify (g_subscribed_for_nwevents_update (\<lambda>_. True)))
       });
       l \<leftarrow> getThunderPluginHandle E ''org.rdk.Network.1'';
       answer \<leftarrow> ask (\<lambda>n. env_connected E n l);
       ret (if fst answer > 0 then False
            else (case snd answer of Some b \<Rightarrow> b | None \<Rightarrow> False))
     }
   }"

definition isDeviceOnline :: "env \<Rightarrow> (mm, bool) state" where
  "isDeviceOnline E = do {
     network_available \<leftarrow> checkNetwork E;
     if \<not> network_available then poll (checkNetwork E) MAX_NETWORK_RETRIES
     else ret network_available
   }"

text \<open>
  The network check is five probes at most: the device counts as online exactly when one
  of the first five calls of \<open>checkNetwork\<close> reports a connection.
\<close>

theorem isDeviceOnline_probes:
  "result_of (isDeviceOnline E) s \<longleftrightarrow>
     (\<exists>k<Suc MAX_NETWORK_RETRIES. result_of (checkNetwork E) (probe_state (checkNetwork E) k s))"
proof -
  have "result_of (isDeviceOnline E) s = result_of (poll (checkNetwork E) (Suc MAX_NETWORK_RETRIES)) s"
    by (cases "run_state (checkNetwork E) s") (simp add: isDeviceOnline_def)
  then show ?thesis by (simp only: poll_iff)
qed

subsection \<open>RFC parameters and the authentication service\<close>

definition setRFC :: "env \<Rightarrow> string \<Rightarrow> string \<Rightarrow> DATA_TYPE \<Rightarrow> (mm, bool) state" where
  "setRFC E rfc v ty = do {
     status \<leftarrow> ask (\<lambda>n. env_setRFC E n rfc v ty);
     emit (RfcSet rfc v ty);
     ret (status = WDMP_SUCCESS)
   }"

definition ascii_lower :: "char \<Rightarrow> char" where
  "ascii_lower c = (if 65 \<le> (of_char c :: nat) \<and> (of_char c :: nat) \<le> 90
                    then char_of ((of_char c :: nat) + 32) else c)"

text \<open>\<open>readRFC\<close>; the parameter is \<open>None\<close> for the null pointer.\<close>

definition readRFC :: "env \<Rightarrow> string option \<Rightarrow> (mm, bool) state" where
  "readRFC E rfc = (case rfc of None \<Rightarrow> ret False
   | Some r \<Rightarrow> do {
       answer \<leftarrow> ask (\<lambda>n. env_getRFC E n r);
       ret (case answer of (status, ty, v) \<Rightarrow>
         (status = WDMP_SUCCESS \<or> status = WDMP_ERR_DEFAULT_VALUE) \<and> ty = WDMP_BOOLEAN
         \<and> map ascii_lower (take 4 v) = ''true'')
     })"

definition queryIAuthService :: "env \<Rightarrow> (mm, bool) state" where
  "queryIAuthService E = do {
     have_it \<leftarrow> gets m_authservicePlugin;
     if have_it then ret True
     else do {
       got \<leftarrow> ask (env_authservice E);
       modify (m_authservicePlugin_update (\<lambda>_. got));
       ret got
     }
   }"

definition setPartnerId :: "env \<Rightarrow> string \<Rightarrow> (mm, unit) state" where
  "setPartnerId E partnerid = do {
     ok \<leftarrow> queryIAuthService E;
     if \<not> ok then ret ()
     else do {
       rc \<leftarrow> ask (\<lambda>n. env_set_partner E n partnerid);
       emit (PartnerSet partnerid)
     }
   }"

text \<open>
  \<open>checkActivatedStatus\<close>. The local \<open>state\<close> is \<open>ACTIVATED\<close> after the loop exactly when the
  loop was left through its \<open>break\<close>, so the loop is a poll.
\<close>

definition checkActivatedStatus :: "env \<Rightarrow> (mm, string) state" where
  "checkActivatedStatus E = do {
     active \<leftarrow> service_active E ''org.rdk.AuthService'';
     ready \<leftarrow> (if active then ret True
              else poll (service_active E ''org.rdk.AuthService'') MAX_ACTIVATION_RETRIES);
     if \<not> ready then ret ''invalid''
     else do {
       ok \<leftarrow> queryIAuthService E;
       if \<not> ok then ret ''invalid''
       else do {
         answer \<leftarrow> ask (env_activation E);
         ret (case answer of Some st \<Rightarrow> st | None \<Rightarrow> ''invalid'')
       }
     }
   }"

definition activation_table :: "string \<rightharpoonup> Auth_activation_status_t" where
  "activation_table =
     [''activation-connect'' \<mapsto> ACTIVATION_CONNECT, ''activation-ready'' \<mapsto> ACTIVATION_READY,
      ''not-activated'' \<mapsto> NOT_ACTIVATED, ''activation-disconnect'' \<mapsto> ACTIVATION_DISCONNECT,
      ''activated'' \<mapsto> ACTIVATED]"

text \<open>The result and what is left in \<open>skipFirmwareCheck\<close>, which the caller has set to false.\<close>

definition getActivatedStatus :: "env \<Rightarrow> (mm, bool \<times> bool) state" where
  "getActivatedStatus E = do {
     activationStatus \<leftarrow> checkActivatedStatus E;
     let result = (case activation_table activationStatus of
        Some r \<Rightarrow> r | None \<Rightarrow> INVALID_ACTIVATION);
     ret (case result of
        ACTIVATED \<Rightarrow> (True, False)
      | ACTIVATION_DISCONNECT \<Rightarrow> (False, False)
      | NOT_ACTIVATED \<Rightarrow> (True, True)
      | ACTIVATION_READY \<Rightarrow> (True, True)
      | ACTIVATION_CONNECT \<Rightarrow> (True, True)
      | INVALID_ACTIVATION \<Rightarrow> (True, False))
   }"

subsection \<open>Device initialization context\<close>

fun set_context_keys :: "env \<Rightarrow> json_obj \<Rightarrow> string list \<Rightarrow> bool \<Rightarrow> (mm, bool) state" where
  "set_context_keys E ctx [] paramEmpty = ret paramEmpty"
| "set_context_keys E ctx (key # keys) paramEmpty =
     (let paramValue = json_string ctx key in
      if paramValue \<noteq> [] then do {
        let v = (if key = ''regionalConfigService'' then ''https://'' @ paramValue else paramValue);
        rfc_parameter \<leftarrow> gets (\<lambda>s. json_string (m_param_map s) key);
        rfc_dataType \<leftarrow> gets (\<lambda>s. case m_paramType_map s key of Some t \<Rightarrow> t | None \<Rightarrow> WDMP_STRING);
        _ \<leftarrow> setRFC E rfc_parameter v rfc_dataType;
        whenM (key = ''partnerId'') (setPartnerId E v);
        set_context_keys E ctx keys paramEmpty
      }
      else set_context_keys E ctx keys True)"

definition setDeviceInitializationContext :: "env \<Rightarrow> json_obj option \<Rightarrow> (mm, bool) state" where
  "setDeviceInitializationContext E response_data = do {
     let ctx = (case response_data of Some c \<Rightarrow> c | None \<Rightarrow> Map.empty);
     paramEmpty \<leftarrow> set_context_keys E ctx kDeviceInitContextKeyVals False;
     ret (\<not> paramEmpty)
   }"

definition subscribeToDeviceInitializationEvent :: "env \<Rightarrow> (mm, bool) state" where
  "subscribeToDeviceInitializationEvent E = do {
     l \<leftarrow> getThunderPluginHandle E ''org.rdk.SecManager.1'';
     ok \<leftarrow> ask (\<lambda>n. env_subscribe E n l ''onDeviceInitializationContextUpdate'');
     modify (g_subscribed_for_deviceContextUpdate_update (\<lambda>_. ok));
     ret ok
   }"

text \<open>
  One turn of the loop of \<open>knowWhoAmI\<close>: \<open>None\<close> is another turn after the sleep. The link is
  always created, so its null check has no other branch.
\<close>

definition knowWhoAmI_turn :: "env \<Rightarrow> string \<Rightarrow> (mm, bool option) state" where
  "knowWhoAmI_turn E activation_status = do {
     active \<leftarrow> service_active E ''org.rdk.SecManager'';
     if active then do {
       l \<leftarrow> getThunderPluginHandle E ''org.rdk.SecManager.1'';
       answer \<leftarrow> ask (\<lambda>n. env_wai E n l);
       success \<leftarrow> (if wai_success answer = Some True
         then (case wai_context answer of
             Some c \<Rightarrow> setDeviceInitializationContext E (Some c)
           | None \<Rightarrow> ret False)
         else ret False);
       subscribed \<leftarrow> gets g_subscribed_for_deviceContextUpdate;
       whenM (\<not> subscribed) (do {
         ok \<leftarrow> subscribeToDeviceInitializationEvent E;
         modify (g_subscribed_for_deviceContextUpdate_update (\<lambda>_. ok))
       });
       ret (Some success)
     }
     else do {
       modify (g_subscribed_for_deviceContextUpdate_update (\<lambda>_. False));
       ret (if activation_status \<noteq> ''activated'' then None else Some False)
     }
   }"

text \<open>The loop itself, as a bounded number of turns; \<open>None\<close> is a loop that goes on.\<close>

fun knowWhoAmI :: "nat \<Rightarrow> env \<Rightarrow> string \<Rightarrow> (mm, bool option) state" where
  "knowWhoAmI 0 E activation_status = ret None"
| "knowWhoAmI (Suc n) E activation_status = do {
     r \<leftarrow> knowWhoAmI_turn E activation_status;
     (case r of Some b \<Rightarrow> ret (Some b) | None \<Rightarrow> knowWhoAmI n E activation_status)
   }"

text \<open>\<open>isWhoAmIEnabled\<close>; \<open>None\<close> where the property file makes the reader recurse for ever.\<close>

definition isWhoAmIEnabled :: "env \<Rightarrow> bool option" where
  "isWhoAmIEnabled E =
     (case read_property (case env_device_properties E of None \<Rightarrow> 0
            | Some text \<Rightarrow> length (getlines text)) (env_device_properties E) ''WHOAMI_SUPPORT'' of
        None \<Rightarrow> None
      | Some (found, v) \<Rightarrow> Some (if \<not> found then False else v = ''true''))"

subsection \<open>The processes of the tasks\<close>

definition pid_of_long :: "int \<Rightarrow> int" where
  "pid_of_long i = sint (word_of_int i :: 32 word)"

fun find_pid :: "env \<Rightarrow> string \<Rightarrow> string list \<Rightarrow> (mm, int) state" where
  "find_pid E taskname [] = ret (- 1)"
| "find_pid E taskname (d_name # entries) =
     (if \<not> strtol_all d_name then find_pid E taskname entries
      else do {
        args \<leftarrow> ask (\<lambda>n. env_cmdline E n (''/proc/'' @ to_string (strtol d_name) @ ''/cmdline''));
        (case args of
           None \<Rightarrow> find_pid E taskname entries
         | Some xs \<Rightarrow>
             if list_ex (\<lambda>arg. find_str arg taskname \<noteq> None) xs
             then ret (pid_of_long (strtol d_name))
             else find_pid E taskname entries)
      })"

definition getTaskPID :: "env \<Rightarrow> string \<Rightarrow> (mm, int) state" where
  "getTaskPID E taskname = do {
     entries \<leftarrow> ask (env_proc E);
     find_pid E taskname entries
   }"

definition EINVAL :: int where "EINVAL = 22"

definition send_signal :: "env \<Rightarrow> int \<Rightarrow> signal \<Rightarrow> (mm, int) state" where
  "send_signal E pid sig = do {
     r \<leftarrow> ask (\<lambda>n. env_kill E n pid sig);
     emit (Signalled pid sig);
     ret r
   }"

definition abortTask :: "env \<Rightarrow> string \<Rightarrow> signal \<Rightarrow> (mm, int) state" where
  "abortTask E taskname sig_to_send = do {
     pid_num \<leftarrow> getTaskPID E taskname;
     if pid_num \<noteq> - 1 then
       (if env_rfc_manager E \<and> find_str taskname ''rfcMgr'' \<noteq> None
        then send_signal E pid_num SIGUSR1
        else if find_str taskname ''rdkvfwupgrader'' \<noteq> None
        then send_signal E pid_num SIGUSR1
        else send_signal E pid_num sig_to_send)
     else ret EINVAL
   }"

subsection \<open>What these operations leave alone\<close>

text \<open>
  The members that none of the operations of this theory writes, as the state with the
  written ones blanked, and the notifications sent so far.
\<close>

definition core :: "mm \<Rightarrow> mm" where
  "core s = s\<lparr>g_subscribed_for_nwevents := False, g_subscribed_for_deviceContextUpdate := False,
     m_authservicePlugin := False, tick := 0, trace := []\<rparr>"

fun notified_of :: "effect list \<Rightarrow> Maint_notify_status_t list" where
  "notified_of [] = []"
| "notified_of (e # es) = (case e of Notified st \<Rightarrow> st # notified_of es | _ \<Rightarrow> notified_of es)"

definition frame :: "mm \<Rightarrow> mm \<times> Maint_notify_status_t list" where
  "frame s = (core s, notified_of (trace s))"

definition quiet :: "(mm, 'a) state \<Rightarrow> bool" where
  "quiet m \<longleftrightarrow> (\<forall>c. preserves (\<lambda>s. frame s = c) m)"

lemma quietD: "quiet m \<Longrightarrow> frame (after m s) = frame s"
  unfolding quiet_def preserves_def by blast

lemma quiet_return [pres]: "quiet (ret x)"
  by (simp add: quiet_def preserves_return)

lemma quiet_gets [pres]: "quiet (gets f)"
  by (simp add: quiet_def preserves_gets)

lemma quiet_bind [pres]: "quiet m \<Longrightarrow> (\<And>x. quiet (f x)) \<Longrightarrow> quiet (State_Monad.bind m f)"
  unfolding quiet_def by (blast intro: preserves_bind)

lemma quiet_whenM [pres]: "(b \<Longrightarrow> quiet m) \<Longrightarrow> quiet (whenM b m)"
  by (auto simp: whenM_def quiet_return)

lemma quiet_if [pres]: "(b \<Longrightarrow> quiet m) \<Longrightarrow> (\<not> b \<Longrightarrow> quiet n) \<Longrightarrow> quiet (if b then m else n)"
  by simp

lemma quiet_case_option [pres]:
  "quiet m \<Longrightarrow> (\<And>y. quiet (n y)) \<Longrightarrow> quiet (case x of None \<Rightarrow> m | Some y \<Rightarrow> n y)"
  by (cases x) auto

lemma quiet_let [pres]: "quiet (f x) \<Longrightarrow> quiet (let y = x in f y)"
  by simp

lemma quiet_ask [pres]: "quiet (ask f)"
  by (simp add: quiet_def preserves_def frame_def core_def)

lemma quiet_emit [pres]: "(\<And>st. e \<noteq> Notified st) \<Longrightarrow> quiet (emit e)"
  by (cases e) (auto simp: quiet_def preserves_def frame_def core_def)

lemma quiet_modify [pres]:
  "quiet (modify (g_subscribed_for_nwevents_update f))"
  "quiet (modify (g_subscribed_for_deviceContextUpdate_update f))"
  "quiet (modify (m_authservicePlugin_update f))"
  by (simp_all add: quiet_def preserves_def frame_def core_def)

lemma quiet_poll [pres]: "quiet m \<Longrightarrow> quiet (poll m n)"
  by (induction n) (auto intro!: pres)

lemma quiet_checkNetwork [pres]: "quiet (checkNetwork E)"
  unfolding checkNetwork_def service_active_def getServiceState_def getThunderPluginHandle_def
    subscribeForInternetStatusEvent_def by (intro pres)

lemma quiet_isDeviceOnline [pres]: "quiet (isDeviceOnline E)"
  unfolding isDeviceOnline_def by (intro pres)

lemma quiet_setRFC [pres]: "quiet (setRFC E rfc v ty)"
  unfolding setRFC_def by (intro pres) simp

lemma quiet_queryIAuthService [pres]: "quiet (queryIAuthService E)"
  unfolding queryIAuthService_def by (intro pres)

lemma quiet_setPartnerId [pres]: "quiet (setPartnerId E p)"
  unfolding setPartnerId_def by (intro pres) simp

lemma quiet_checkActivatedStatus [pres]: "quiet (checkActivatedStatus E)"
  unfolding checkActivatedStatus_def service_active_def getServiceState_def by (intro pres)

lemma quiet_getActivatedStatus [pres]: "quiet (getActivatedStatus E)"
  unfolding getActivatedStatus_def by (intro pres)

lemma quiet_set_context_keys [pres]: "quiet (set_context_keys E ctx ks b)"
proof (induction ks arbitrary: b)
  case Nil
  show ?case by (simp add: quiet_return)
next
  case (Cons k ks)
  show ?case unfolding set_context_keys.simps by (intro pres Cons)
qed

lemma quiet_setDeviceInitializationContext [pres]: "quiet (setDeviceInitializationContext E r)"
  unfolding setDeviceInitializationContext_def by (intro pres)

lemma quiet_subscribeToDeviceInitializationEvent [pres]:
  "quiet (subscribeToDeviceInitializationEvent E)"
  unfolding subscribeToDeviceInitializationEvent_def getThunderPluginHandle_def by (intro pres)

lemma quiet_knowWhoAmI_turn [pres]: "quiet (knowWhoAmI_turn E a)"
  unfolding knowWhoAmI_turn_def service_active_def getServiceState_def getThunderPluginHandle_def
  by (intro pres)

lemma quiet_find_pid [pres]: "quiet (find_pid E t ds)"
proof (induction ds)
  case Nil
  show ?case by (simp add: quiet_return)
next
  case (Cons d ds)
  show ?case unfolding find_pid.simps by (intro pres Cons)
qed

lemma quiet_abortTask [pres]: "quiet (abortTask E t sig)"
  unfolding abortTask_def getTaskPID_def send_signal_def by (intro pres) simp_all

subsection \<open>Functional behaviour\<close>

text \<open>
  C23: The loop that asks for the device identity ends after its n-th turn or earlier exactly
  when the device is already activated or the security manager is active at one of these
  turns; while neither holds, it goes on for ever.
\<close>

theorem knowWhoAmI_ends:
  "result_of (knowWhoAmI n E activation_status) s = None \<longleftrightarrow>
     n = 0 \<or> activation_status \<noteq> ''activated''
       \<and> \<not> (\<exists>k<n. env_service_state E (tick s + k) ''org.rdk.SecManager'' = Some PLUGIN_ACTIVATED)"
proof (induction n arbitrary: s)
  case 0
  then show ?case by simp
next
  case (Suc n)
  let ?active = "env_service_state E (tick s) ''org.rdk.SecManager'' = Some PLUGIN_ACTIVATED"
  have active: "\<exists>b. result_of (knowWhoAmI_turn E activation_status) s = Some b" if ?active
    using that by (simp add: knowWhoAmI_turn_def service_active_def getServiceState_def split_beta)
  have idle: "run_state (knowWhoAmI_turn E activation_status) s =
      ((if activation_status \<noteq> ''activated'' then None else Some False),
       s\<lparr>tick := Suc (tick s), g_subscribed_for_deviceContextUpdate := False\<rparr>)" if "\<not> ?active"
    using that by (simp add: knowWhoAmI_turn_def service_active_def getServiceState_def)
  show ?case
  proof (cases ?active)
    case True
    with active obtain b where "result_of (knowWhoAmI_turn E activation_status) s = Some b" by blast
    with True show ?thesis by (auto simp: split_beta)
  next
    case False
    with Suc.IH [of "s\<lparr>tick := Suc (tick s), g_subscribed_for_deviceContextUpdate := False\<rparr>"] idle
      ex_less_Suc_shift [where t = "tick s" and n = n and
        P = "\<lambda>i. env_service_state E i ''org.rdk.SecManager'' = Some PLUGIN_ACTIVATED"]
    show ?thesis by auto
  qed
qed

text \<open>
  What the activation status decides. Maintenance goes on to the network check unless the
  status is \<open>activation-disconnect\<close> (so also for a status the code does not know, and
  for \<open>invalid\<close> when the service cannot be reached), and the firmware task is skipped
  for exactly the three statuses of a device that is not yet activated.
\<close>

theorem getActivatedStatus_table:
  "run_state (getActivatedStatus E) s =
     (let (a, t) = run_state (checkActivatedStatus E) s
      in ((a \<noteq> ''activation-disconnect'',
           a \<in> {''activation-connect'', ''activation-ready'', ''not-activated''}), t))"
  by (auto simp: getActivatedStatus_def activation_table_def Let_def split_beta)

lemma set_context_keys_result:
  "result_of (set_context_keys E ctx ks b) s \<longleftrightarrow> b \<or> list_ex (\<lambda>k. json_string ctx k = []) ks"
  by (induction ks arbitrary: b s) (auto simp: Let_def split_beta)

text \<open>
  The device context counts as set exactly when none of its three values is empty; the
  answers of \<open>setRFCParameter\<close> and of the authentication service do not matter.
\<close>

theorem device_context_result:
  "result_of (setDeviceInitializationContext E (Some ctx)) s \<longleftrightarrow>
     json_string ctx ''partnerId'' \<noteq> [] \<and> json_string ctx ''osClass'' \<noteq> []
     \<and> json_string ctx ''regionalConfigService'' \<noteq> []"
  by (simp add: setDeviceInitializationContext_def split_beta set_context_keys_result
      kDeviceInitContextKeyVals_def del: set_context_keys.simps)

text \<open>
  Aborting a task sends at most one signal, to the process found for its name:
  \<open>SIGUSR1\<close> to the upgrader (and to the RFC manager in the build that has it), the
  requested signal to any other task; where no process is found nothing is sent and the
  result is \<open>EINVAL\<close>.
\<close>

theorem abortTask_signals:
  "run_state (abortTask E taskname sig) s =
     (let (pid, t) = run_state (getTaskPID E taskname) s;
          sg = (if (env_rfc_manager E \<and> has_str taskname ''rfcMgr'')
                  \<or> has_str taskname ''rdkvfwupgrader'' then SIGUSR1 else sig)
      in if pid = - 1 then (EINVAL, t)
         else (env_kill E (tick t) pid sg,
               t\<lparr>tick := Suc (tick t), trace := Signalled pid sg # trace t\<rparr>))"
  by (auto simp: abortTask_def send_signal_def split_beta Let_def has_str_def)

end
