(* ===== verification/MaintThread.thy ===== *)
theory MaintThread
  imports MaintDevice
begin

text \<open>
  \<open>task_execution_thread\<close>, cut into the segments between which other threads matter: each
  definition is the code from one value of \<open>thread_pc\<close> to the next. A segment runs
  without interruption in the model; \<open>thread_step\<close> says when it can run (its locks and
  the condition it waits for).
\<close>

definition goto :: "thread_pc \<Rightarrow> (mm, unit) state" where
  "goto p = modify (m_thread_update (\<lambda>_. p))"

lemma run_goto [simp]: "run_state (goto p) s = ((), s\<lparr>m_thread := p\<rparr>)"
  by (simp add: goto_def)

subsection \<open>The segments\<close>

definition thread_begin :: "bool \<Rightarrow> (mm, unit) state" where
  "thread_begin delayMaintenanceStarted = do {
     whenM (\<not> delayMaintenanceStarted) (onMaintenanceStatusChange MAINTENANCE_STARTED);
     modify (tasks_update (\<lambda>_. []));
     goto (T_Checks delayMaintenanceStarted)
   }"

definition thread_checks :: "env \<Rightarrow> bool \<Rightarrow> (mm, unit) state" where
  "thread_checks E delayMaintenanceStarted = do {
     whoami \<leftarrow> gets g_whoami_support_enabled;
     suppress \<leftarrow> gets g_suppress_maintenance_enabled;
     checked \<leftarrow> (if \<not> whoami \<and> suppress then do {
         act \<leftarrow> getActivatedStatus E;
         internet \<leftarrow> (if fst act then isDeviceOnline E else ret False);
         ret (internet, snd act)
       }
       else do { internet \<leftarrow> isDeviceOnline E; ret (internet, False) });
     let internetConnectStatus = fst checked;
     let skipFirmwareCheck = snd checked;
     ty \<leftarrow> gets g_maintenance_type;
     if whoami \<and> ty = UNSOLICITED_MAINTENANCE then do {
       activation_status \<leftarrow> checkActivatedStatus E;
       goto (T_WhoAmI delayMaintenanceStarted skipFirmwareCheck internetConnectStatus activation_status)
     }
     else if \<not> internetConnectStatus then goto T_Exit
     else goto (T_Proceed delayMaintenanceStarted skipFirmwareCheck)
   }"

definition thread_whoami :: "env \<Rightarrow> bool \<Rightarrow> bool \<Rightarrow> bool \<Rightarrow> string \<Rightarrow> (mm, unit) state" where
  "thread_whoami E delay skip internetConnectStatus activation_status = do {
     r \<leftarrow> knowWhoAmI_turn E activation_status;
     (case r of
        None \<Rightarrow> ret ()
      | Some whoAmIStatus \<Rightarrow>
          if \<not> whoAmIStatus \<and> activation_status \<noteq> ''activated'' then do {
            modify (g_listen_to_deviceContextUpdate_update (\<lambda>_. True));
            goto (T_WaitContext delay skip)
          }
          else if \<not> internetConnectStatus \<and> activation_status = ''activated'' then goto T_Exit
          else goto (T_Proceed delay skip))
   }"

text \<open>The test of the predicate of \<open>task_thread.wait(wailck, ...)\<close>.\<close>

definition wait_context :: "bool \<Rightarrow> bool \<Rightarrow> (mm, unit) state" where
  "wait_context d sk = do {
     listen \<leftarrow> gets g_listen_to_deviceContextUpdate;
     if listen then goto (T_BlockContext d sk) else goto (T_Proceed d sk)
   }"

definition thread_exit :: "(mm, unit) state" where
  "thread_exit = do {
     onMaintenanceStatusChange MAINTENANCE_ERROR;
     ty \<leftarrow> gets g_maintenance_type;
     complete \<leftarrow> gets g_unsolicited_complete;
     whenM (ty = UNSOLICITED_MAINTENANCE \<and> \<not> complete)
       (modify (\<lambda>s. s\<lparr>g_unsolicited_complete := True, g_listen_to_nwevents := True\<rparr>));
     goto T_Done
   }"

definition thread_proceed :: "bool \<Rightarrow> bool \<Rightarrow> (mm, unit) state" where
  "thread_proceed delay skipFirmwareCheck = do {
     whenM delay (onMaintenanceStatusChange MAINTENANCE_STARTED);
     whoami \<leftarrow> gets g_whoami_support_enabled;
     suppress \<leftarrow> gets g_suppress_maintenance_enabled;
     (if \<not> whoami \<and> suppress \<and> skipFirmwareCheck then do {
       SET_TASK_STATUS SWUPDATE_SUCCESS;
       SET_TASK_STATUS SWUPDATE_COMPLETE;
       modify (tasks_update (\<lambda>ts. ts @ [task_names_foreground TASK_RFC,
         task_names_foreground TASK_LOGUPLOAD]))
     }
     else modify (tasks_update (\<lambda>ts. ts @ [task_names_foreground TASK_RFC,
       task_names_foreground TASK_SWUPDATE, task_names_foreground TASK_LOGUPLOAD])));
     goto (T_Loop 0 TASK_RETRY_COUNT False)
   }"

text \<open>
  One turn of the task loop: start the timer on the first attempt, mark the task, run its
  script in the background. The second test of \<open>m_abort_flag\<close> in the body follows the
  test in the loop head directly and adds no branch.
\<close>

definition run_task :: "env \<Rightarrow> string \<Rightarrow> nat \<Rightarrow> bool \<Rightarrow> (mm, bool \<times> int) state" where
  "run_task E task retry_count timerStarted = do {
     modify (currentTask_update (\<lambda>_. task));
     isTaskTimerStarted \<leftarrow> (if retry_count = TASK_RETRY_COUNT then task_startTimer E else ret timerStarted);
     task_status \<leftarrow> (if isTaskTimerStarted then do {
         set_task_map task True;
         emit (Ran (task @ '' &''));
         ask (\<lambda>n. env_system E n (task @ '' &''))
       }
       else ret (- 1));
     ret (isTaskTimerStarted, task_status)
   }"

definition task_failed :: "env \<Rightarrow> string \<Rightarrow> (mm, unit) state" where
  "task_failed E task = do {
     (case task_status_map task of None \<Rightarrow> ret () | Some complete_status \<Rightarrow> SET_TASK_STATUS complete_status);
     _ \<leftarrow> task_stopTimer E;
     ret ()
   }"

definition thread_finish :: "env \<Rightarrow> (mm, unit) state" where
  "thread_finish E = do {
     abort \<leftarrow> gets m_abort_flag;
     whenM abort (do {
       modify (m_abort_flag_update (\<lambda>_. False));
       _ \<leftarrow> task_stopTimer E;
       ret ()
     });
     goto T_Done
   }"

definition thread_loop :: "env \<Rightarrow> nat \<Rightarrow> nat \<Rightarrow> bool \<Rightarrow> (mm, unit) state" where
  "thread_loop E i retry_count timerStarted = do {
     ts \<leftarrow> gets tasks;
     abort \<leftarrow> gets m_abort_flag;
     if i < length ts \<and> \<not> abort then do {
       let task = ts ! i;
       r \<leftarrow> run_task E task retry_count timerStarted;
       if snd r \<noteq> 0 then do {
         set_task_map task False;
         if retry_count > 0 \<and> fst r then goto (T_Loop i (retry_count - 1) (fst r))
         else do {
           task_failed E task;
           goto (T_Loop (Suc i) TASK_RETRY_COUNT (fst r))
         }
       }
       else goto (T_Invoked i)
     }
     else thread_finish E
   }"

definition thread_after_wait :: "env \<Rightarrow> nat \<Rightarrow> (mm, unit) state" where
  "thread_after_wait E i = do {
     _ \<leftarrow> task_stopTimer E;
     goto (T_Loop (Suc i) TASK_RETRY_COUNT True)
   }"

subsection \<open>The step of the thread\<close>

definition delays_started :: "mm \<Rightarrow> bool" where
  "delays_started s \<longleftrightarrow>
     g_maintenance_type s = UNSOLICITED_MAINTENANCE \<and> g_whoami_support_enabled s"

definition thread_step :: "env \<Rightarrow> mm \<Rightarrow> mm option" where
  "thread_step E s =
     (case m_thread s of
        T_None \<Rightarrow> None
      | T_Begin \<Rightarrow>
          if \<not> delays_started s \<and> \<not> status_mutex_free s then None
          else Some (after (thread_begin (delays_started s)) s)
      | T_Checks d \<Rightarrow> Some (after (thread_checks E d) s)
      | T_WhoAmI d sk net act \<Rightarrow> Some (after (thread_whoami E d sk net act) s)
      | T_WaitContext d sk \<Rightarrow> Some (after (wait_context d sk) s)
      | T_BlockContext d sk \<Rightarrow> Some (after (goto (T_SleepContext d sk)) s)
      | T_SleepContext d sk \<Rightarrow> None
      | T_Exit \<Rightarrow> if \<not> status_mutex_free s then None else Some (after thread_exit s)
      | T_Proceed d sk \<Rightarrow>
          if d \<and> \<not> status_mutex_free s then None else Some (after (thread_proceed d sk) s)
      | T_Loop i rc tm \<Rightarrow> Some (after (thread_loop E i rc tm) s)
      | T_Invoked i \<Rightarrow> Some (after (goto (T_Wait i False)) s)
      | T_Wait i woken \<Rightarrow> if \<not> woken then None else Some (after (thread_after_wait E i) s)
      | T_Done \<Rightarrow> None)"

text \<open>
  A condition variable may also wake its waiter for no reason; the waits for a task have no
  predicate that would send it back, the wait for the device context tests its predicate again.
\<close>

definition spurious_wake :: "mm \<Rightarrow> mm option" where
  "spurious_wake s = (case m_thread s of
     T_Wait i False \<Rightarrow> Some (s\<lparr>m_thread := T_Wait i True\<rparr>)
   | T_SleepContext d sk \<Rightarrow> Some (s\<lparr>m_thread := T_WaitContext d sk\<rparr>)
   | _ \<Rightarrow> None)"

end
