(* ===== verification/MaintEvents.thy ===== *)
theory MaintEvents
  imports MaintThread
begin

text \<open>
  The handlers that other threads and the kernel call: the timer signal, the internet and
  device-context events, and the IARM event of a task. A handler that joins the
  execution thread is in two parts: up to \<open>m_thread.join()\<close>, with \<open>m_statusMutex\<close> taken,
  and what follows (the continuations of \<open>MaintTypes\<close>).
\<close>

subsection \<open>The timer signal\<close>

text \<open>The value of \<open>m_task_map[k]\<close>: the operator creates a missing entry.\<close>

definition task_flag :: "string \<Rightarrow> (mm, bool) state" where
  "task_flag k = do {
     modify (\<lambda>s. if m_task_map s k = None then s\<lparr>m_task_map := (m_task_map s)(k \<mapsto> False)\<rparr> else s);
     gets (\<lambda>s. m_task_map s k = Some True)
   }"

definition timer_handler :: "signal \<Rightarrow> (mm, unit) state" where
  "timer_handler signo =
     (if signo = SIGALRM then do {
        cur \<leftarrow> gets currentTask;
        (case find (\<lambda>t. has_str cur (task_names_foreground t)) all_tasks of
           None \<Rightarrow> ret ()
         | Some t \<Rightarrow> do {
             alive \<leftarrow> gets instance_alive;
             if \<not> alive then modify (crashed_update (\<lambda>_. True))
             else do {
               running \<leftarrow> task_flag (task_names_foreground t);
               if \<not> running then ret ()
               else do {
                 set_task_map (task_names_foreground t) False;
                 SET_TASK_STATUS (task_complete_status t);
                 notify_one
               }
             }
           })
      }
      else ret ())"

subsection \<open>Internet and device context\<close>

text \<open>\<open>snprintf\<close> into the buffer of 256 bytes keeps 255 characters.\<close>

definition startCriticalTasks :: "env \<Rightarrow> (mm, unit) state" where
  "startCriticalTasks E = do {
     let command = take 255 (TASK_SCRIPT @ '' '' @ RFC_TASK @ '' &'');
     emit (Ran command);
     rfc_task_status \<leftarrow> ask (\<lambda>n. env_system E n command);
     let command = take 255 (IMAGE_CHECK_SCRIPT @ '' &'');
     emit (Ran command);
     xconf_imagecheck_status \<leftarrow> ask (\<lambda>n. env_system E n command);
     ret ()
   }"

text \<open>The parameters are the two labels, each with its value where it is present.\<close>

definition internetStatusChangeEventHandler ::
    "env \<Rightarrow> string option \<Rightarrow> int option \<Rightarrow> (mm, unit) state" where
  "internetStatusChangeEventHandler E status st =
     (case (status, st) of
        (Some value, Some state) \<Rightarrow> do {
          listen \<leftarrow> gets g_listen_to_nwevents;
          whenM (listen \<and> state = INTERNET_CONNECTED_STATE) (do {
            startCriticalTasks E;
            modify (g_listen_to_nwevents_update (\<lambda>_. False))
          })
        }
      | _ \<Rightarrow> ret ())"

definition deviceInitializationContextEventHandler :: "env \<Rightarrow> json_obj option \<Rightarrow> (mm, unit) state" where
  "deviceInitializationContextEventHandler E context = do {
     listen \<leftarrow> gets g_listen_to_deviceContextUpdate;
     ty \<leftarrow> gets g_maintenance_type;
     if listen \<and> ty = UNSOLICITED_MAINTENANCE then
       (case context of
          None \<Rightarrow> ret ()
        | Some c \<Rightarrow> do {
            contextSet \<leftarrow> setDeviceInitializationContext E (Some c);
            if contextSet then do {
              modify (g_listen_to_deviceContextUpdate_update (\<lambda>_. False));
              notify_one
            }
            else ret ()
          })
     else ret ()
   }"

subsection \<open>The IARM event of a task\<close>

text \<open>
  The three kinds of branch of the switch that a task has. A completion or an error is
  ignored when the task's entry is there and not true.
\<close>

definition ignores_event :: "(string \<rightharpoonup> bool) \<Rightarrow> TaskIndices \<Rightarrow> bool" where
  "ignores_event tm t \<longleftrightarrow>
     tm (task_names_foreground t) \<noteq> None \<and> tm (task_names_foreground t) \<noteq> Some True"

definition task_complete_event :: "TaskIndices \<Rightarrow> (mm, unit) state" where
  "task_complete_event t = do {
     tm \<leftarrow> gets m_task_map;
     if ignores_event tm t then ret ()
     else do {
       SET_TASK_STATUS (task_success_status t);
       SET_TASK_STATUS (task_complete_status t);
       notify_one;
       set_task_map (task_names_foreground t) False
     }
   }"

definition task_error_event :: "TaskIndices \<Rightarrow> (mm, unit) state" where
  "task_error_event t = do {
     tm \<leftarrow> gets m_task_map;
     if ignores_event tm t then ret ()
     else do {
       SET_TASK_STATUS (task_complete_status t);
       notify_one;
       set_task_map (task_names_foreground t) True
     }
   }"

definition task_inprogress_event :: "TaskIndices \<Rightarrow> (mm, unit) state" where
  "task_inprogress_event t = set_task_map (task_names_foreground t) True"

definition module_event :: "IARM_Maint_module_status_t \<Rightarrow> (mm, unit) state" where
  "module_event module_status = (case module_status of
     MAINT_RFC_COMPLETE \<Rightarrow> task_complete_event TASK_RFC
   | MAINT_FWDOWNLOAD_COMPLETE \<Rightarrow> task_complete_event TASK_SWUPDATE
   | MAINT_LOGUPLOAD_COMPLETE \<Rightarrow> task_complete_event TASK_LOGUPLOAD
   | MAINT_REBOOT_REQUIRED \<Rightarrow> do {
       SET_TASK_STATUS REBOOT_REQUIRED;
       modify (g_is_reboot_pending_update (\<lambda>_. ''true''))
     }
   | MAINT_CRITICAL_UPDATE \<Rightarrow> modify (g_is_critical_maintenance_update (\<lambda>_. ''true''))
   | MAINT_FWDOWNLOAD_ABORTED \<Rightarrow> do {
       SET_TASK_STATUS TASK_SKIPPED;
       SET_TASK_STATUS SWUPDATE_COMPLETE;
       notify_one;
       set_task_map (task_names_foreground TASK_SWUPDATE) False
     }
   | MAINT_RFC_ERROR \<Rightarrow> task_error_event TASK_RFC
   | MAINT_LOGUPLOAD_ERROR \<Rightarrow> task_error_event TASK_LOGUPLOAD
   | MAINT_FWDOWNLOAD_ERROR \<Rightarrow> task_error_event TASK_SWUPDATE
   | MAINT_RFC_INPROGRESS \<Rightarrow> task_inprogress_event TASK_RFC
   | MAINT_FWDOWNLOAD_INPROGRESS \<Rightarrow> task_inprogress_event TASK_SWUPDATE
   | MAINT_LOGUPLOAD_INPROGRESS \<Rightarrow> task_inprogress_event TASK_LOGUPLOAD
   | MAINT_other n \<Rightarrow> ret ())"

text \<open>
  After the switch: the status to report once every task is complete, with the time of a
  success written to the record file. (\<open>mktime\<close> undoes \<open>localtime\<close>.)
\<close>

definition cycle_result :: "env \<Rightarrow> (mm, Maint_notify_status_t option) state" where
  "cycle_result E = do {
     bits \<leftarrow> gets g_task_status;
     if mask_set bits TASKS_COMPLETED then
       (if mask_set bits ALL_TASKS_SUCCESS then do {
          epoch_time \<leftarrow> ask (env_time E);
          setting_remove E ''LastSuccessfulCompletionTime'';
          setting_set E ''LastSuccessfulCompletionTime'' (to_string epoch_time);
          ret (Some MAINTENANCE_COMPLETE)
        }
        else if mask_set bits MAINTENANCE_TASK_SKIPPED then ret (Some MAINTENANCE_INCOMPLETE)
        else ret (Some MAINTENANCE_ERROR))
     else ret None
   }"

text \<open>\<open>iarmEventHandler\<close> up to the join.\<close>

definition iarm_enter ::
    "env \<Rightarrow> string \<Rightarrow> nat \<Rightarrow> IARM_Maint_module_status_t \<Rightarrow> (mm, unit) state" where
  "iarm_enter E owner eventId module_status = do {
     abort \<leftarrow> gets m_abort_flag;
     if abort then ret ()
     else if owner \<noteq> env_iarm_name E then ret ()
     else do {
       status \<leftarrow> gets m_notify_status;
       if eventId = env_event_update E \<and> status = MAINTENANCE_STARTED then do {
         module_event module_status;
         r \<leftarrow> cycle_result E;
         (case r of
            None \<Rightarrow> ret ()
          | Some notify_status \<Rightarrow> modify (status_lock_update (\<lambda>_. C_Iarm notify_status)))
       }
       else ret ()
     }
   }"

definition mark_unsolicited_complete :: "(mm, unit) state" where
  "mark_unsolicited_complete = do {
     ty \<leftarrow> gets g_maintenance_type;
     complete \<leftarrow> gets g_unsolicited_complete;
     whenM (ty = UNSOLICITED_MAINTENANCE \<and> \<not> complete)
       (modify (g_unsolicited_complete_update (\<lambda>_. True)))
   }"

lemma run_mark_unsolicited_complete [simp]:
  "run_state mark_unsolicited_complete s = ((), s\<lparr>g_unsolicited_complete :=
     (g_unsolicited_complete s \<or> g_maintenance_type s = UNSOLICITED_MAINTENANCE)\<rparr>)"
  by (auto simp: mark_unsolicited_complete_def)

text \<open>After the join.\<close>

definition iarm_leave :: "Maint_notify_status_t \<Rightarrow> (mm, unit) state" where
  "iarm_leave notify_status = do {
     mark_unsolicited_complete;
     onMaintenanceStatusChange notify_status
   }"

end
