(* ===== verification/MaintApi.thy ===== *)
theory MaintApi
  imports MaintEvents
begin

text \<open>
  The JSON-RPC methods of the MaintenanceManager and its life cycle as a plugin:
  \<open>Initialize\<close>, \<open>maintenanceManagerOnBootup\<close>, \<open>Deinitialize\<close>, the destructor.
\<close>

subsection \<open>Starting and stopping\<close>

text \<open>
  \<open>m_thread = std::thread(...)\<close>: where the system creates no thread an exception is
  thrown; an assignment over a joinable thread ends the program.
\<close>

definition spawn :: "env \<Rightarrow> (mm, bool) state" where
  "spawn E = do {
     ok \<leftarrow> ask (env_thread E);
     whenM ok (modify (\<lambda>s. s\<lparr>crashed := (crashed s \<or> m_thread s \<noteq> T_None), m_thread := T_Begin\<rparr>));
     ret ok
   }"

definition may_start :: "mm \<Rightarrow> bool" where
  "may_start s \<longleftrightarrow> m_notify_status s \<noteq> MAINTENANCE_STARTED \<and> g_unsolicited_complete s"

definition start_enter :: "(mm, unit) state" where
  "start_enter = do {
     can \<leftarrow> gets may_start;
     if can then do {
       prev_critical_maintenance \<leftarrow> gets g_is_critical_maintenance;
       modify (\<lambda>s. s\<lparr>g_task_status := 0, g_maintenance_type := SOLICITED_MAINTENANCE,
         m_abort_flag := False, g_is_reboot_pending := ''true'',
         g_is_critical_maintenance := ''false'', status_lock := C_Start prev_critical_maintenance\<rparr>)
     }
     else emit (Replied ''startMaintenance'' False)
   }"

definition start_leave :: "env \<Rightarrow> string \<Rightarrow> (mm, unit) state" where
  "start_leave E prev_critical_maintenance = do {
     ok \<leftarrow> spawn E;
     whenM (\<not> ok) (modify (g_is_critical_maintenance_update (\<lambda>_. prev_critical_maintenance)));
     emit (Replied ''startMaintenance'' ok)
   }"

text \<open>
  \<open>stopMaintenanceTasks\<close>: the flags of the three tasks are read first; the first that is
  set is aborted and the loop is left, whatever comes of it.
\<close>

fun abort_first :: "env \<Rightarrow> (TaskIndices \<Rightarrow> bool) \<Rightarrow> TaskIndices list \<Rightarrow> (mm, unit) state" where
  "abort_first E task_status [] = ret ()"
| "abort_first E task_status (t # ts) =
     (if task_status t then do {
        k_ret \<leftarrow> abortTask E (task_names (env_rfc_manager E) t) SIGABRT;
        whenM (k_ret = 0) (set_task_map (task_names_foreground t) False)
      }
      else abort_first E task_status ts)"

definition stop_enter :: "env \<Rightarrow> bool \<Rightarrow> (mm, unit) state" where
  "stop_enter E deinitializing = do {
     modify (m_abort_flag_update (\<lambda>_. True));
     tm \<leftarrow> gets m_task_map;
     abort_first E (\<lambda>t. tm (task_names_foreground t) = Some True) all_tasks;
     _ \<leftarrow> task_stopTimer E;
     notify_one;
     modify (status_lock_update (\<lambda>_. C_Stop deinitializing))
   }"

definition stop_leave :: "(mm, unit) state" where
  "stop_leave = do {
     mark_unsolicited_complete;
     onMaintenanceStatusChange MAINTENANCE_ERROR
   }"

subsection \<open>Life cycle\<close>

definition maintenanceManagerOnBootup :: "env \<Rightarrow> (mm, unit) state" where
  "maintenanceManagerOnBootup E = do {
     modify (\<lambda>s. s\<lparr>g_currentMode := FOREGROUND_MODE, g_triggerMode := [],
       m_notify_status := MAINTENANCE_IDLE, g_epoch_time := [],
       g_maintenance_type := UNSOLICITED_MAINTENANCE\<rparr>);
     OptOutmode \<leftarrow> gets (\<lambda>s. getValue (m_setting s) ''softwareoptout'');
     whenM (\<not> checkValidOptOutModes OptOutmode) (do {
       setting_remove E ''softwareoptout'';
       setting_set E ''softwareoptout'' ''NONE''
     });
     modify (\<lambda>s. s\<lparr>g_is_critical_maintenance := ''false'', g_is_reboot_pending := ''false'',
       g_lastSuccessful_maint_time := [], g_task_status := 0, m_abort_flag := False,
       g_unsolicited_complete := False\<rparr>);
     status \<leftarrow> gets m_notify_status;
     onMaintenanceStatusChange status;
     ok \<leftarrow> spawn E;
     whenM (\<not> ok) (do {
       modify (g_unsolicited_complete_update (\<lambda>_. True));
       onMaintenanceStatusChange MAINTENANCE_ERROR
     })
   }"

definition InitializeIARM :: "env \<Rightarrow> (mm, unit) state" where
  "InitializeIARM E = do {
     connected \<leftarrow> ask (env_iarm_init E);
     whenM connected (maintenanceManagerOnBootup E)
   }"

definition Initialize :: "env \<Rightarrow> (mm, string) state" where
  "Initialize E = do {
     modify (m_service_update (\<lambda>_. True));
     (case isWhoAmIEnabled E of
        None \<Rightarrow> do { modify (crashed_update (\<lambda>_. True)); ret [] }
      | Some enabled \<Rightarrow> do {
          modify (g_whoami_support_enabled_update (\<lambda>_. enabled));
          whenM enabled (do { _ \<leftarrow> subscribeToDeviceInitializationEvent E; ret () });
          InitializeIARM E;
          registered \<leftarrow> ask (env_signal E);
          ret (if \<not> registered then ''Failed to register signal handler'' else [])
        })
   }"

definition DeinitializeIARM :: "env \<Rightarrow> (mm, unit) state" where
  "DeinitializeIARM E = do {
     connected \<leftarrow> ask (env_iarm_connected E);
     whenM connected (modify (instance_alive_update (\<lambda>_. False)))
   }"

text \<open>\<open>Deinitialize\<close> before and after its call of \<open>stopMaintenanceTasks\<close>.\<close>

definition deinit_leave :: "env \<Rightarrow> (mm, unit) state" where
  "deinit_leave E = do {
     DeinitializeIARM E;
     modify (\<lambda>s. s\<lparr>m_service := False, m_authservicePlugin := False\<rparr>)
   }"

definition deinit_enter :: "env \<Rightarrow> (mm, unit) state" where
  "deinit_enter E = do {
     _ \<leftarrow> maintenance_deleteTimer E;
     status \<leftarrow> gets m_notify_status;
     if status = MAINTENANCE_STARTED then stop_enter E True else deinit_leave E
   }"

definition stopMaintenance_enter :: "env \<Rightarrow> (mm, unit) state" where
  "stopMaintenance_enter E = do {
     status \<leftarrow> gets m_notify_status;
     if status = MAINTENANCE_STARTED then stop_enter E False
     else emit (Replied ''stopMaintenance'' False)
   }"

text \<open>The destructor of a joinable \<open>std::thread\<close> ends the program.\<close>

definition destroy :: "(mm, unit) state" where
  "destroy = modify (\<lambda>s. s\<lparr>instance_alive := False, destroyed := True,
     crashed := (crashed s \<or> m_thread s \<noteq> T_None)\<rparr>)"

subsection \<open>The join and what follows it\<close>

definition joined :: "(mm, unit) state" where
  "joined = modify (\<lambda>s. s\<lparr>m_thread := T_None, status_lock := C_None\<rparr>)"

definition resume :: "env \<Rightarrow> continuation \<Rightarrow> (mm, unit) state" where
  "resume E c = (case c of
     C_None \<Rightarrow> ret ()
   | C_Start prev \<Rightarrow> do { joined; start_leave E prev }
   | C_Stop deinitializing \<Rightarrow> do {
       joined;
       stop_leave;
       if deinitializing then deinit_leave E else emit (Replied ''stopMaintenance'' True)
     }
   | C_Iarm notify_status \<Rightarrow> do { joined; iarm_leave notify_status })"

subsection \<open>Mode and status\<close>

definition setMaintenanceMode :: "env \<Rightarrow> json_obj \<Rightarrow> (mm, bool) state" where
  "setMaintenanceMode E parameters =
     (if parameters ''maintenanceMode'' \<noteq> None \<and> parameters ''optOut'' \<noteq> None then do {
        let new_mode = json_string parameters ''maintenanceMode'';
        let new_optout_state = json_string parameters ''optOut'';
        let new_trigger_mode = json_string parameters ''triggerMode'';
        let bg_flag = (if new_mode = BACKGROUND_MODE then ''true'' else ''false'');
        if new_mode \<noteq> BACKGROUND_MODE \<and> new_mode \<noteq> FOREGROUND_MODE then ret False
        else do {
          modify (g_triggerMode_update (\<lambda>_. new_trigger_mode));
          status \<leftarrow> gets m_notify_status;
          (if status \<noteq> MAINTENANCE_STARTED then do {
             setting_remove E ''background_flag'';
             modify (g_currentMode_update (\<lambda>_. new_mode));
             setting_set E ''background_flag'' bg_flag
           }
           else do {
             let mode = (if new_mode \<noteq> BACKGROUND_MODE then 1 else 0);
             emit (ModeBroadcast mode);
             sent \<leftarrow> ask (\<lambda>n. env_broadcast E n mode);
             whenM sent (do {
               setting_remove E ''background_flag'';
               modify (g_currentMode_update (\<lambda>_. new_mode));
               setting_set E ''background_flag'' bg_flag
             })
           });
          if checkValidOptOutModes new_optout_state then do {
            setting_set E ''softwareoptout'' new_optout_state;
            ret True
          }
          else ret False
        }
      }
      else ret False)"

text \<open>The response of \<open>getMaintenanceMode\<close>: mode, trigger and opt-out, or failure.\<close>

definition getMaintenanceMode :: "mm \<Rightarrow> (string \<times> string \<times> string) option" where
  "getMaintenanceMode s =
     (if g_currentMode s \<noteq> BACKGROUND_MODE \<and> g_currentMode s \<noteq> FOREGROUND_MODE then None
      else if \<not> fileExists (disk (m_setting s)) MAINTENANCE_MGR_RECORD_FILE then None
      else (case parseConfigFile (disk (m_setting s)) MAINTENANCE_MGR_RECORD_FILE ''softwareoptout'' of
              None \<Rightarrow> None
            | Some softwareOptOutmode \<Rightarrow>
                if \<not> checkValidOptOutModes softwareOptOutmode then None
                else Some (g_currentMode s, g_triggerMode s, softwareOptOutmode)))"

record activity_status =
  maintenanceStatus :: string
  LastSuccessfulCompletionTime :: int
  isCriticalMaintenance :: bool
  isRebootPending :: bool

definition getMaintenanceActivityStatus :: "mm \<Rightarrow> activity_status" where
  "getMaintenanceActivityStatus s =
     (let isCritical = (if g_is_critical_maintenance s \<noteq> [] then g_is_critical_maintenance s else ''false'');
          isReboot = (if g_is_reboot_pending s \<noteq> [] then g_is_reboot_pending s else ''false'');
          last_time = (if contains (m_setting s) ''LastSuccessfulCompletionTime''
                       then getValue (m_setting s) ''LastSuccessfulCompletionTime'' else ''NA'')
      in \<lparr>maintenanceStatus = notifyStatusToString (m_notify_status s),
          LastSuccessfulCompletionTime =
            (if last_time = ''NA'' then 0
             else (case stoi last_time of Some i \<Rightarrow> i | None \<Rightarrow> 0)),
          isCriticalMaintenance = (isCritical = ''true''),
          isRebootPending = (isReboot = ''true'')\<rparr>)"

end
