(* ===== verification/MaintMachine.thy ===== *)
theory MaintMachine
  imports MaintApi
begin

text \<open>
  The MaintenanceManager as a transition system: the events that can happen to the plugin,
  when each can (its locks and the state it needs), and what it does. Everything a
  property says about a sequence of calls is said about \<open>run_events (exec_event E)\<close>.
\<close>

subsection \<open>Events\<close>

datatype event =
  E_Init
| E_Thread
| E_SpuriousWake
| E_Alarm
| E_Internet "string option" "int option"
| E_Context "json_obj option"
| E_Iarm string nat IARM_Maint_module_status_t
| E_Start
| E_Stop
| E_Resume
| E_SetMode json_obj
| E_Deinit
| E_Destroy

definition thread_ended :: "mm \<Rightarrow> bool" where
  "thread_ended s \<longleftrightarrow> m_thread s = T_None \<or> m_thread s = T_Done"

text \<open>The signal comes from the armed timer, which is disarmed by its expiry.\<close>

definition alarm :: "mm \<Rightarrow> mm" where
  "alarm s = after (timer_handler SIGALRM) (s\<lparr>timer_armed := False\<rparr>)"

definition exec_event :: "env \<Rightarrow> event \<Rightarrow> mm \<Rightarrow> mm option" where
  "exec_event E e s =
     (if crashed s \<or> destroyed s then None
      else (case e of
        E_Init \<Rightarrow> if m_service s \<or> \<not> instance_alive s \<or> \<not> status_mutex_free s then None
                  else Some (after (Initialize E) s)
      | E_Thread \<Rightarrow> thread_step E s
      | E_SpuriousWake \<Rightarrow> spurious_wake s
      | E_Alarm \<Rightarrow> if timer_armed s then Some (alarm s) else None
      | E_Internet status st \<Rightarrow> Some (after (internetStatusChangeEventHandler E status st) s)
      | E_Context c \<Rightarrow> Some (after (deviceInitializationContextEventHandler E c) s)
      | E_Iarm owner eventId ms \<Rightarrow>
          if \<not> m_service s \<or> \<not> instance_alive s \<or> \<not> status_mutex_free s then None
          else Some (after (iarm_enter E owner eventId ms) s)
      | E_Start \<Rightarrow> if \<not> m_service s \<or> \<not> status_mutex_free s \<or> (may_start s \<and> \<not> call_mutex_free s) then None
                   else Some (after start_enter s)
      | E_Stop \<Rightarrow> if \<not> m_service s \<or> \<not> status_mutex_free s then None
                  else Some (after (stopMaintenance_enter E) s)
      | E_Resume \<Rightarrow> if status_lock s = C_None \<or> \<not> thread_ended s then None
                    else Some (after (resume E (status_lock s)) s)
      | E_SetMode p \<Rightarrow> if \<not> m_service s \<or> \<not> call_mutex_free s then None
                       else Some (after (setMaintenanceMode E p) s)
      | E_Deinit \<Rightarrow> if \<not> m_service s \<or> \<not> status_mutex_free s then None
                    else Some (after (deinit_enter E) s)
      | E_Destroy \<Rightarrow> if m_service s \<or> \<not> status_mutex_free s then None else Some (after destroy s)))"

text \<open>
  The same as an inductive relation, for statements about everything that can be reached.
\<close>

inductive mm_step :: "env \<Rightarrow> mm \<Rightarrow> mm \<Rightarrow> bool" for E where
  mm_stepI: "exec_event E e s = Some t \<Longrightarrow> mm_step E s t"

inductive mm_reachable :: "env \<Rightarrow> (mm \<Rightarrow> bool) \<Rightarrow> mm \<Rightarrow> bool" for E init where
  reach_start: "init s \<Longrightarrow> mm_reachable E init s"
| reach_step: "mm_reachable E init s \<Longrightarrow> mm_step E s t \<Longrightarrow> mm_reachable E init t"

inductive_cases mm_stepE: "mm_step E s t"
inductive_simps mm_step_iff: "mm_step E s t"

subsection \<open>The constructor\<close>

definition context_params :: "string \<rightharpoonup> string" where
  "context_params = [''partnerId'' \<mapsto> TR181_PARTNER_ID, ''osClass'' \<mapsto> TR181_TARGET_OS_CLASS,
     ''regionalConfigService'' \<mapsto> TR181_XCONFURL]"

text \<open>
  The state the constructor leaves; the settings come from the record file, the suppress
  flag from the build. (\<open>g_maintenance_type\<close> has no initializer and is not read before
  \<open>maintenanceManagerOnBootup\<close> writes it.)
\<close>

definition constructed :: "bool \<Rightarrow> fsys \<Rightarrow> mm" where
  "constructed suppress fs = \<lparr>
     g_currentMode = [], g_triggerMode = [], g_is_critical_maintenance = [],
     g_is_reboot_pending = [], g_lastSuccessful_maint_time = [], g_epoch_time = [],
     m_notify_status = MAINTENANCE_IDLE, g_maintenance_type = SOLICITED_MAINTENANCE,
     m_setting = cSettings fs MAINTENANCE_MGR_RECORD_FILE, m_abort_flag = False, g_task_status = 0,
     g_unsolicited_complete = False, g_listen_to_nwevents = False,
     g_subscribed_for_nwevents = False, g_listen_to_deviceContextUpdate = False,
     g_subscribed_for_deviceContextUpdate = False, g_whoami_support_enabled = False,
     g_suppress_maintenance_enabled = suppress,
     m_task_map = [task_names_foreground TASK_RFC \<mapsto> False,
       task_names_foreground TASK_SWUPDATE \<mapsto> False, task_names_foreground TASK_LOGUPLOAD \<mapsto> False],
     m_param_map = context_params, m_paramType_map = map_option (\<lambda>_. WDMP_STRING) \<circ> context_params,
     m_service = False, m_authservicePlugin = False, instance_alive = True, tasks = [],
     currentTask = [], g_task_timerCreated = False, timer_armed = False, m_thread = T_None,
     status_lock = C_None, crashed = False, destroyed = False, tick = 0, trace = []\<rparr>"

definition mm_initial :: "mm \<Rightarrow> bool" where
  "mm_initial s \<longleftrightarrow> (\<exists>suppress fs. s = constructed suppress fs)"

subsection \<open>A device on which everything works\<close>

text \<open>
  A concrete environment for the witnesses: every service answers, every command and every
  system call succeeds, the device is online and knows its identity.
\<close>

definition sample_env :: "json_lib \<Rightarrow> env" where
  "sample_env L = \<lparr>env_json = L, env_rfc_manager = True,
     env_service_state = (\<lambda>n c. Some PLUGIN_ACTIVATED), env_token = (\<lambda>n. None),
     env_subscribe = (\<lambda>n l e. True), env_connected = (\<lambda>n l. (0, Some True)),
     env_wai = (\<lambda>n l. \<lparr>wai_success = None, wai_context = None\<rparr>), env_authservice = (\<lambda>n. True),
     env_activation = (\<lambda>n. Some ''activated''), env_set_partner = (\<lambda>n p. True),
     env_setRFC = (\<lambda>n r v t. WDMP_SUCCESS), env_getRFC = (\<lambda>n r. (WDMP_SUCCESS, WDMP_STRING, [])),
     env_system = (\<lambda>n c. 0), env_timer_create = (\<lambda>n. True), env_timer_settime = (\<lambda>n k. True),
     env_timer_delete = (\<lambda>n. True), env_kill = (\<lambda>n p g. 0), env_proc = (\<lambda>n. []),
     env_cmdline = (\<lambda>n p. None), env_thread = (\<lambda>n. True), env_broadcast = (\<lambda>n m. True),
     env_time = (\<lambda>n. 1700000000), env_iarm_name = ''MaintenanceMGR'', env_event_update = 0,
     env_iarm_init = (\<lambda>n. True), env_iarm_connected = (\<lambda>n. True), env_signal = (\<lambda>n. True),
     env_device_properties = None\<rparr>"

definition sample_start :: mm where
  "sample_start = constructed False \<lparr>files = Map.empty, openable = (\<lambda>_. True)\<rparr>"

lemma sample_initial: "mm_initial sample_start"
  by (auto simp: mm_initial_def sample_start_def)

lemma sample_whoami: "isWhoAmIEnabled (sample_env L) = Some False"
  by (simp add: isWhoAmIEnabled_def read_property_def sample_env_def)

end
