(* ===== verification/MaintFrame.thy ===== *)
theory MaintFrame
  imports MaintMachine
begin

text \<open>
  What a step of the MaintenanceManager can change: one rule splits a step into its
  cases, and a locale collects what a predicate of the state has to satisfy so that every
  step keeps it. The predicates of the later theories are interpretations of the locale.
\<close>

subsection \<open>The cases of a step\<close>

lemma exec_event_elim:
  assumes "exec_event E e s = Some t"
  obtains
    (init) "e = E_Init" "\<not> m_service s" "status_lock s = C_None" "t = after (Initialize E) s"
  | (begins) "m_thread s = T_Begin" "delays_started s \<or> status_lock s = C_None" "t = after (thread_begin (delays_started s)) s"
  | (checks) d where "m_thread s = T_Checks d" "t = after (thread_checks E d) s"
  | (whoami) d sk net act where "m_thread s = T_WhoAmI d sk net act"
      "t = after (thread_whoami E d sk net act) s"
  | (ctx) d sk where "m_thread s = T_WaitContext d sk" "t = after (wait_context d sk) s"
  | (blocks) d sk where "m_thread s = T_BlockContext d sk" "t = after (goto (T_SleepContext d sk)) s"
  | (exit) "m_thread s = T_Exit" "status_lock s = C_None" "t = after thread_exit s"
  | (proceed) d sk where "m_thread s = T_Proceed d sk" "\<not> d \<or> status_lock s = C_None" "t = after (thread_proceed d sk) s"
  | (loop) i rc tm where "m_thread s = T_Loop i rc tm" "t = after (thread_loop E i rc tm) s"
  | (invoked) i where "m_thread s = T_Invoked i" "t = after (goto (T_Wait i False)) s"
  | (woken) i where "m_thread s = T_Wait i True" "t = after (thread_after_wait E i) s"
  | (spurious) i where "m_thread s = T_Wait i False" "t = after (goto (T_Wait i True)) s"
  | (spurious_context) d sk where "m_thread s = T_SleepContext d sk" "t = after (goto (T_WaitContext d sk)) s"
  | (alarm) "timer_armed s" "t = alarm s"
  | (internet) st n where "t = after (internetStatusChangeEventHandler E st n) s"
  | (device) c where "t = after (deviceInitializationContextEventHandler E c) s"
  | (iarm) owner eventId ms where "status_lock s = C_None" "instance_alive s"
      "t = after (iarm_enter E owner eventId ms) s"
  | (start) "status_lock s = C_None" "m_service s" "t = after start_enter s"
  | (stop) "status_lock s = C_None" "m_service s" "t = after (stopMaintenance_enter E) s"
  | (resume) "e = E_Resume" "status_lock s \<noteq> C_None" "thread_ended s"
      "t = after (resume E (status_lock s)) s"
  | (mode) p where "m_service s" "t = after (setMaintenanceMode E p) s"
  | (deinit) "e = E_Deinit" "m_service s" "status_lock s = C_None" "t = after (deinit_enter E) s"
  | (destroy) "e = E_Destroy" "\<not> m_service s" "status_lock s = C_None" "t = after destroy s"
proof -
  note a = assms [unfolded exec_event_def]
  show thesis
  proof (cases e)
    case E_Thread
    with a have st: "thread_step E s = Some t" by (simp split: if_splits)
    show thesis
    proof (cases "m_thread s")
      case (T_Wait i w)
      with st have "w" by (auto simp: thread_step_def split: if_splits)
      with T_Wait st show thesis by (intro woken) (auto simp: thread_step_def)
    qed (use st begins checks whoami ctx blocks exit proceed loop invoked
          in \<open>auto simp: thread_step_def status_mutex_free_def split: if_splits\<close>)
  next
    case E_SpuriousWake
    with a have "spurious_wake s = Some t" by (simp split: if_splits)
    then show thesis
      using spurious spurious_context by (auto simp: spurious_wake_def split: thread_pc.splits bool.splits)
  qed (use a init alarm internet device iarm start stop resume mode deinit destroy
        in \<open>auto simp: status_mutex_free_def split: if_splits\<close>)
qed

lemma exec_event_ends:
  "exec_event E E_Init s = Some t \<Longrightarrow>
     \<not> m_service s \<and> instance_alive s \<and> status_lock s = C_None \<and> t = after (Initialize E) s"
  "exec_event E E_Deinit s = Some t \<Longrightarrow> m_service s \<and> status_lock s = C_None \<and> t = after (deinit_enter E) s"
  "exec_event E E_Destroy s = Some t \<Longrightarrow> \<not> m_service s \<and> status_lock s = C_None \<and> t = after destroy s"
  "exec_event E E_Resume s = Some t \<Longrightarrow>
     status_lock s \<noteq> C_None \<and> thread_ended s \<and> t = after (resume E (status_lock s)) s"
  by (auto simp: exec_event_def status_mutex_free_def split: if_splits)

subsection \<open>The part of the state that the properties are about\<close>

definition view :: "mm \<Rightarrow> u16 \<times> Maint_notify_status_t \<times> Maint_notify_status_t list \<times> continuation
    \<times> csettings \<times> string \<times> bool \<times> bool \<times> bool" where
  "view s = (g_task_status s, m_notify_status s, notified_of (trace s), status_lock s,
     m_setting s, g_currentMode s, m_service s, instance_alive s, crashed s)"

definition minor :: "(mm, 'a) state \<Rightarrow> bool" where
  "minor m \<longleftrightarrow> (\<forall>s. view (after m s) = view s)"

text \<open>The members that a quiet operation leaves alone, one by one.\<close>

lemma frame_fields:
  assumes "frame s = frame t"
  shows "g_task_status s = g_task_status t" "m_notify_status s = m_notify_status t"
    "notified_of (trace s) = notified_of (trace t)" "status_lock s = status_lock t"
    "m_thread s = m_thread t" "m_task_map s = m_task_map t" "m_service s = m_service t"
    "instance_alive s = instance_alive t" "crashed s = crashed t" "destroyed s = destroyed t"
    "m_setting s = m_setting t" "g_currentMode s = g_currentMode t" "tasks s = tasks t"
    "currentTask s = currentTask t" "m_abort_flag s = m_abort_flag t"
    "g_task_timerCreated s = g_task_timerCreated t" "timer_armed s = timer_armed t"
    "g_maintenance_type s = g_maintenance_type t"
    "g_unsolicited_complete s = g_unsolicited_complete t"
    "g_whoami_support_enabled s = g_whoami_support_enabled t"
    "g_suppress_maintenance_enabled s = g_suppress_maintenance_enabled t"
    "g_listen_to_nwevents s = g_listen_to_nwevents t"
    "g_listen_to_deviceContextUpdate s = g_listen_to_deviceContextUpdate t"
  using assms by (cases s; cases t; simp add: frame_def core_def)+

lemmas quiet_fields = frame_fields [OF quietD]

lemma minor_quiet: "quiet m \<Longrightarrow> minor m"
  by (simp add: minor_def view_def quiet_fields)

lemma minor_bind [pres]: "minor m \<Longrightarrow> (\<And>x. minor (f x)) \<Longrightarrow> minor (State_Monad.bind m f)"
  by (simp add: minor_def split_beta)

lemma minor_basic [pres]:
  "minor (ret x)" "minor (gets g)" "minor (ask h)" "minor (goto p)" "minor notify_one"
  "minor (set_task_map k b)" "minor (emit (Ran c))" "minor (emit (Replied c ok))"
  "minor (emit (ModeBroadcast n))"
  by (simp_all add: minor_def view_def)

lemma minor_modify [pres]:
  "minor (modify (m_thread_update f0))"
  "minor (modify (tasks_update f1))"
  "minor (modify (currentTask_update f2))"
  "minor (modify (m_abort_flag_update f3))"
  "minor (modify (g_listen_to_deviceContextUpdate_update f4))"
  "minor (modify (g_listen_to_nwevents_update f5))"
  "minor (modify (g_unsolicited_complete_update f6))"
  "minor (modify (g_triggerMode_update f7))"
  "minor (modify (g_is_critical_maintenance_update f8))"
  "minor (modify (g_is_reboot_pending_update f9))"
  by (simp_all add: minor_def view_def)

lemma minor_if [pres]: "(b \<Longrightarrow> minor m) \<Longrightarrow> (\<not> b \<Longrightarrow> minor n) \<Longrightarrow> minor (if b then m else n)"
  by simp

lemma minor_whenM [pres]: "(b \<Longrightarrow> minor m) \<Longrightarrow> minor (whenM b m)"
  by (simp add: minor_def)

lemma minor_case_option [pres]:
  "minor m \<Longrightarrow> (\<And>y. minor (n y)) \<Longrightarrow> minor (case x of None \<Rightarrow> m | Some y \<Rightarrow> n y)"
  by (cases x) auto

lemma minor_let [pres]: "minor (f x) \<Longrightarrow> minor (let y = x in f y)"
  by simp

lemma minor_timer [pres]: "minor (task_startTimer E)" "minor (task_stopTimer E)"
    "minor (maintenance_deleteTimer E)"
  by (simp_all add: minor_def view_def task_startTimer_def task_stopTimer_def
      maintenance_deleteTimer_def maintenance_initTimer_def timer_run_simps Let_def)

lemmas minor_device [pres] =
  quiet_isDeviceOnline [THEN minor_quiet] quiet_getActivatedStatus [THEN minor_quiet]
  quiet_checkActivatedStatus [THEN minor_quiet] quiet_knowWhoAmI_turn [THEN minor_quiet]
  quiet_setDeviceInitializationContext [THEN minor_quiet] quiet_abortTask [THEN minor_quiet]
  quiet_subscribeToDeviceInitializationEvent [THEN minor_quiet]

lemma minor_thread_checks: "minor (thread_checks E d)"
  unfolding thread_checks_def by (intro pres)

lemma minor_thread_whoami: "minor (thread_whoami E d sk net act)"
  unfolding thread_whoami_def by (intro pres)

lemma minor_wait_context: "minor (wait_context d sk)"
  unfolding wait_context_def by (intro pres)

lemma minor_run_task: "minor (run_task E task rc tm)"
  unfolding run_task_def by (intro pres)

lemma minor_thread_finish: "minor (thread_finish E)"
  unfolding thread_finish_def by (intro pres)

lemma minor_thread_after_wait: "minor (thread_after_wait E i)"
  unfolding thread_after_wait_def by (intro pres)

lemma minor_internet: "minor (internetStatusChangeEventHandler E st n)"
  unfolding internetStatusChangeEventHandler_def startCriticalTasks_def
  by (cases st; cases n) (simp_all add: minor_basic, intro pres)

lemma minor_device_event: "minor (deviceInitializationContextEventHandler E c)"
  unfolding deviceInitializationContextEventHandler_def by (intro pres)

lemma minor_abort_first: "minor (abort_first E st ts)"
proof (induction ts)
  case Nil
  show ?case by (simp add: minor_basic)
next
  case (Cons t ts)
  show ?case unfolding abort_first.simps by (intro pres Cons)
qed

lemma minor_mark: "minor mark_unsolicited_complete"
  unfolding mark_unsolicited_complete_def by (intro pres)

lemmas minor_ops [pres] = minor_thread_checks minor_thread_whoami minor_wait_context minor_run_task
  minor_thread_finish minor_thread_after_wait minor_internet minor_device_event
  minor_abort_first minor_mark

subsection \<open>Predicates that every step keeps\<close>

text \<open>
  The laws: the predicate looks at the view only, and the few operations that write to the
  view keep it. \<open>verdict\<close> is what the IARM handler does after its switch.
\<close>

definition verdict :: "env \<Rightarrow> (mm, unit) state" where
  "verdict E = do {
     r \<leftarrow> cycle_result E;
     (case r of None \<Rightarrow> ret ()
      | Some notify_status \<Rightarrow> modify (status_lock_update (\<lambda>_. C_Iarm notify_status)))
   }"

lemma iarm_enter_split:
  "iarm_enter E owner eventId ms = do {
     abort \<leftarrow> gets m_abort_flag;
     if abort then ret ()
     else if owner \<noteq> env_iarm_name E then ret ()
     else do {
       st \<leftarrow> gets m_notify_status;
       if eventId = env_event_update E \<and> st = MAINTENANCE_STARTED
       then do { module_event ms; verdict E } else ret ()
     }
   }"
  unfolding iarm_enter_def verdict_def ..

locale kept =
  fixes E :: env and I :: "mm \<Rightarrow> bool"
  assumes by_view: "view s = view t \<Longrightarrow> I s \<Longrightarrow> I t"
    and status: "st \<noteq> MAINTENANCE_COMPLETE \<Longrightarrow> st \<noteq> MAINTENANCE_INCOMPLETE \<Longrightarrow>
      preserves I (onMaintenanceStatusChange st)"
    and complete_bit: "preserves I (SET_TASK_STATUS (task_complete_status tk))"
    and success_bits: "preserves I (do { SET_TASK_STATUS (task_success_status tk);
      SET_TASK_STATUS (task_complete_status tk) })"
    and flag_bit: "n = REBOOT_REQUIRED \<or> n = TASK_SKIPPED \<Longrightarrow> preserves I (SET_TASK_STATUS n)"
    and crash: "I s \<Longrightarrow> \<not> instance_alive s \<Longrightarrow> I (s\<lparr>crashed := True\<rparr>)"
    and start: "preserves I start_enter"
    and stop_lock: "preserves I (modify (status_lock_update (\<lambda>_. C_Stop False)))"
    and join: "preserves I joined"
    and restart: "preserves I (do { joined; start_leave E p })"
    and verdict: "preserves I (verdict E)"
    and mode: "preserves I (setMaintenanceMode E par)"
begin

lemma minor_keeps: "minor m \<Longrightarrow> preserves I m"
  unfolding minor_def preserves_def using by_view by metis

lemmas keeps [intro!] = status complete_bit flag_bit stop_lock join restart verdict mode start

lemma keeps_thread_begin: "preserves I (thread_begin d)"
  unfolding thread_begin_def by (intro preserves_bind preserves_whenM status minor_keeps pres) simp_all

lemma keeps_thread_exit: "preserves I thread_exit"
proof -
  have "minor (modify (\<lambda>s. s\<lparr>g_unsolicited_complete := True, g_listen_to_nwevents := True\<rparr>))"
    by (simp add: minor_def view_def)
  then show ?thesis
    unfolding thread_exit_def
    by (intro preserves_bind preserves_whenM status minor_keeps pres) simp_all
qed

lemma keeps_thread_proceed: "preserves I (thread_proceed d sk)"
proof (rule preservesI)
  fix s
  assume "I s"
  let ?u = "after (whenM d (onMaintenanceStatusChange MAINTENANCE_STARTED)) s"
  let ?v = "after (do { SET_TASK_STATUS SWUPDATE_SUCCESS; SET_TASK_STATUS SWUPDATE_COMPLETE }) ?u"
  have u: "I ?u" using status [of MAINTENANCE_STARTED] \<open>I s\<close> by (simp add: preserves_def)
  then have v: "I ?v"
    using success_bits [of TASK_SWUPDATE]
    by (simp add: preserves_def task_success_status_def task_complete_status_def)
  have "view (after (thread_proceed d sk) s) = view ?u \<or> view (after (thread_proceed d sk) s) = view ?v"
    by (simp add: thread_proceed_def view_def)
  with u v by_view show "I (after (thread_proceed d sk) s)" by metis
qed

lemma keeps_task_failed: "preserves I (task_failed E task)"
proof -
  have "preserves I (SET_TASK_STATUS c)" if "task_status_map task = Some c" for c
    using that complete_bit [of TASK_RFC] complete_bit [of TASK_SWUPDATE]
      complete_bit [of TASK_LOGUPLOAD]
    by (auto simp: task_status_map_def task_complete_status_def split: if_splits)
  then show ?thesis
    unfolding task_failed_def
    by (cases "task_status_map task")
      (auto intro!: preserves_bind intro: minor_keeps minor_basic minor_timer)
qed

lemma keeps_thread_loop: "preserves I (thread_loop E i rc tm)"
  unfolding thread_loop_def Let_def
  by (intro preserves_bind preserves_if keeps_task_failed minor_keeps pres)

lemma keeps_alarm:
  assumes "I s"
  shows "I (alarm s)"
proof -
  have "view (alarm s) = view s
      \<or> (\<not> instance_alive s \<and> view (alarm s) = view (s\<lparr>crashed := True\<rparr>))
      \<or> (\<exists>t. view (alarm s) = view (after (SET_TASK_STATUS (task_complete_status t)) s))"
    by (auto simp: alarm_def timer_handler_def task_flag_def view_def split: option.split)
  then show ?thesis
    using assms crash [OF assms] preservesD [OF complete_bit assms] by_view by metis
qed

lemma keeps_task_complete_event: "preserves I (task_complete_event t)"
proof (rule preservesI)
  fix s
  assume "I s"
  let ?m = "do { SET_TASK_STATUS (task_success_status t); SET_TASK_STATUS (task_complete_status t) }"
  have "view (after (task_complete_event t) s) = view s
      \<or> view (after (task_complete_event t) s) = view (after ?m s)"
    by (simp add: task_complete_event_def view_def)
  then show "I (after (task_complete_event t) s)"
    using \<open>I s\<close> preservesD [OF success_bits \<open>I s\<close>] by_view by metis
qed

lemma keeps_task_error_event: "preserves I (task_error_event t)"
  unfolding task_error_event_def Let_def
  by (intro preserves_bind preserves_if complete_bit minor_keeps pres)

lemma keeps_module_event: "preserves I (module_event ms)"
proof -
  have "preserves I (SET_TASK_STATUS SWUPDATE_COMPLETE)"
    using complete_bit [of TASK_SWUPDATE] by (simp add: task_complete_status_def)
  moreover have "preserves I (SET_TASK_STATUS REBOOT_REQUIRED)" "preserves I (SET_TASK_STATUS TASK_SKIPPED)"
    by (simp_all add: flag_bit)
  ultimately show ?thesis
    unfolding module_event_def task_inprogress_event_def
    by (cases ms)
      (auto intro!: keeps_task_complete_event keeps_task_error_event preserves_bind
        intro: minor_keeps minor_basic minor_modify)
qed

lemma keeps_iarm_enter: "preserves I (iarm_enter E owner eventId ms)"
  unfolding iarm_enter_split
  by (intro preserves_bind preserves_if keeps_module_event verdict minor_keeps pres)

lemma keeps_stop_enter:
  assumes lock: "preserves I (modify (status_lock_update (\<lambda>_. C_Stop d)))"
  shows "preserves I (stop_enter E d)"
  unfolding stop_enter_def by (intro preserves_bind lock minor_keeps pres)

lemma keeps_stop: "preserves I (stopMaintenance_enter E)"
  unfolding stopMaintenance_enter_def
  by (intro preserves_bind preserves_if keeps_stop_enter stop_lock minor_keeps pres)

lemma keeps_stop_leave: "preserves I stop_leave"
  unfolding stop_leave_def by (intro preserves_bind status minor_keeps pres) simp_all

lemma keeps_iarm_leave:
  "st \<noteq> MAINTENANCE_COMPLETE \<Longrightarrow> st \<noteq> MAINTENANCE_INCOMPLETE \<Longrightarrow> preserves I (iarm_leave st)"
  unfolding iarm_leave_def by (intro preserves_bind status minor_keeps pres)

lemma keeps_resume:
  assumes "c \<noteq> C_Stop True" and "c \<noteq> C_Iarm MAINTENANCE_COMPLETE" and "c \<noteq> C_Iarm MAINTENANCE_INCOMPLETE"
  shows "preserves I (resume E c)"
proof (cases c)
  case (C_Stop d)
  with assms have "\<not> d" by simp
  with C_Stop show ?thesis
    by (auto simp: resume_def intro!: preserves_bind join keeps_stop_leave
        intro: minor_keeps minor_basic)
next
  case (C_Iarm st)
  with assms show ?thesis
    by (auto simp: resume_def intro!: preserves_bind join keeps_iarm_leave)
qed (auto simp: resume_def preserves_return restart)

text \<open>
  A step keeps the predicate, except for the four kinds that begin or end the life of the
  plugin or report a success, which each predicate treats on its own.
\<close>

lemma kept_step:
  assumes "I s" and "exec_event E e s = Some t" and "e \<noteq> E_Init" and "e \<noteq> E_Deinit" and "e \<noteq> E_Destroy"
    and "e = E_Resume \<Longrightarrow> status_lock s \<noteq> C_Stop True
      \<and> status_lock s \<noteq> C_Iarm MAINTENANCE_COMPLETE \<and> status_lock s \<noteq> C_Iarm MAINTENANCE_INCOMPLETE"
  shows "I t"
  using assms(2)
proof (cases rule: exec_event_elim)
  case alarm
  with assms(1) show ?thesis by (simp add: keeps_alarm)
next
  case resume
  with assms show ?thesis using preservesD [OF keeps_resume assms(1)] by simp
qed (use assms in \<open>auto intro!: preservesD [where I = I, OF _ assms(1)] keeps_thread_begin
    keeps_thread_exit keeps_thread_proceed keeps_thread_loop keeps_iarm_enter keeps_stop start mode
    minor_keeps minor_ops minor_basic simp del: run_goto\<close>)

end

end
