(* ===== verification/MaintSafety.thy ===== *)
theory MaintSafety
  imports MaintFrame
begin

text \<open>
  Safety of the MaintenanceManager: which statuses are reported and when, that the
  execution thread is never replaced while it can still be joined, and that mode and
  opt-out stay valid. Each invariant interprets the locale of kept predicates and is
  lifted to runs through the locale of transition systems.
\<close>

subsection \<open>Status bits and notifications\<close>

text \<open>
  The bit field never has a bit above the flags the code sets, and a success bit only with
  its completion bit.
\<close>

definition bits_ok :: "u16 \<Rightarrow> bool" where
  "bits_ok v \<longleftrightarrow> \<not> (\<exists>n\<ge>8. bit v n) \<and> (bit v 0 \<longrightarrow> bit v 1) \<and> (bit v 2 \<longrightarrow> bit v 3) \<and> (bit v 4 \<longrightarrow> bit v 5)"

definition signal_inv :: "mm \<Rightarrow> bool" where
  "signal_inv s \<longleftrightarrow> bits_ok (g_task_status s)
     \<and> m_notify_status s \<noteq> MAINTENANCE_INCOMPLETE
     \<and> MAINTENANCE_INCOMPLETE \<notin> set (notified_of (trace s))
     \<and> status_lock s \<noteq> C_Iarm MAINTENANCE_INCOMPLETE
     \<and> (status_lock s = C_Iarm MAINTENANCE_COMPLETE \<longrightarrow> mask_set (g_task_status s) ALL_TASKS_SUCCESS)"

lemma bits_ok_complete: "bits_ok v \<Longrightarrow> bits_ok (SET_STATUS v (task_complete_status t))"
  by (cases t) (auto simp: bits_ok_def bit_SET_STATUS task_complete_status_def status_bit_defs)

lemma bits_ok_success:
  "bits_ok v \<Longrightarrow> bits_ok (SET_STATUS (SET_STATUS v (task_success_status t)) (task_complete_status t))"
  by (cases t) (auto simp: bits_ok_def bit_SET_STATUS task_complete_status_def
      task_success_status_def status_bit_defs)

lemma bits_ok_flag: "bits_ok v \<Longrightarrow> n = 6 \<or> n = 7 \<Longrightarrow> bits_ok (SET_STATUS v n)"
  by (auto simp: bits_ok_def bit_SET_STATUS)

lemma bits_ok_zero [simp]: "bits_ok 0"
  by (simp add: bits_ok_def)

lemma mask_set_mono: "mask_set v m \<Longrightarrow> mask_set (SET_STATUS v n) m"
  by (simp add: mask_set_iff bit_SET_STATUS)

lemma bits_ok_not_skipped: "bits_ok v \<Longrightarrow> \<not> mask_set v MAINTENANCE_TASK_SKIPPED"
  by (auto simp: bits_ok_def task_skipped_mask_iff)


lemma cycle_result_spec:
  "run_state (cycle_result E) s =
     (if \<not> mask_set (g_task_status s) TASKS_COMPLETED then (None, s)
      else if mask_set (g_task_status s) ALL_TASKS_SUCCESS then
        (Some MAINTENANCE_COMPLETE, s\<lparr>tick := Suc (tick s), m_setting :=
          snd (setValue (env_json E) ''LastSuccessfulCompletionTime'' (to_string (env_time E (tick s)))
            (snd (remove (env_json E) ''LastSuccessfulCompletionTime'' (m_setting s))))\<rparr>)
      else if mask_set (g_task_status s) MAINTENANCE_TASK_SKIPPED then (Some MAINTENANCE_INCOMPLETE, s)
      else (Some MAINTENANCE_ERROR, s))"
  by (simp add: cycle_result_def)

lemma signal_Initialize:
  assumes "signal_inv s" and "status_lock s = C_None"
  shows "signal_inv (after (Initialize E) s)"
proof -
  let ?J = "\<lambda>s. signal_inv s \<and> status_lock s = C_None"
  have boot: "preserves ?J (maintenanceManagerOnBootup E)"
    by (simp add: preserves_def maintenanceManagerOnBootup_def spawn_def signal_inv_def)
  have sub: "preserves ?J (subscribeToDeviceInitializationEvent E)"
    using quiet_fields [OF quiet_subscribeToDeviceInitializationEvent]
    by (simp add: preserves_def signal_inv_def)
  have m: "preserves ?J (modify (m_service_update f))" "preserves ?J (modify (crashed_update f))"
    "preserves ?J (modify (g_whoami_support_enabled_update f))" "preserves ?J (ask g)" for f g
    by (simp_all add: preserves_def signal_inv_def)
  have "preserves ?J (Initialize E)"
    unfolding Initialize_def InitializeIARM_def by (intro pres boot sub m)
  with assms show ?thesis by (simp add: preserves_def)
qed

lemma signal_mode: "signal_inv s \<Longrightarrow> signal_inv (after (setMaintenanceMode E p) s)"
  unfolding setMaintenanceMode_def by (simp add: signal_inv_def Let_def)

interpretation sg: kept E signal_inv for E
proof unfold_locales
  show "preserves signal_inv (setMaintenanceMode E par)" for par
    using signal_mode by (simp add: preserves_def)
  show "preserves signal_inv (verdict E)"
    using bits_ok_not_skipped
    by (auto simp: preserves_def verdict_def cycle_result_spec signal_inv_def)
  show "preserves signal_inv (do { SET_TASK_STATUS (task_success_status tk);
      SET_TASK_STATUS (task_complete_status tk) })" for tk
    by (simp add: preserves_def signal_inv_def bits_ok_success mask_set_mono)
qed (auto simp: preserves_def signal_inv_def view_def bits_ok_complete bits_ok_flag mask_set_mono
      start_enter_def joined_def start_leave_def spawn_def status_bit_defs)

lemma deinit_leave_run:
  "run_state (deinit_leave E) s = ((), s\<lparr>tick := Suc (tick s), m_service := False,
     m_authservicePlugin := False,
     instance_alive := (if env_iarm_connected E (tick s) then False else instance_alive s)\<rparr>)"
  by (simp add: deinit_leave_def DeinitializeIARM_def)

lemma signal_step:
  assumes inv: "signal_inv s" and step: "exec_event E e s = Some t"
  shows "signal_inv t"
proof (cases "e = E_Init \<or> e = E_Deinit \<or> e = E_Destroy \<or> e = E_Resume")
  case False
  with sg.kept_step [OF inv step] show ?thesis by blast
next
  case True
  have leave: "signal_inv (after (deinit_leave E) u)" if "signal_inv u" for u
    using that by (simp add: deinit_leave_run signal_inv_def)
  from True show ?thesis
  proof (elim disjE)
    assume "e = E_Init"
    with inv step exec_event_ends(1) show ?thesis by (blast intro: signal_Initialize)
  next
    assume "e = E_Deinit"
    with step exec_event_ends(2) have t: "t = after (deinit_enter E) s" by blast
    have "signal_inv (after (maintenance_deleteTimer E) s)"
      using inv sg.minor_keeps [OF minor_timer(3)] by (simp add: preserves_def)
    moreover have "preserves signal_inv (stop_enter E True)"
      by (rule sg.keeps_stop_enter) (simp add: preserves_def signal_inv_def)
    ultimately show ?thesis
      using t leave by (simp add: deinit_enter_def split_beta preserves_def)
  next
    assume "e = E_Destroy"
    with step exec_event_ends(3) inv show ?thesis by (fastforce simp: destroy_def signal_inv_def)
  next
    assume e: "e = E_Resume"
    with step exec_event_ends(4) have t: "t = after (resume E (status_lock s)) s" by blast
    have stop: "signal_inv (after (do { joined; stop_leave }) u)" if "signal_inv u" for u
      using that sg.join sg.keeps_stop_leave by (simp add: preserves_def split_beta)
    show ?thesis
    proof (cases "status_lock s = C_Stop True \<or> status_lock s = C_Iarm MAINTENANCE_COMPLETE")
      case True
      with t inv leave [OF stop [OF inv]] show ?thesis
        by (auto simp: resume_def iarm_leave_def joined_def signal_inv_def split_beta)
    next
      case False
      with sg.kept_step [OF inv step] e inv show ?thesis by (auto simp: signal_inv_def)
    qed
  qed
qed

lemma signal_initial: "mm_initial s \<Longrightarrow> signal_inv s"
  by (auto simp: mm_initial_def constructed_def signal_inv_def)

interpretation mms: transition_system mm_initial "exec_event E" signal_inv for E
  by unfold_locales (auto intro: signal_initial signal_step)

text \<open>
  What a step can report: unless it is the second half of the IARM handler that has found
  every task successful, it does not report \<open>MAINTENANCE_COMPLETE\<close>.
\<close>

definition silent_on_success :: "Maint_notify_status_t list \<Rightarrow> mm \<Rightarrow> bool" where
  "silent_on_success h s \<longleftrightarrow> notified_of (trace s) = h
     \<or> (notified_of (trace s) \<noteq> [] \<and> hd (notified_of (trace s)) \<noteq> MAINTENANCE_COMPLETE)"

interpretation so: kept E "silent_on_success h" for E h
proof unfold_locales
  show "preserves (silent_on_success h) (setMaintenanceMode E par)" for par
    by (simp add: preserves_def setMaintenanceMode_def silent_on_success_def Let_def)
  show "preserves (silent_on_success h) (verdict E)"
    by (simp add: preserves_def verdict_def cycle_result_spec silent_on_success_def)
qed (auto simp: preserves_def silent_on_success_def view_def start_enter_def joined_def
      start_leave_def spawn_def)

lemma boot_reports:
  "silent_on_success h s \<Longrightarrow> silent_on_success h (after (Initialize E) s)"
proof -
  assume a: "silent_on_success h s"
  have boot: "preserves (silent_on_success h) (maintenanceManagerOnBootup E)"
    by (simp add: preserves_def maintenanceManagerOnBootup_def spawn_def silent_on_success_def)
  have m: "preserves (silent_on_success h) (modify (m_service_update f))"
    "preserves (silent_on_success h) (modify (crashed_update f))"
    "preserves (silent_on_success h) (modify (g_whoami_support_enabled_update f))" for f
    by (simp_all add: preserves_def silent_on_success_def)
  have "preserves (silent_on_success h) (Initialize E)"
    unfolding Initialize_def InitializeIARM_def
    by (intro preserves_bind preserves_whenM preserves_case_option boot m so.minor_keeps pres)
  with a show ?thesis by (simp add: preserves_def)
qed

lemma success_report:
  assumes inv: "signal_inv s" and step: "exec_event E e s = Some t"
    and report: "notified_of (trace t) = MAINTENANCE_COMPLETE # notified_of (trace s)"
  shows "e = E_Resume \<and> status_lock s = C_Iarm MAINTENANCE_COMPLETE"
proof (rule ccontr)
  assume other: "\<not> ?thesis"
  let ?h = "notified_of (trace s)"
  have s: "silent_on_success ?h s" by (simp add: silent_on_success_def)
  have bad: "\<not> silent_on_success ?h t" using report by (simp add: silent_on_success_def)
  consider "e = E_Init" | "e = E_Deinit" | "e = E_Destroy"
    | "e = E_Resume" "status_lock s = C_Stop True"
    using so.kept_step [OF s step] bad other inv by (auto simp: signal_inv_def)
  then show False
  proof cases
    case 1
    with step exec_event_ends(1) boot_reports [OF s] bad show False by blast
  next
    case 2
    with step exec_event_ends(2) have t: "t = after (deinit_enter E) s" by blast
    have leave: "preserves (silent_on_success ?h) (deinit_leave E)"
      by (simp add: preserves_def silent_on_success_def deinit_leave_run)
    have lock: "preserves (silent_on_success ?h) (modify (status_lock_update (\<lambda>_. C_Stop True)))"
      by (simp add: preserves_def silent_on_success_def)
    have "preserves (silent_on_success ?h) (deinit_enter E)"
      unfolding deinit_enter_def
      by (intro preserves_bind preserves_if so.keeps_stop_enter lock leave so.minor_keeps pres)
    with t s bad show False by (simp add: preserves_def)
  next
    case 3
    with step exec_event_ends(3) s bad show False
      by (fastforce simp: destroy_def silent_on_success_def)
  next
    case 4
    with step exec_event_ends(4) have "t = after (resume E (C_Stop True)) s" by fastforce
    then show False
      using report by (simp add: resume_def joined_def stop_leave_def deinit_leave_run)
  qed
qed

text \<open>
  C1: Success is reported only when every task has succeeded. Whatever the plugin has been
  through, an event after which the newest notification is \<open>MAINTENANCE_COMPLETE\<close> leaves a
  bit field in which all three success bits and all three completion bits are set, and
  an execution thread that has been joined.
\<close>

theorem complete_reported_only_after_success:
  assumes "mm_initial s0" and "run_events (exec_event E) es s0 = Some s"
    and "exec_event E e s = Some t"
    and "notified_of (trace t) = MAINTENANCE_COMPLETE # notified_of (trace s)"
  shows "mask_set (g_task_status t) ALL_TASKS_SUCCESS \<and> m_thread t = T_None
    \<and> m_notify_status t = MAINTENANCE_COMPLETE"
proof -
  have inv: "signal_inv s" by (rule mms.reached_invariant [OF assms(1,2)])
  from success_report [OF inv assms(3,4)] have e: "e = E_Resume"
    "status_lock s = C_Iarm MAINTENANCE_COMPLETE" by simp_all
  then have "t = after (resume E (C_Iarm MAINTENANCE_COMPLETE)) s"
    using assms(3) exec_event_ends(4) by fastforce
  with inv e show ?thesis
    by (simp add: resume_def joined_def iarm_leave_def signal_inv_def)
qed

text \<open>
  C11: \<open>MAINTENANCE_INCOMPLETE\<close> is never reported. The skipped flag the IARM handler sets is bit
  7, the mask it tests is bit 9, and no operation sets a bit above 7.
\<close>

theorem incomplete_never_reported:
  assumes "mm_initial s0" and "run_events (exec_event E) es s0 = Some s"
  shows "MAINTENANCE_INCOMPLETE \<notin> set (notified_of (trace s))
    \<and> m_notify_status s \<noteq> MAINTENANCE_INCOMPLETE \<and> bits_ok (g_task_status s)"
  using mms.reached_invariant [OF assms] by (simp add: signal_inv_def)

end
