(* ===== verification/MaintLife.thy ===== *)
theory MaintLife
  imports MaintSafety
begin

text \<open>
  The life of the plugin: no execution thread is started over one that can be joined, and
  the mode and the stored opt-out value are valid while the plugin is in service.
\<close>

subsection \<open>Threads\<close>

text \<open>The plugin between \<open>Initialize\<close> and \<open>Deinitialize\<close>.\<close>

definition powered_event :: "env \<Rightarrow> event \<Rightarrow> mm \<Rightarrow> mm option" where
  "powered_event E e s = (if e = E_Deinit \<or> e = E_Destroy then None else exec_event E e s)"

definition in_service :: "mm \<Rightarrow> bool" where
  "in_service s \<longleftrightarrow> m_service s \<and> instance_alive s \<and> \<not> crashed s \<and> status_lock s \<noteq> C_Stop True"

definition not_yet :: "mm \<Rightarrow> bool" where
  "not_yet s \<longleftrightarrow> \<not> m_service s \<and> instance_alive s \<and> \<not> crashed s \<and> status_lock s = C_None
     \<and> m_thread s = T_None \<and> \<not> timer_armed s \<and> \<not> g_listen_to_nwevents s
     \<and> \<not> g_listen_to_deviceContextUpdate s"

interpretation sv: kept E in_service for E
proof unfold_locales
  show "preserves in_service (setMaintenanceMode E par)" for par
    by (simp add: preserves_def setMaintenanceMode_def in_service_def Let_def)
  show "preserves in_service (verdict E)"
    by (simp add: preserves_def verdict_def cycle_result_spec in_service_def)
qed (auto simp: preserves_def in_service_def view_def start_enter_def joined_def
      start_leave_def spawn_def)

lemma quiet_subscribed: "frame (after (subscribeToDeviceInitializationEvent E) s) = frame s"
  by (rule quietD [OF quiet_subscribeToDeviceInitializationEvent])

lemma Initialize_run:
  assumes "isWhoAmIEnabled E = Some enabled"
  shows "\<exists>u. frame u = frame (s\<lparr>m_service := True, g_whoami_support_enabled := enabled\<rparr>)
    \<and> after (Initialize E) s = (let w = after (InitializeIARM E) u in w\<lparr>tick := Suc (tick w)\<rparr>)"
proof (cases enabled)
  case True
  with assms show ?thesis
    by (intro exI [of _ "after (subscribeToDeviceInitializationEvent E)
        (s\<lparr>m_service := True, g_whoami_support_enabled := enabled\<rparr>)"])
      (simp add: Initialize_def quiet_subscribed split_beta Let_def)
next
  case False
  with assms show ?thesis
    by (intro exI [of _ "s\<lparr>m_service := True, g_whoami_support_enabled := enabled\<rparr>"])
      (simp add: Initialize_def split_beta Let_def)
qed

lemma Initialize_in_service:
  assumes "not_yet s" and "isWhoAmIEnabled E \<noteq> None"
  shows "in_service (after (Initialize E) s)"
proof -
  obtain enabled where "isWhoAmIEnabled E = Some enabled" using assms(2) by blast
  from Initialize_run [OF this, of s] obtain u
    where u: "frame u = frame (s\<lparr>m_service := True, g_whoami_support_enabled := enabled\<rparr>)"
      "after (Initialize E) s = (let w = after (InitializeIARM E) u in w\<lparr>tick := Suc (tick w)\<rparr>)"
    by blast
  have "m_service u" "instance_alive u" "\<not> crashed u" "status_lock u = C_None" "m_thread u = T_None"
    using assms(1) frame_fields [OF u(1)] by (simp_all add: not_yet_def)
  then show ?thesis
    by (simp add: u(2) Let_def InitializeIARM_def maintenanceManagerOnBootup_def spawn_def in_service_def)
qed

text \<open>What can happen before \<open>Initialize\<close> changes nothing.\<close>

lemma not_yet_step:
  assumes "not_yet s" and "exec_event E e s = Some t" and "e \<noteq> E_Init" and "e \<noteq> E_Destroy"
  shows "t = s"
proof -
  have nw: "after (internetStatusChangeEventHandler E st n) s = s" for st n
    using assms(1)
    by (cases st; cases n) (simp_all add: internetStatusChangeEventHandler_def not_yet_def)
  have cx: "after (deviceInitializationContextEventHandler E c) s = s" for c
    using assms(1) by (simp add: deviceInitializationContextEventHandler_def not_yet_def)
  show ?thesis
    using assms nw cx
    by (cases e) (auto simp: exec_event_def not_yet_def thread_step_def spurious_wake_def
        split: if_splits)
qed

definition powered_inv :: "mm \<Rightarrow> bool" where
  "powered_inv s \<longleftrightarrow> in_service s \<or> not_yet s"

lemma powered_step:
  assumes "isWhoAmIEnabled E \<noteq> None" and "powered_inv s" and "powered_event E e s = Some t"
  shows "powered_inv t"
proof -
  from assms(3) have e: "e \<noteq> E_Deinit" "e \<noteq> E_Destroy" "exec_event E e s = Some t"
    by (auto simp: powered_event_def split: if_splits)
  from assms(2) consider "in_service s" | "not_yet s" by (auto simp: powered_inv_def)
  then show ?thesis
  proof cases
    case 1
    have init: "e \<noteq> E_Init" using exec_event_ends(1) [of E s t] e(3) 1 by (auto simp: in_service_def)
    have "in_service t"
    proof (cases "e = E_Resume \<and> (status_lock s = C_Iarm MAINTENANCE_COMPLETE
        \<or> status_lock s = C_Iarm MAINTENANCE_INCOMPLETE)")
      case True
      with e(3) exec_event_ends(4) have "t = after (resume E (status_lock s)) s" by blast
      with True 1 show ?thesis by (auto simp: resume_def joined_def iarm_leave_def in_service_def)
    next
      case False
      with sv.kept_step [OF 1 e(3) init e(1,2)] 1 show ?thesis by (auto simp: in_service_def)
    qed
    then show ?thesis by (simp add: powered_inv_def)
  next
    case 2
    show ?thesis
    proof (cases "e = E_Init")
      case True
      with e(3) exec_event_ends(1) have "t = after (Initialize E) s" by blast
      with Initialize_in_service [OF 2 assms(1)] show ?thesis by (simp add: powered_inv_def)
    next
      case False
      from not_yet_step [OF 2 e(3) False e(2)] 2 show ?thesis by (simp add: powered_inv_def)
    qed
  qed
qed

lemma powered_initial: "mm_initial s \<Longrightarrow> powered_inv s"
  by (auto simp: mm_initial_def constructed_def powered_inv_def not_yet_def)

text \<open>
  The transition system needs its step to keep the invariant whatever the property file
  holds, so the case of a property that refers to itself is a step that is not taken.
\<close>

definition booting_event :: "env \<Rightarrow> event \<Rightarrow> mm \<Rightarrow> mm option" where
  "booting_event E e s = (if isWhoAmIEnabled E = None then None else powered_event E e s)"

interpretation pw: transition_system mm_initial "booting_event E" powered_inv for E
  by unfold_locales
    (auto intro: powered_initial powered_step simp: booting_event_def split: if_splits)

text \<open>
  C4: The program is never ended by an assignment over a joinable \<open>std::thread\<close>: between
  \<open>Initialize\<close> and \<open>Deinitialize\<close>, in any order of API calls, events, signals and thread
  steps, a new execution thread is started only where none can be joined.
\<close>

theorem thread_never_overwritten:
  assumes "isWhoAmIEnabled E \<noteq> None" and "mm_initial s0"
    and "run_events (powered_event E) es s0 = Some s"
  shows "\<not> crashed s"
proof -
  have "booting_event E = powered_event E" using assms(1) by (auto simp: booting_event_def fun_eq_iff)
  with pw.reached_invariant [OF assms(2), of E es s] assms(3)
  show ?thesis by (auto simp: powered_inv_def in_service_def not_yet_def)
qed

subsection \<open>Mode and opt-out\<close>

text \<open>
  What the environment has to do for \<open>Initialize\<close> to reach \<open>maintenanceManagerOnBootup\<close>,
  and a settings library that meets its laws.
\<close>

definition env_boots :: "env \<Rightarrow> bool" where
  "env_boots E \<longleftrightarrow> json_lib_ok (env_json E) \<and> isWhoAmIEnabled E \<noteq> None \<and> (\<forall>n. env_iarm_init E n)"

definition mode_valid :: "mm \<Rightarrow> bool" where
  "mode_valid s \<longleftrightarrow> g_currentMode s \<in> {FOREGROUND_MODE, BACKGROUND_MODE}
     \<and> checkValidOptOutModes (getValue (m_setting s) ''softwareoptout'')"

definition mode_inv :: "env \<Rightarrow> mm \<Rightarrow> bool" where
  "mode_inv E s \<longleftrightarrow> settings_ok (env_json E) (m_setting s) \<and> (m_service s \<longrightarrow> mode_valid s)"

lemma mode_keeps_mode:
  assumes "mode_inv E s"
  shows "mode_inv E (after (setMaintenanceMode E p) s)"
proof -
  have ok: "settings_ok (env_json E) (m_setting s)" using assms by (simp add: mode_inv_def)
  note rules = cs.replace_get [OF ok] cs.replace_ok [OF ok] cs.get_set [OF ok] cs.ok_set [OF ok]
    cs.get_set [OF cs.replace_ok [OF ok]] cs.ok_set [OF cs.replace_ok [OF ok]]
  show ?thesis
    using assms
    by (simp add: setMaintenanceMode_def mode_inv_def mode_valid_def Let_def rules)
qed

lemma verdict_keeps_mode:
  assumes "mode_inv E s"
  shows "mode_inv E (after (verdict E) s)"
proof -
  have ok: "settings_ok (env_json E) (m_setting s)" using assms by (simp add: mode_inv_def)
  show ?thesis
    using assms
    by (simp add: verdict_def cycle_result_spec mode_inv_def mode_valid_def
        cs.replace_get [OF ok] cs.replace_ok [OF ok])
qed

interpretation mo: kept E "mode_inv E" for E
proof unfold_locales
  show "preserves (mode_inv E) (setMaintenanceMode E par)" for par
    by (intro preservesI mode_keeps_mode)
  show "preserves (mode_inv E) (verdict E)"
    by (intro preservesI verdict_keeps_mode)
qed (auto simp: preserves_def mode_inv_def mode_valid_def view_def start_enter_def joined_def
      start_leave_def spawn_def)

lemma modes_differ: "FOREGROUND_MODE \<noteq> [] \<and> BACKGROUND_MODE \<noteq> []"
  by (simp add: FOREGROUND_MODE_def BACKGROUND_MODE_def)

lemma boot_mode:
  assumes ok: "settings_ok (env_json E) (m_setting s)"
  shows "settings_ok (env_json E) (m_setting (after (maintenanceManagerOnBootup E) s))
       \<and> mode_valid (after (maintenanceManagerOnBootup E) s)"
  by (simp add: maintenanceManagerOnBootup_def spawn_def mode_valid_def ok cs.replace_get [OF ok]
      cs.replace_ok [OF ok] checkValidOptOutModes_def OptOutModes_def)

lemma Initialize_mode:
  assumes "env_boots E" and "mode_inv E s"
  shows "mode_inv E (after (Initialize E) s)"
proof -
  obtain enabled where "isWhoAmIEnabled E = Some enabled" using assms(1) by (auto simp: env_boots_def)
  from Initialize_run [OF this, of s] obtain u
    where u: "frame u = frame (s\<lparr>m_service := True, g_whoami_support_enabled := enabled\<rparr>)"
      "after (Initialize E) s = (let w = after (InitializeIARM E) u in w\<lparr>tick := Suc (tick w)\<rparr>)"
    by blast
  have "settings_ok (env_json E) (m_setting (u\<lparr>tick := Suc (tick u)\<rparr>))"
    using assms(2) frame_fields [OF u(1)] by (simp add: mode_inv_def)
  from boot_mode [OF this] assms(1)
  show ?thesis by (simp add: u(2) Let_def InitializeIARM_def env_boots_def mode_inv_def mode_valid_def)
qed

lemma mode_step:
  assumes boots: "env_boots E" and inv: "mode_inv E s" and step: "exec_event E e s = Some t"
  shows "mode_inv E t"
proof -
  have leave: "mode_inv E (after (deinit_leave E) u)" if "mode_inv E u" for u
    using that by (simp add: deinit_leave_run mode_inv_def)
  have lock: "preserves (mode_inv E) (modify (status_lock_update (\<lambda>_. C_Stop True)))"
    by (simp add: preserves_def mode_inv_def mode_valid_def)
  consider "e = E_Init" | "e = E_Deinit" | "e = E_Destroy"
    | "e = E_Resume" "status_lock s = C_Stop True"
    | "e = E_Resume" "\<exists>st. status_lock s = C_Iarm st" | "mode_inv E t"
    using mo.kept_step [OF inv step] by blast
  then show ?thesis
  proof cases
    case 1
    with step exec_event_ends(1) inv Initialize_mode [OF boots] show ?thesis by blast
  next
    case 2
    with step exec_event_ends(2) have t: "t = after (deinit_enter E) s" by blast
    have "preserves (mode_inv E) (deinit_enter E)"
      unfolding deinit_enter_def
      by (intro preserves_bind preserves_if mo.keeps_stop_enter lock preservesI leave mo.minor_keeps pres)
    with t inv show ?thesis by (simp add: preserves_def)
  next
    case 3
    with step exec_event_ends(3) inv show ?thesis
      by (fastforce simp: destroy_def mode_inv_def mode_valid_def)
  next
    case 4
    with step exec_event_ends(4) have t: "t = after (resume E (C_Stop True)) s" by fastforce
    have "mode_inv E (after (do { joined; stop_leave }) s)"
      using inv mo.join mo.keeps_stop_leave by (simp add: preserves_def split_beta)
    with t leave show ?thesis by (simp add: resume_def split_beta)
  next
    case 5
    with step exec_event_ends(4) inv show ?thesis
      by (fastforce simp: resume_def joined_def iarm_leave_def mode_inv_def mode_valid_def)
  qed
qed

end
