(* ===== verification/MaintCycle.thy ===== *)
theory MaintCycle
  imports MaintLife
begin

text \<open>
  What a maintenance cycle does from its start to its report, on a device where the calls
  succeed, and what becomes of a task whose script cannot be run.
\<close>

subsection \<open>Single steps\<close>

definition live :: "mm \<Rightarrow> bool" where
  "live s \<longleftrightarrow> \<not> crashed s \<and> \<not> destroyed s \<and> m_service s \<and> instance_alive s"

definition timer_works :: "env \<Rightarrow> bool" where
  "timer_works E \<longleftrightarrow> (\<forall>n. env_timer_create E n) \<and> (\<forall>n k. env_timer_settime E n k)"

lemma start_timer_works:
  "timer_works E \<Longrightarrow> run_state (task_startTimer E) s =
     (True, s\<lparr>tick := (if g_task_timerCreated s then Suc (tick s) else Suc (Suc (tick s))), g_task_timerCreated := True, timer_armed := True\<rparr>)"
  by (simp add: timer_works_def task_startTimer_def maintenance_initTimer_def timer_run_simps
      TASK_TIMEOUT_def Let_def)

lemma stop_timer_works:
  "timer_works E \<Longrightarrow> g_task_timerCreated s \<Longrightarrow> run_state (task_stopTimer E) s =
     (True, s\<lparr>tick := Suc (tick s), timer_armed := False\<rparr>)"
  by (simp add: timer_works_def task_stopTimer_def timer_run_simps)

lemma exec_thread: "live s \<Longrightarrow> exec_event E E_Thread s = thread_step E s"
  by (simp add: live_def exec_event_def)

text \<open>The first attempt at a task whose script starts.\<close>

lemma invoke_step:
  assumes "live s" and "timer_works E" and "m_thread s = T_Loop i TASK_RETRY_COUNT b"
    and "i < length (tasks s)" and "\<not> m_abort_flag s" and "\<And>n. env_system E n (tasks s ! i @ '' &'') = 0"
  shows "\<exists>n. exec_event E E_Thread s = Some (s\<lparr>currentTask := tasks s ! i, g_task_timerCreated := True,
    timer_armed := True, m_task_map := (m_task_map s)(tasks s ! i \<mapsto> True),
    trace := Ran (tasks s ! i @ '' &'') # trace s, tick := n, m_thread := T_Invoked i\<rparr>)"
  using assms
  by (simp add: exec_thread thread_step_def thread_loop_def run_task_def start_timer_works Let_def;
      cases s; auto)

text \<open>
  The attempts at a task whose script fails: the first leaves a retry, the second marks
  the task complete without success and goes on.
\<close>

lemma failed_first:
  assumes "live s" and "timer_works E" and "m_thread s = T_Loop i TASK_RETRY_COUNT b"
    and "i < length (tasks s)" and "\<not> m_abort_flag s" and "\<And>n. env_system E n (tasks s ! i @ '' &'') \<noteq> 0"
  shows "\<exists>n. exec_event E E_Thread s = Some (s\<lparr>currentTask := tasks s ! i, g_task_timerCreated := True,
    timer_armed := True, m_task_map := (m_task_map s)(tasks s ! i \<mapsto> False),
    trace := Ran (tasks s ! i @ '' &'') # trace s, tick := n, m_thread := T_Loop i 0 True\<rparr>)"
  using assms
  by (simp add: exec_thread thread_step_def thread_loop_def run_task_def start_timer_works Let_def
      TASK_RETRY_COUNT_def; cases s; auto)

lemma failed_second:
  assumes "live s" and "timer_works E" and "m_thread s = T_Loop i 0 True" and "g_task_timerCreated s"
    and "i < length (tasks s)" and "\<not> m_abort_flag s" and "\<And>n. env_system E n (tasks s ! i @ '' &'') \<noteq> 0"
    and "tasks s ! i = task_names_foreground t"
  shows "\<exists>n. exec_event E E_Thread s = Some (s\<lparr>currentTask := tasks s ! i,
    timer_armed := False, m_task_map := (m_task_map s)(tasks s ! i \<mapsto> False),
    g_task_status := SET_STATUS (g_task_status s) (task_complete_status t),
    trace := Ran (tasks s ! i @ '' &'') # trace s, tick := n,
    m_thread := T_Loop (Suc i) TASK_RETRY_COUNT True\<rparr>)"
  using assms
  by (simp add: exec_thread thread_step_def thread_loop_def run_task_def task_failed_def Let_def
      stop_timer_works TASK_RETRY_COUNT_def; cases s; auto)

subsection \<open>One task from its start to its completion\<close>

definition complete_module :: "TaskIndices \<Rightarrow> IARM_Maint_module_status_t" where
  "complete_module t = (case t of TASK_RFC \<Rightarrow> MAINT_RFC_COMPLETE
     | TASK_SWUPDATE \<Rightarrow> MAINT_FWDOWNLOAD_COMPLETE | TASK_LOGUPLOAD \<Rightarrow> MAINT_LOGUPLOAD_COMPLETE)"

definition completion :: "env \<Rightarrow> TaskIndices \<Rightarrow> event" where
  "completion E t = E_Iarm (env_iarm_name E) (env_event_update E) (complete_module t)"

lemma module_event_complete: "module_event (complete_module t) = task_complete_event t"
  by (cases t) (simp_all add: complete_module_def module_event_def)

abbreviation task_done_bits :: "u16 \<Rightarrow> TaskIndices \<Rightarrow> u16" where
  "task_done_bits v t \<equiv> SET_STATUS (SET_STATUS v (task_success_status t)) (task_complete_status t)"

lemma wait_step:
  "live s \<Longrightarrow> m_thread s = T_Invoked i \<Longrightarrow>
     exec_event E E_Thread s = Some (s\<lparr>m_thread := T_Wait i False\<rparr>)"
  by (simp add: exec_thread thread_step_def)

lemma completion_step:
  assumes "live s" and "status_lock s = C_None" and "m_notify_status s = MAINTENANCE_STARTED"
    and "\<not> m_abort_flag s" and "m_task_map s (task_names_foreground t) = Some True"
    and "m_thread s = T_Wait i False"
  shows "exec_event E (completion E t) s = Some (after (verdict E)
    (s\<lparr>g_task_status := task_done_bits (g_task_status s) t, m_thread := T_Wait i True,
      m_task_map := (m_task_map s)(task_names_foreground t \<mapsto> False)\<rparr>))"
  using assms
  by (simp add: completion_def exec_event_def live_def status_mutex_free_def iarm_enter_split
      module_event_complete task_complete_event_def ignores_event_def notify_thread_def)

lemma woken_step:
  assumes "live s" and "timer_works E" and "g_task_timerCreated s" and "m_thread s = T_Wait i True"
  shows "exec_event E E_Thread s = Some (s\<lparr>tick := Suc (tick s), timer_armed := False,
    m_thread := T_Loop (Suc i) TASK_RETRY_COUNT True\<rparr>)"
  using assms by (simp add: exec_thread thread_step_def thread_after_wait_def stop_timer_works)

lemma loop_end_step:
  assumes "live s" and "m_thread s = T_Loop i rc b" and "length (tasks s) \<le> i" and "\<not> m_abort_flag s"
  shows "exec_event E E_Thread s = Some (s\<lparr>m_thread := T_Done\<rparr>)"
  using assms by (simp add: exec_thread thread_step_def thread_loop_def thread_finish_def)

lemma report_step:
  assumes "live s" and "status_lock s = C_Iarm st" and "m_thread s = T_Done"
  shows "exec_event E E_Resume s = Some (s\<lparr>m_thread := T_None, status_lock := C_None,
    g_unsolicited_complete := (g_unsolicited_complete s \<or> g_maintenance_type s = UNSOLICITED_MAINTENANCE),
    m_notify_status := st, trace := Notified st # trace s\<rparr>)"
  using assms
  by (simp add: exec_event_def live_def thread_ended_def resume_def joined_def iarm_leave_def)

text \<open>The cycle stands at its i-th task.\<close>

definition ready :: "nat \<Rightarrow> u16 \<Rightarrow> Maint_notify_status_t list \<Rightarrow> csettings \<Rightarrow> Maintenance_Type_t \<times> bool \<Rightarrow> mm \<Rightarrow> bool" where
  "ready i v h c ty s \<longleftrightarrow> live s \<and> status_lock s = C_None \<and> m_notify_status s = MAINTENANCE_STARTED
     \<and> \<not> m_abort_flag s \<and> (\<exists>b. m_thread s = T_Loop i TASK_RETRY_COUNT b)
     \<and> tasks s = map task_names_foreground all_tasks \<and> g_task_status s = v
     \<and> notified_of (trace s) = h \<and> m_setting s = c \<and> (g_maintenance_type s, g_unsolicited_complete s) = ty"

definition commands_start :: "env \<Rightarrow> bool" where
  "commands_start E \<longleftrightarrow> timer_works E \<and> (\<forall>n c. env_system E n c = 0)"

text \<open>The events of one task: its script starts, it reports completion, the thread goes on.\<close>

definition task_round :: "env \<Rightarrow> TaskIndices \<Rightarrow> event list" where
  "task_round E t = [E_Thread, E_Thread, completion E t, E_Thread]"

lemma task_round_run:
  assumes works: "commands_start E" and r: "ready i v h c ty s" and i: "i < 3"
  shows "\<exists>u. run_events (exec_event E) [E_Thread, E_Thread] s = Some u \<and> live u
    \<and> status_lock u = C_None \<and> m_notify_status u = MAINTENANCE_STARTED \<and> \<not> m_abort_flag u
    \<and> m_task_map u (task_names_foreground (all_tasks ! i)) = Some True \<and> m_thread u = T_Wait i False
    \<and> g_task_timerCreated u \<and> tasks u = map task_names_foreground all_tasks \<and> g_task_status u = v
    \<and> notified_of (trace u) = h \<and> m_setting u = c \<and> (g_maintenance_type u, g_unsolicited_complete u) = ty"
proof -
  have i': "i < length (tasks s)" "tasks s ! i = task_names_foreground (all_tasks ! i)"
    using r i by (simp_all add: ready_def all_tasks_def nth_Cons split: nat.split)
  from r obtain b where "m_thread s = T_Loop i TASK_RETRY_COUNT b" by (auto simp: ready_def)
  then have "\<exists>n. exec_event E E_Thread s = Some (s\<lparr>currentTask := tasks s ! i, g_task_timerCreated := True,
      timer_armed := True, m_task_map := (m_task_map s)(tasks s ! i \<mapsto> True),
      trace := Ran (tasks s ! i @ '' &'') # trace s, tick := n, m_thread := T_Invoked i\<rparr>)"
    using invoke_step [of s E i b] works r i'(1) by (simp add: ready_def commands_start_def)
  then obtain n where
    "exec_event E E_Thread s = Some (s\<lparr>currentTask := tasks s ! i, g_task_timerCreated := True,
      timer_armed := True, m_task_map := (m_task_map s)(tasks s ! i \<mapsto> True),
      trace := Ran (tasks s ! i @ '' &'') # trace s, tick := n, m_thread := T_Invoked i\<rparr>)" by blast
  with r i'(2) show ?thesis
    by (simp add: wait_step live_def ready_def)
qed

lemma task_round_more:
  assumes works: "commands_start E" and r: "ready i v h c ty s" and i: "i < 3"
    and bits: "\<not> mask_set (task_done_bits v (all_tasks ! i)) TASKS_COMPLETED"
  shows "\<exists>u. run_events (exec_event E) (task_round E (all_tasks ! i)) s = Some u
    \<and> ready (Suc i) (task_done_bits v (all_tasks ! i)) h c ty u"
proof -
  from task_round_run [OF works r i] obtain u where
    u: "run_events (exec_event E) [E_Thread, E_Thread] s = Some u" "live u" "status_lock u = C_None"
      "m_notify_status u = MAINTENANCE_STARTED" "\<not> m_abort_flag u"
      "m_task_map u (task_names_foreground (all_tasks ! i)) = Some True" "m_thread u = T_Wait i False"
      "g_task_timerCreated u" "tasks u = map task_names_foreground all_tasks" "g_task_status u = v"
      "notified_of (trace u) = h" "m_setting u = c" "(g_maintenance_type u, g_unsolicited_complete u) = ty" by blast
  let ?t = "all_tasks ! i"
  let ?a = "u\<lparr>g_task_status := task_done_bits (g_task_status u) ?t, m_thread := T_Wait i True,
      m_task_map := (m_task_map u)(task_names_foreground ?t \<mapsto> False)\<rparr>"
  have 1: "exec_event E (completion E ?t) u = Some ?a"
    using completion_step [OF u(2-7)] bits u(10) by (simp add: verdict_def cycle_result_spec)
  have 2: "exec_event E E_Thread ?a = Some (?a\<lparr>tick := Suc (tick ?a), timer_armed := False,
      m_thread := T_Loop (Suc i) TASK_RETRY_COUNT True\<rparr>)" (is "_ = Some ?b")
    by (rule woken_step) (use u(2,8) works in \<open>simp_all add: live_def commands_start_def\<close>)
  have "run_events (exec_event E) (task_round E ?t) s = Some ?b"
    using run_events_then [OF u(1), of "[completion E ?t, E_Thread]"]
    by (simp only: task_round_def append.simps run_events.simps option.case 1 2)
  moreover have "ready (Suc i) (task_done_bits v ?t) h c ty ?b"
    using u(2-13) by (auto simp: ready_def live_def)
  ultimately show ?thesis by blast
qed

lemma task_round_last:
  assumes works: "commands_start E" and r: "ready 2 v h c ty s"
    and bits: "mask_set (task_done_bits v TASK_LOGUPLOAD) TASKS_COMPLETED"
      "mask_set (task_done_bits v TASK_LOGUPLOAD) ALL_TASKS_SUCCESS"
  shows "\<exists>u n c'. run_events (exec_event E) (task_round E TASK_LOGUPLOAD @ [E_Thread]) s = Some c'
    \<and> notified_of (trace c') = h \<and> exec_event E E_Resume c' = Some u
    \<and> live u \<and> m_thread u = T_None \<and> status_lock u = C_None \<and> m_notify_status u = MAINTENANCE_COMPLETE
    \<and> notified_of (trace u) = MAINTENANCE_COMPLETE # h
    \<and> m_setting u = snd (setValue (env_json E) ''LastSuccessfulCompletionTime''
        (to_string (env_time E n)) (snd (remove (env_json E) ''LastSuccessfulCompletionTime'' c)))
    \<and> (fst ty = UNSOLICITED_MAINTENANCE \<or> snd ty \<longrightarrow> g_unsolicited_complete u) \<and> \<not> timer_armed u"
proof -
  have t: "all_tasks ! 2 = TASK_LOGUPLOAD" by (simp add: all_tasks_def)
  from task_round_run [OF works r] t obtain u where
    u: "run_events (exec_event E) [E_Thread, E_Thread] s = Some u" "live u" "status_lock u = C_None"
      "m_notify_status u = MAINTENANCE_STARTED" "\<not> m_abort_flag u"
      "m_task_map u (task_names_foreground TASK_LOGUPLOAD) = Some True" "m_thread u = T_Wait 2 False"
      "g_task_timerCreated u" "tasks u = map task_names_foreground all_tasks" "g_task_status u = v"
      "notified_of (trace u) = h" "m_setting u = c" "(g_maintenance_type u, g_unsolicited_complete u) = ty" by auto
  let ?t = TASK_LOGUPLOAD
  let ?a = "u\<lparr>g_task_status := task_done_bits (g_task_status u) ?t, m_thread := T_Wait 2 True,
      m_task_map := (m_task_map u)(task_names_foreground ?t \<mapsto> False), tick := Suc (tick u),
      m_setting := snd (setValue (env_json E) ''LastSuccessfulCompletionTime''
        (to_string (env_time E (tick u))) (snd (remove (env_json E) ''LastSuccessfulCompletionTime'' c))),
      status_lock := C_Iarm MAINTENANCE_COMPLETE\<rparr>"
  let ?b = "?a\<lparr>tick := Suc (tick ?a), timer_armed := False, m_thread := T_Loop (Suc 2) TASK_RETRY_COUNT True\<rparr>"
  have 1: "exec_event E (completion E ?t) u = Some ?a"
    using completion_step [OF u(2-7)] bits u(10,12) by (simp add: verdict_def cycle_result_spec)
  have 2: "exec_event E E_Thread ?a = Some ?b"
    by (rule woken_step) (use u(2,8) works in \<open>simp_all add: live_def commands_start_def\<close>)
  have 3: "exec_event E E_Thread ?b = Some (?b\<lparr>m_thread := T_Done\<rparr>)" (is "_ = Some ?c")
  proof (rule loop_end_step)
    have "length (tasks u) = 3" by (simp add: u(9) all_tasks_def)
    then show "length (tasks ?b) \<le> Suc 2" by simp
  qed (use u(2,5) in \<open>simp_all add: live_def\<close>)
  have 4: "exec_event E E_Resume ?c = Some (?c\<lparr>m_thread := T_None, status_lock := C_None,
      g_unsolicited_complete := (g_unsolicited_complete ?c \<or> g_maintenance_type ?c = UNSOLICITED_MAINTENANCE),
      m_notify_status := MAINTENANCE_COMPLETE, trace := Notified MAINTENANCE_COMPLETE # trace ?c\<rparr>)"
    (is "_ = Some ?d")
    by (rule report_step) (use u(2) in \<open>simp_all add: live_def\<close>)
  have "run_events (exec_event E) (task_round E ?t @ [E_Thread]) s = Some ?c"
    using run_events_then [OF u(1), of "[completion E ?t, E_Thread, E_Thread]"]
    by (simp only: task_round_def append.simps option.case run_events.simps 1 2 3)
  moreover have "live ?d" using u(2) by (simp add: live_def)
  ultimately show ?thesis using u by (intro exI [of _ ?d] exI [of _ "tick u"] exI [of _ ?c])
      (use 4 in \<open>auto simp del: run_events.simps\<close>)
qed

subsection \<open>From the start of the thread to the first task\<close>

definition device_online :: "env \<Rightarrow> bool" where
  "device_online E \<longleftrightarrow> (\<forall>n. env_service_state E n ''org.rdk.Network'' = Some PLUGIN_ACTIVATED)
     \<and> (\<forall>n l. env_connected E n l = (0, Some True))"

lemma online: "device_online E \<Longrightarrow> result_of (isDeviceOnline E) s"
  by (simp add: isDeviceOnline_def checkNetwork_def service_active_def getServiceState_def
      device_online_def split_beta getThunderPluginHandle_def)

lemma begin_step:
  assumes "live s" and "status_lock s = C_None" and "m_thread s = T_Begin" and "\<not> delays_started s"
  shows "exec_event E E_Thread s = Some (s\<lparr>m_notify_status := MAINTENANCE_STARTED,
    trace := Notified MAINTENANCE_STARTED # trace s, tasks := [], m_thread := T_Checks False\<rparr>)"
  using assms by (simp add: exec_thread thread_step_def thread_begin_def status_mutex_free_def)

lemma checks_step:
  assumes "live s" and "device_online E" and "m_thread s = T_Checks d"
    and "\<not> g_whoami_support_enabled s" and "\<not> g_suppress_maintenance_enabled s"
  shows "exec_event E E_Thread s = Some ((after (isDeviceOnline E) s)\<lparr>m_thread := T_Proceed d False\<rparr>)"
  using assms online [OF assms(2), of s]
  by (simp add: exec_thread thread_step_def thread_checks_def split_beta Let_def)

lemma proceed_step:
  assumes "live s" and "m_thread s = T_Proceed False False" and "\<not> g_suppress_maintenance_enabled s"
  shows "exec_event E E_Thread s = Some (s\<lparr>tasks := tasks s @ map task_names_foreground all_tasks,
    m_thread := T_Loop 0 TASK_RETRY_COUNT False\<rparr>)"
  using assms by (simp add: exec_thread thread_step_def thread_proceed_def all_tasks_def)

lemma reach_first_task:
  assumes on: "device_online E" and live: "live s" and "status_lock s = C_None"
    and "m_thread s = T_Begin" and "\<not> g_whoami_support_enabled s"
    and "\<not> g_suppress_maintenance_enabled s" and "\<not> m_abort_flag s"
  shows "\<exists>u. run_events (exec_event E) [E_Thread, E_Thread, E_Thread] s = Some u
    \<and> ready 0 (g_task_status s) (MAINTENANCE_STARTED # notified_of (trace s)) (m_setting s)
        (g_maintenance_type s, g_unsolicited_complete s) u"
proof -
  let ?a = "s\<lparr>m_notify_status := MAINTENANCE_STARTED, trace := Notified MAINTENANCE_STARTED # trace s,
    tasks := [], m_thread := T_Checks False\<rparr>"
  have 1: "exec_event E E_Thread s = Some ?a"
    by (rule begin_step) (use assms in \<open>simp_all add: delays_started_def\<close>)
  let ?b = "(after (isDeviceOnline E) ?a)\<lparr>m_thread := T_Proceed False False\<rparr>"
  have 2: "exec_event E E_Thread ?a = Some ?b"
    by (rule checks_step [OF _ on]) (use assms in \<open>simp_all add: live_def\<close>)
  note f = quiet_fields [OF quiet_isDeviceOnline, of E ?a]
  let ?c = "?b\<lparr>tasks := tasks ?b @ map task_names_foreground all_tasks,
    m_thread := T_Loop 0 TASK_RETRY_COUNT False\<rparr>"
  have 3: "exec_event E E_Thread ?b = Some ?c"
    by (rule proceed_step) (use assms f in \<open>simp_all add: live_def\<close>)
  have "ready 0 (g_task_status s) (MAINTENANCE_STARTED # notified_of (trace s)) (m_setting s)
      (g_maintenance_type s, g_unsolicited_complete s) ?c"
    using assms f by (auto simp: ready_def live_def)
  then show ?thesis by (simp only: run_events.simps 1 2 3 option.case) blast
qed

subsection \<open>A whole cycle\<close>

definition cycle_tasks :: "env \<Rightarrow> event list" where
  "cycle_tasks E = [E_Thread, E_Thread, E_Thread] @ task_round E TASK_RFC
     @ task_round E TASK_SWUPDATE @ task_round E TASK_LOGUPLOAD @ [E_Thread]"

definition cycle_events :: "env \<Rightarrow> event list" where
  "cycle_events E = cycle_tasks E @ [E_Resume]"

lemma cycle_bits:
  "\<not> mask_set (task_done_bits 0 TASK_RFC) TASKS_COMPLETED"
  "\<not> mask_set (task_done_bits (task_done_bits 0 TASK_RFC) TASK_SWUPDATE) TASKS_COMPLETED"
  "mask_set (task_done_bits (task_done_bits (task_done_bits 0 TASK_RFC) TASK_SWUPDATE) TASK_LOGUPLOAD) TASKS_COMPLETED"
  "mask_set (task_done_bits (task_done_bits (task_done_bits 0 TASK_RFC) TASK_SWUPDATE) TASK_LOGUPLOAD) ALL_TASKS_SUCCESS"
  by (simp_all add: tasks_completed_iff all_tasks_success_iff bit_SET_STATUS task_success_status_def
      task_complete_status_def status_bit_defs)

lemma cycle_run_report:
  assumes works: "commands_start E" and on: "device_online E" and live: "live s"
    and "status_lock s = C_None" and "m_thread s = T_Begin" and "\<not> g_whoami_support_enabled s"
    and "\<not> g_suppress_maintenance_enabled s" and "\<not> m_abort_flag s" and "g_task_status s = 0"
  shows "\<exists>u n c. run_events (exec_event E) (cycle_tasks E) s = Some c
    \<and> notified_of (trace c) = MAINTENANCE_STARTED # notified_of (trace s)
    \<and> exec_event E E_Resume c = Some u
    \<and> live u \<and> m_thread u = T_None \<and> status_lock u = C_None \<and> m_notify_status u = MAINTENANCE_COMPLETE
    \<and> notified_of (trace u) = [MAINTENANCE_COMPLETE, MAINTENANCE_STARTED] @ notified_of (trace s)
    \<and> m_setting u = snd (setValue (env_json E) ''LastSuccessfulCompletionTime''
        (to_string (env_time E n)) (snd (remove (env_json E) ''LastSuccessfulCompletionTime'' (m_setting s))))
    \<and> (g_maintenance_type s = UNSOLICITED_MAINTENANCE \<or> g_unsolicited_complete s \<longrightarrow> g_unsolicited_complete u) \<and> \<not> timer_armed u"
proof -
  let ?h = "MAINTENANCE_STARTED # notified_of (trace s)"
  from reach_first_task [OF on live] assms obtain u0
    where u0: "run_events (exec_event E) [E_Thread, E_Thread, E_Thread] s = Some u0"
      "ready 0 0 ?h (m_setting s) (g_maintenance_type s, g_unsolicited_complete s) u0" by auto
  have t: "all_tasks ! 0 = TASK_RFC" "all_tasks ! Suc 0 = TASK_SWUPDATE" by (simp_all add: all_tasks_def)
  from task_round_more [OF works u0(2)] t cycle_bits(1) obtain u1
    where u1: "run_events (exec_event E) (task_round E TASK_RFC) u0 = Some u1"
      "ready (Suc 0) (task_done_bits 0 TASK_RFC) ?h (m_setting s) (g_maintenance_type s, g_unsolicited_complete s) u1" by auto
  from task_round_more [OF works u1(2)] t cycle_bits(2) obtain u2
    where u2: "run_events (exec_event E) (task_round E TASK_SWUPDATE) u1 = Some u2"
      "ready (Suc (Suc 0)) (task_done_bits (task_done_bits 0 TASK_RFC) TASK_SWUPDATE) ?h
         (m_setting s) (g_maintenance_type s, g_unsolicited_complete s) u2" by auto
  from task_round_last [OF works u2(2) [folded numeral_2_eq_2] cycle_bits(3,4)] show ?thesis
    unfolding cycle_tasks_def run_events_then [OF u0(1)] run_events_then [OF u1(1)]
      run_events_then [OF u2(1)] by simp
qed

lemma cycle_run:
  assumes "commands_start E" and "device_online E" and "live s"
    and "status_lock s = C_None" and "m_thread s = T_Begin" and "\<not> g_whoami_support_enabled s"
    and "\<not> g_suppress_maintenance_enabled s" and "\<not> m_abort_flag s" and "g_task_status s = 0"
  shows "\<exists>u n. run_events (exec_event E) (cycle_events E) s = Some u
    \<and> live u \<and> m_thread u = T_None \<and> status_lock u = C_None \<and> m_notify_status u = MAINTENANCE_COMPLETE
    \<and> notified_of (trace u) = [MAINTENANCE_COMPLETE, MAINTENANCE_STARTED] @ notified_of (trace s)
    \<and> m_setting u = snd (setValue (env_json E) ''LastSuccessfulCompletionTime''
        (to_string (env_time E n)) (snd (remove (env_json E) ''LastSuccessfulCompletionTime'' (m_setting s))))
    \<and> (g_maintenance_type s = UNSOLICITED_MAINTENANCE \<or> g_unsolicited_complete s \<longrightarrow> g_unsolicited_complete u)
    \<and> \<not> timer_armed u"
proof -
  from cycle_run_report [OF assms] obtain u n c where c: "run_events (exec_event E) (cycle_tasks E) s = Some c"
    "exec_event E E_Resume c = Some u" and u: "live u \<and> m_thread u = T_None \<and> status_lock u = C_None
    \<and> m_notify_status u = MAINTENANCE_COMPLETE
    \<and> notified_of (trace u) = [MAINTENANCE_COMPLETE, MAINTENANCE_STARTED] @ notified_of (trace s)
    \<and> m_setting u = snd (setValue (env_json E) ''LastSuccessfulCompletionTime''
        (to_string (env_time E n)) (snd (remove (env_json E) ''LastSuccessfulCompletionTime'' (m_setting s))))
    \<and> (g_maintenance_type s = UNSOLICITED_MAINTENANCE \<or> g_unsolicited_complete s \<longrightarrow> g_unsolicited_complete u)
    \<and> \<not> timer_armed u" by blast
  have "run_events (exec_event E) (cycle_events E) s = Some u"
    unfolding cycle_events_def run_events_then [OF c(1)] by (simp only: run_events.simps c(2) option.case)
  with u show ?thesis by blast
qed

end
