(* ===== verification/MaintLiveness.thy ===== *)
theory MaintLiveness
  imports MaintCycle
begin

text \<open>
  Runs of the MaintenanceManager: the cycles that complete, the requests that end a cycle,
  and the orders of events after which nothing can go on.
\<close>

subsection \<open>Cycles that complete\<close>

definition env_starts :: "env \<Rightarrow> bool" where
  "env_starts E \<longleftrightarrow> json_lib_ok (env_json E) \<and> isWhoAmIEnabled E = Some False
     \<and> (\<forall>n. env_iarm_init E n) \<and> (\<forall>n. env_thread E n) \<and> (\<forall>n. 0 \<le> env_time E n)"

lemma boot_step:
  assumes "env_starts E"
  shows "\<exists>s. exec_event E E_Init (constructed False fs) = Some s \<and> live s \<and> status_lock s = C_None
    \<and> m_thread s = T_Begin \<and> \<not> g_whoami_support_enabled s \<and> \<not> g_suppress_maintenance_enabled s
    \<and> \<not> m_abort_flag s \<and> g_task_status s = 0 \<and> notified_of (trace s) = [MAINTENANCE_IDLE]
    \<and> g_maintenance_type s = UNSOLICITED_MAINTENANCE
    \<and> (settings_ok (env_json E) (cSettings fs MAINTENANCE_MGR_RECORD_FILE) \<longrightarrow>
        settings_ok (env_json E) (m_setting s))"
  using assms
  by (simp add: exec_event_def constructed_def status_mutex_free_def Initialize_def InitializeIARM_def
      maintenanceManagerOnBootup_def spawn_def env_starts_def live_def cs.replace_ok)

lemma finite_read_lines: "finite (dom m) \<Longrightarrow> finite (dom (foldl read_line_into m ls))"
proof (induction ls arbitrary: m)
  case Nil
  then show ?case by simp
next
  case (Cons l ls)
  have "finite (dom (read_line_into m l))"
    using Cons.prems by (auto simp: read_line_into_def split: option.split)
  with Cons.IH show ?case by simp
qed

lemma cSettings_ok: "json_lib_ok L \<Longrightarrow> settings_ok L (cSettings fs f)"
  using finite_read_lines [of Map.empty]
  by (auto simp: settings_ok_def cSettings_def readFromFile_def Let_def split: option.split)

text \<open>The time that the last success is reported with, after it has been stored.\<close>

lemma stored_time:
  assumes "settings_ok L c" and "0 \<le> now"
    and "m_setting s = snd (setValue L ''LastSuccessfulCompletionTime'' (to_string now)
      (snd (remove L ''LastSuccessfulCompletionTime'' c)))"
  shows "LastSuccessfulCompletionTime (getMaintenanceActivityStatus s) = (if now < 2 ^ 31 then now else 0)"
proof -
  have v: "getValue (m_setting s) ''LastSuccessfulCompletionTime'' = to_string now"
    unfolding assms(3) by (simp add: cs.replace_get [OF assms(1)])
  have c: "contains (m_setting s) ''LastSuccessfulCompletionTime''"
    by (simp add: contains_iff v)
  have na: "to_string now \<noteq> ''NA''"
  proof
    assume eq: "to_string now = ''NA''"
    have "\<forall>ch\<in>set (to_string now). isdigit ch"
      using assms(2) dec_nat_digits by (simp add: to_string_def)
    then show False unfolding eq by (simp add: isdigit_def)
  qed
  show ?thesis
    using stoi_to_string [OF assms(2)] stoi_to_string_overflow [of now]
    by (simp add: getMaintenanceActivityStatus_def Let_def c v na)
qed

text \<open>
  The maintenance that starts by itself at boot completes. On a device that is online and
  where services and commands work, the plugin goes from its construction through
  \<open>Initialize\<close> and the three tasks, each of which reports completion, to
  \<open>MAINTENANCE_COMPLETE\<close>: it notifies IDLE, STARTED and COMPLETE in this order, joins its
  thread, stops the timer, is ready for scheduled maintenance, and reports the time of
  completion, or 0 from 2038 on, when the time no longer fits an \<open>int\<close>.
\<close>

theorem boot_cycle_completes:
  assumes "env_starts E" and "commands_start E" and "device_online E"
  shows "\<exists>t n. run_events (exec_event E) (E_Init # cycle_events E) (constructed False fs) = Some t
    \<and> m_notify_status t = MAINTENANCE_COMPLETE
    \<and> notified_of (trace t) = [MAINTENANCE_COMPLETE, MAINTENANCE_STARTED, MAINTENANCE_IDLE]
    \<and> m_thread t = T_None \<and> \<not> timer_armed t \<and> may_start t
    \<and> LastSuccessfulCompletionTime (getMaintenanceActivityStatus t)
        = (if env_time E n < 2 ^ 31 then env_time E n else 0)"
proof -
  from boot_step [OF assms(1)] obtain s where s: "exec_event E E_Init (constructed False fs) = Some s"
    "live s" "status_lock s = C_None" "m_thread s = T_Begin" "\<not> g_whoami_support_enabled s"
    "\<not> g_suppress_maintenance_enabled s" "\<not> m_abort_flag s" "g_task_status s = 0"
    "notified_of (trace s) = [MAINTENANCE_IDLE]" "g_maintenance_type s = UNSOLICITED_MAINTENANCE"
    "settings_ok (env_json E) (cSettings fs MAINTENANCE_MGR_RECORD_FILE) \<longrightarrow>
        settings_ok (env_json E) (m_setting s)" by blast
  from cycle_run [OF assms(2,3) s(2-8)] s(9,10) obtain t n where
    t: "run_events (exec_event E) (cycle_events E) s = Some t" "m_thread t = T_None"
      "m_notify_status t = MAINTENANCE_COMPLETE" "\<not> timer_armed t" "g_unsolicited_complete t"
      "notified_of (trace t) = [MAINTENANCE_COMPLETE, MAINTENANCE_STARTED, MAINTENANCE_IDLE]"
      "m_setting t = snd (setValue (env_json E) ''LastSuccessfulCompletionTime''
        (to_string (env_time E n)) (snd (remove (env_json E) ''LastSuccessfulCompletionTime'' (m_setting s))))"
    by auto
  have "settings_ok (env_json E) (m_setting s)" "0 \<le> env_time E n"
    using s(11) cSettings_ok assms(1) by (auto simp: env_starts_def)
  note time = stored_time [OF this t(7)]
  have run: "run_events (exec_event E) (E_Init # cycle_events E) (constructed False fs) = Some t"
    by (simp only: run_events.simps s(1) option.case t(1))
  show ?thesis
    by (intro exI [of _ t] exI [of _ n]) (use run time t(2-6) in \<open>simp add: may_start_def\<close>)
qed

lemma sample_starts: "env_starts (sample_env plain_lib)" "commands_start (sample_env L)"
    "device_online (sample_env L)"
  by (simp_all add: env_starts_def commands_start_def device_online_def timer_works_def
      sample_whoami plain_lib_ok, simp_all add: sample_env_def plain_lib_ok)

text \<open>
  The same run up to its report, from which the safety properties are instantiated.
\<close>

lemma sample_boot_run:
  "\<exists>c t. run_events (exec_event (sample_env plain_lib)) (E_Init # cycle_tasks (sample_env plain_lib))
      sample_start = Some c
    \<and> exec_event (sample_env plain_lib) E_Resume c = Some t
    \<and> notified_of (trace t) = MAINTENANCE_COMPLETE # notified_of (trace c)"
proof -
  let ?E = "sample_env plain_lib"
  from boot_step [OF sample_starts(1), of "\<lparr>files = Map.empty, openable = (\<lambda>_. True)\<rparr>"]
  obtain s where s: "exec_event ?E E_Init sample_start = Some s"
    "live s" "status_lock s = C_None" "m_thread s = T_Begin" "\<not> g_whoami_support_enabled s"
    "\<not> g_suppress_maintenance_enabled s" "\<not> m_abort_flag s" "g_task_status s = 0"
    unfolding sample_start_def by blast
  from cycle_run_report [OF sample_starts(2,3) [of plain_lib] s(2-8)] obtain c t where
    c: "run_events (exec_event ?E) (cycle_tasks ?E) s = Some c" "exec_event ?E E_Resume c = Some t"
      "notified_of (trace t) = MAINTENANCE_COMPLETE # notified_of (trace c)" by auto
  have "run_events (exec_event ?E) (E_Init # cycle_tasks ?E) sample_start = Some c"
    by (simp only: run_events.simps s(1) option.case c(1))
  with c show ?thesis by blast
qed

theorem complete_reported_only_after_success_witness:
  "\<exists>c t. run_events (exec_event (sample_env plain_lib)) (E_Init # cycle_tasks (sample_env plain_lib))
      sample_start = Some c \<and> exec_event (sample_env plain_lib) E_Resume c = Some t
    \<and> mask_set (g_task_status t) ALL_TASKS_SUCCESS \<and> m_thread t = T_None"
proof -
  from sample_boot_run obtain c t where r: "run_events (exec_event (sample_env plain_lib))
      (E_Init # cycle_tasks (sample_env plain_lib)) sample_start = Some c"
    "exec_event (sample_env plain_lib) E_Resume c = Some t"
    "notified_of (trace t) = MAINTENANCE_COMPLETE # notified_of (trace c)" by blast
  from complete_reported_only_after_success [OF sample_initial r] r(3)
  show ?thesis using r(1,2) by blast
qed

theorem incomplete_never_reported_witness:
  "\<exists>s. run_events (exec_event (sample_env plain_lib)) (E_Init # cycle_tasks (sample_env plain_lib))
      sample_start = Some s \<and> MAINTENANCE_INCOMPLETE \<notin> set (notified_of (trace s))"
proof -
  from sample_boot_run obtain c where "run_events (exec_event (sample_env plain_lib))
      (E_Init # cycle_tasks (sample_env plain_lib)) sample_start = Some c" by blast
  with incomplete_never_reported [OF sample_initial this] show ?thesis by blast
qed

theorem thread_never_overwritten_witness:
  "\<exists>s. run_events (powered_event (sample_env plain_lib)) [E_Init, E_Thread] sample_start = Some s
    \<and> \<not> crashed s"
proof -
  let ?E = "sample_env plain_lib"
  from boot_step [OF sample_starts(1), of "\<lparr>files = Map.empty, openable = (\<lambda>_. True)\<rparr>"]
  obtain s where s: "exec_event ?E E_Init sample_start = Some s" "live s" "status_lock s = C_None"
    "m_thread s = T_Begin" "\<not> g_whoami_support_enabled s"
    unfolding sample_start_def by blast
  have "\<exists>t. run_events (powered_event ?E) [E_Init, E_Thread] sample_start = Some t"
    using s(1) begin_step [OF s(2-4), of ?E] s(5) by (simp add: powered_event_def delays_started_def)
  then obtain t where t: "run_events (powered_event ?E) [E_Init, E_Thread] sample_start = Some t" by blast
  with thread_never_overwritten [OF _ sample_initial t] show ?thesis by (simp add: sample_whoami)
qed

theorem boot_cycle_completes_witness:
  "\<exists>t. run_events (exec_event (sample_env plain_lib)) (E_Init # cycle_events (sample_env plain_lib))
      (constructed False \<lparr>files = Map.empty, openable = (\<lambda>_. True)\<rparr>) = Some t
    \<and> m_notify_status t = MAINTENANCE_COMPLETE
    \<and> LastSuccessfulCompletionTime (getMaintenanceActivityStatus t) = 1700000000"
  using boot_cycle_completes [OF sample_starts, of "\<lparr>files = Map.empty, openable = (\<lambda>_. True)\<rparr>"]
  by (auto simp: sample_env_def)

text \<open>A request to start where one is possible: the thread is created after the join.\<close>

lemma start_step:
  assumes "live s" and "status_lock s = C_None" and "m_thread s = T_None \<or> m_thread s = T_Done"
    and "may_start s" and "env_thread E (tick s)"
  shows "run_events (exec_event E) [E_Start, E_Resume] s = Some (s\<lparr>g_task_status := 0,
    g_maintenance_type := SOLICITED_MAINTENANCE, m_abort_flag := False, g_is_reboot_pending := ''true'',
    g_is_critical_maintenance := ''false'', tick := Suc (tick s), m_thread := T_Begin,
    trace := Replied ''startMaintenance'' True # trace s\<rparr>)"
  using assms
  by (cases s) (auto simp: exec_event_def live_def status_mutex_free_def call_mutex_free_def
      start_enter_def thread_ended_def resume_def joined_def start_leave_def spawn_def may_start_def)


definition sample_idle :: mm where
  "sample_idle = sample_start\<lparr>m_service := True, m_notify_status := MAINTENANCE_COMPLETE,
     g_unsolicited_complete := True\<rparr>"

lemma sample_idle_facts: "live sample_idle" "status_lock sample_idle = C_None"
    "m_thread sample_idle = T_None" "may_start sample_idle"
    "\<not> g_whoami_support_enabled sample_idle" "\<not> g_suppress_maintenance_enabled sample_idle"
  by (simp_all add: sample_idle_def sample_start_def constructed_def live_def may_start_def)


subsection \<open>Tasks whose scripts do not start\<close>

definition attempts :: "TaskIndices \<Rightarrow> effect list" where
  "attempts t = [Ran (task_names_foreground t @ '' &''), Ran (task_names_foreground t @ '' &'')]"

definition at_loop :: "nat \<Rightarrow> mm \<Rightarrow> bool" where
  "at_loop i s \<longleftrightarrow> live s \<and> (\<exists>b. m_thread s = T_Loop i TASK_RETRY_COUNT b) \<and> \<not> m_abort_flag s
     \<and> tasks s = map task_names_foreground all_tasks"

lemma failing_task:
  assumes "timer_works E" and "\<And>n c. env_system E n c \<noteq> 0" and "at_loop i s" and "i < 3"
  shows "\<exists>u. run_events (exec_event E) [E_Thread, E_Thread] s = Some u \<and> at_loop (Suc i) u
    \<and> g_task_status u = SET_STATUS (g_task_status s) (task_complete_status (all_tasks ! i))
    \<and> m_notify_status u = m_notify_status s \<and> status_lock u = status_lock s \<and> \<not> timer_armed u
    \<and> trace u = attempts (all_tasks ! i) @ trace s"
proof -
  have i: "i < length (tasks s)" "tasks s ! i = task_names_foreground (all_tasks ! i)"
    using assms(3,4) by (simp_all add: at_loop_def all_tasks_def nth_Cons split: nat.split)
  from assms(3) obtain b where b: "m_thread s = T_Loop i TASK_RETRY_COUNT b" by (auto simp: at_loop_def)
  have "\<exists>n. exec_event E E_Thread s = Some (s\<lparr>currentTask := tasks s ! i, g_task_timerCreated := True,
    timer_armed := True, m_task_map := (m_task_map s)(tasks s ! i \<mapsto> False),
    trace := Ran (tasks s ! i @ '' &'') # trace s, tick := n, m_thread := T_Loop i 0 True\<rparr>)"
    using failed_first [OF _ assms(1) b i(1)] assms(2,3) by (simp add: at_loop_def)
  then obtain n where 1: "exec_event E E_Thread s = Some (s\<lparr>currentTask := tasks s ! i,
    g_task_timerCreated := True, timer_armed := True, m_task_map := (m_task_map s)(tasks s ! i \<mapsto> False),
    trace := Ran (tasks s ! i @ '' &'') # trace s, tick := n, m_thread := T_Loop i 0 True\<rparr>)"
    (is "_ = Some ?a") by blast
  have "\<exists>n. exec_event E E_Thread ?a = Some (?a\<lparr>currentTask := tasks ?a ! i, timer_armed := False,
    m_task_map := (m_task_map ?a)(tasks ?a ! i \<mapsto> False),
    g_task_status := SET_STATUS (g_task_status ?a) (task_complete_status (all_tasks ! i)),
    trace := Ran (tasks ?a ! i @ '' &'') # trace ?a, tick := n,
    m_thread := T_Loop (Suc i) TASK_RETRY_COUNT True\<rparr>)"
    by (rule failed_second) (use assms i in \<open>simp_all add: at_loop_def live_def\<close>)
  then obtain m where 2: "exec_event E E_Thread ?a = Some (?a\<lparr>currentTask := tasks ?a ! i, timer_armed := False,
    m_task_map := (m_task_map ?a)(tasks ?a ! i \<mapsto> False),
    g_task_status := SET_STATUS (g_task_status ?a) (task_complete_status (all_tasks ! i)),
    trace := Ran (tasks ?a ! i @ '' &'') # trace ?a, tick := m,
    m_thread := T_Loop (Suc i) TASK_RETRY_COUNT True\<rparr>)" (is "_ = Some ?b") by blast
  have "run_events (exec_event E) [E_Thread, E_Thread] s = Some ?b"
    by (simp only: run_events.simps 1 2 option.case)
  moreover have "at_loop (Suc i) ?b" using assms(3) by (auto simp: at_loop_def live_def)
  ultimately show ?thesis
    by (intro exI [of _ ?b]) (use i in \<open>simp add: attempts_def\<close>)
qed

text \<open>
  A cycle none of whose scripts can be started ends without a word. Each script is tried
  twice and no more, all three tasks are marked complete, the thread ends and the timer
  is off; but no status is reported: the cycle stays \<open>MAINTENANCE_STARTED\<close> and further
  scheduled maintenance is refused until someone stops it.
\<close>

theorem failing_cycle_stays_started:
  assumes "timer_works E" and "\<And>n c. env_system E n c \<noteq> 0" and "at_loop 0 s"
    and "m_notify_status s = MAINTENANCE_STARTED"
  shows "\<exists>u. run_events (exec_event E) (replicate 7 E_Thread) s = Some u \<and> m_thread u = T_Done
    \<and> mask_set (g_task_status u) TASKS_COMPLETED \<and> m_notify_status u = MAINTENANCE_STARTED
    \<and> \<not> may_start u \<and> \<not> timer_armed u \<and> status_lock u = status_lock s
    \<and> trace u = attempts TASK_LOGUPLOAD @ attempts TASK_SWUPDATE @ attempts TASK_RFC @ trace s"
proof -
  have t: "all_tasks ! 0 = TASK_RFC" "all_tasks ! 1 = TASK_SWUPDATE" "all_tasks ! 2 = TASK_LOGUPLOAD"
    by (simp_all add: all_tasks_def)
  note fail = failing_task [where E = E, OF assms(1,2)]
  from fail [OF assms(3)] t(1) obtain u0 where u0: "run_events (exec_event E) [E_Thread, E_Thread] s = Some u0"
    "at_loop 1 u0" "g_task_status u0 = SET_STATUS (g_task_status s) (task_complete_status TASK_RFC)"
    "m_notify_status u0 = m_notify_status s" "status_lock u0 = status_lock s"
    "trace u0 = attempts TASK_RFC @ trace s" by auto
  from fail [OF u0(2)] t(2) obtain u1 where u1: "run_events (exec_event E) [E_Thread, E_Thread] u0 = Some u1"
    "at_loop 2 u1" "g_task_status u1 = SET_STATUS (g_task_status u0) (task_complete_status TASK_SWUPDATE)"
    "m_notify_status u1 = m_notify_status u0" "status_lock u1 = status_lock u0"
    "trace u1 = attempts TASK_SWUPDATE @ trace u0" by (auto simp: numeral_2_eq_2)
  from fail [OF u1(2)] t(3) obtain u2 where u2: "run_events (exec_event E) [E_Thread, E_Thread] u1 = Some u2"
    "at_loop (Suc 2) u2" "g_task_status u2 = SET_STATUS (g_task_status u1) (task_complete_status TASK_LOGUPLOAD)"
    "m_notify_status u2 = m_notify_status u1" "status_lock u2 = status_lock u1" "\<not> timer_armed u2"
    "trace u2 = attempts TASK_LOGUPLOAD @ trace u1" by auto
  from u2(2) obtain b where b: "m_thread u2 = T_Loop (Suc 2) TASK_RETRY_COUNT b" by (auto simp: at_loop_def)
  have "length (tasks u2) = 3" using u2(2) by (simp add: at_loop_def all_tasks_def)
  then have 3: "exec_event E E_Thread u2 = Some (u2\<lparr>m_thread := T_Done\<rparr>)"
    using loop_end_step [OF _ b] u2(2) by (simp add: at_loop_def)
  have split: "replicate 7 E_Thread = [E_Thread, E_Thread] @ [E_Thread, E_Thread] @ [E_Thread, E_Thread] @ [E_Thread]"
    by (simp add: eval_nat_numeral)
  have run: "run_events (exec_event E) (replicate 7 E_Thread) s = Some (u2\<lparr>m_thread := T_Done\<rparr>)"
    unfolding split run_events_then [OF u0(1)] run_events_then [OF u1(1)] run_events_then [OF u2(1)]
    by (simp only: run_events.simps 3 option.case)
  have "mask_set (g_task_status u2) TASKS_COMPLETED"
    by (simp add: u2(3) u1(3) u0(3) tasks_completed_iff bit_SET_STATUS task_complete_status_def status_bit_defs)
  then show ?thesis
    by (intro exI [of _ "u2\<lparr>m_thread := T_Done\<rparr>"])
      (use run assms(4) u0(4-6) u1(4-6) u2(4-7) in \<open>simp add: may_start_def\<close>)
qed

definition sample_running :: mm where
  "sample_running = sample_idle\<lparr>m_notify_status := MAINTENANCE_STARTED,
     m_thread := T_Loop 0 TASK_RETRY_COUNT False, tasks := map task_names_foreground all_tasks\<rparr>"

theorem failing_cycle_stays_started_witness:
  "\<exists>u. run_events (exec_event ((sample_env plain_lib)\<lparr>env_system := (\<lambda>n c. 256)\<rparr>))
      (replicate 7 E_Thread) sample_running = Some u
    \<and> m_notify_status u = MAINTENANCE_STARTED \<and> m_thread u = T_Done \<and> length (trace u) = 6"
proof -
  let ?E = "(sample_env plain_lib)\<lparr>env_system := (\<lambda>n c. 256)\<rparr>"
  have "timer_works ?E" by (simp add: timer_works_def sample_env_def)
  moreover have "\<And>n c. env_system ?E n c \<noteq> 0" by simp
  moreover have "at_loop 0 sample_running" "m_notify_status sample_running = MAINTENANCE_STARTED"
    by (auto simp: at_loop_def sample_running_def live_def sample_idle_def sample_start_def constructed_def)
  ultimately show ?thesis
    using failing_cycle_stays_started [of ?E sample_running]
    by (auto simp: attempts_def sample_running_def sample_idle_def sample_start_def constructed_def)
qed

subsection \<open>Requests that wait for ever\<close>

text \<open>
  Sets of states that no event leaves: a handler waits in \<open>join\<close> and keeps the mutex that the
  thread needs for its next statement: the first of a scheduled maintenance, or the report that
  there is no network.
\<close>

definition lock_stuck :: "thread_pc \<Rightarrow> mm \<Rightarrow> bool" where
  "lock_stuck p s \<longleftrightarrow> m_thread s = p \<and> status_lock s \<noteq> C_None
     \<and> (p = T_Exit \<or> p = T_Begin \<and> g_maintenance_type s = SOLICITED_MAINTENANCE)"

lemma lock_stuckD: "lock_stuck p s \<Longrightarrow> status_lock s \<noteq> C_None \<and> m_thread s = p"
  by (simp add: lock_stuck_def)

definition stuck_view :: "mm \<Rightarrow> thread_pc \<times> continuation \<times> Maintenance_Type_t" where
  "stuck_view s = (m_thread s, status_lock s, g_maintenance_type s)"

lemma stuck_view_alarm: "notify_thread (m_thread s) = m_thread s \<Longrightarrow> stuck_view (alarm s) = stuck_view s"
  by (auto simp: alarm_def timer_handler_def task_flag_def stuck_view_def split: option.split)

lemma stuck_view_internet: "stuck_view (after (internetStatusChangeEventHandler E st n) s) = stuck_view s"
  by (cases st; cases n)
    (simp_all add: internetStatusChangeEventHandler_def startCriticalTasks_def stuck_view_def Let_def)

lemma stuck_view_device:
  assumes "notify_thread (m_thread s) = m_thread s"
  shows "stuck_view (after (deviceInitializationContextEventHandler E c) s) = stuck_view s"
proof (cases c)
  case None
  then show ?thesis by (simp add: deviceInitializationContextEventHandler_def)
next
  case (Some ctx)
  obtain ok u where u: "run_state (setDeviceInitializationContext E (Some ctx)) s = (ok, u)"
    by (cases "run_state (setDeviceInitializationContext E (Some ctx)) s")
  then have "frame u = frame s" using quietD [OF quiet_setDeviceInitializationContext, of E "Some ctx" s] by simp
  from frame_fields [OF this] have v: "stuck_view u = stuck_view s" by (simp add: stuck_view_def)
  then have "stuck_view (u\<lparr>g_listen_to_deviceContextUpdate := False,
      m_thread := notify_thread (m_thread u)\<rparr>) = stuck_view s"
    using assms by (simp add: stuck_view_def)
  with Some u v show ?thesis
    by (simp add: deviceInitializationContextEventHandler_def)
qed

lemma stuck_view_mode: "stuck_view (after (setMaintenanceMode E p) s) = stuck_view s"
  by (simp add: setMaintenanceMode_def stuck_view_def Let_def)

lemma lock_stuck_step:
  assumes "lock_stuck p s" and "exec_event E e s = Some t"
  shows "lock_stuck p t"
proof -
  have keep: "stuck_view t = stuck_view s \<Longrightarrow> lock_stuck p t"
    using assms(1) by (simp add: stuck_view_def lock_stuck_def)
  have s: "m_thread s = p" "status_lock s \<noteq> C_None" "p = T_Exit \<or> p = T_Begin \<and> \<not> delays_started s"
    using assms(1) by (auto simp: lock_stuck_def delays_started_def)
  have n: "notify_thread (m_thread s) = m_thread s" using s(1,3) by (auto simp: notify_thread_def)
  from assms(2) have "stuck_view t = stuck_view s"
  proof (cases rule: exec_event_elim)
    case alarm
    with stuck_view_alarm [OF n] show ?thesis by simp
  next
    case (internet st n)
    with stuck_view_internet show ?thesis by simp
  next
    case (device c)
    with stuck_view_device [OF n] show ?thesis by simp
  next
    case (mode p)
    with stuck_view_mode show ?thesis by simp
  qed (use s in \<open>auto simp: thread_ended_def\<close>)
  then show ?thesis by (rule keep)
qed

text \<open>
  C9: Two requests to start in a row can stop the plugin for good. When the second
  \<open>startMaintenance\<close> arrives before the thread of the first has reported
  \<open>MAINTENANCE_STARTED\<close>, it joins that thread while it holds the mutex the thread waits
  for: no event whatsoever makes either of them go on.
\<close>

theorem start_start_deadlock:
  assumes "live s" and "status_lock s = C_None" and "m_thread s = T_None" and "may_start s"
    and "\<And>n. env_thread E n"
  shows "\<exists>u. run_events (exec_event E) [E_Start, E_Resume, E_Start] s = Some u
    \<and> \<not> (\<exists>es t. run_events (exec_event E) es u = Some t
          \<and> (status_lock t = C_None \<or> m_thread t \<noteq> T_Begin))"
proof -
  let ?a = "s\<lparr>g_task_status := 0, g_maintenance_type := SOLICITED_MAINTENANCE, m_abort_flag := False,
    g_is_reboot_pending := ''true'', g_is_critical_maintenance := ''false'', tick := Suc (tick s),
    m_thread := T_Begin, trace := Replied ''startMaintenance'' True # trace s\<rparr>"
  have 1: "run_events (exec_event E) [E_Start, E_Resume] s = Some ?a"
    using start_step [of s E] assms by simp
  have 2: "exec_event E E_Start ?a = Some (after start_enter ?a)"
    using assms by (simp add: exec_event_def live_def status_mutex_free_def call_mutex_free_def)
  have stuck: "lock_stuck T_Begin (after start_enter ?a)"
    using assms by (simp add: start_enter_def lock_stuck_def may_start_def)
  have "lock_stuck T_Begin t" if "run_events (exec_event E) es (after start_enter ?a) = Some t" for es t
    using run_events_closed [of "lock_stuck T_Begin" "exec_event E", OF lock_stuck_step stuck that] .
  then have "\<not> (\<exists>es t. run_events (exec_event E) es (after start_enter ?a) = Some t
      \<and> (status_lock t = C_None \<or> m_thread t \<noteq> T_Begin))"
    using lock_stuckD by blast
  moreover have "run_events (exec_event E) [E_Start, E_Resume, E_Start] s = Some (after start_enter ?a)"
    using run_events_then [OF 1, of "[E_Start]"] 2 by simp
  ultimately show ?thesis by blast
qed

theorem start_start_deadlock_witness:
  "\<exists>u. run_events (exec_event (sample_env plain_lib)) [E_Start, E_Resume, E_Start] sample_idle = Some u
    \<and> \<not> (\<exists>es t. run_events (exec_event (sample_env plain_lib)) es u = Some t \<and> status_lock t = C_None)"
  using start_start_deadlock [OF sample_idle_facts(1-4), of "sample_env plain_lib"]
  by (auto simp: sample_env_def)

text \<open>
  The other one: the event of the last task comes after \<open>system()\<close> has returned and before
  the thread waits, so its notification reaches nobody.
\<close>

definition calm_event :: "env \<Rightarrow> event \<Rightarrow> mm \<Rightarrow> mm option" where
  "calm_event E e s = (if e = E_SpuriousWake then None else exec_event E e s)"

definition lost :: "mm \<Rightarrow> bool" where
  "lost s \<longleftrightarrow> (\<exists>i. m_thread s = T_Wait i False) \<and> status_lock s \<noteq> C_None
     \<and> \<not> g_listen_to_deviceContextUpdate s
     \<and> (\<exists>t. currentTask s = task_names_foreground t \<and> m_task_map s (task_names_foreground t) \<noteq> Some True)"

lemma find_task_name:
  "find (\<lambda>u. has_str (task_names_foreground t) (task_names_foreground u)) all_tasks = Some t"
proof -
  have "has_str (task_names_foreground t) (task_names_foreground u) \<longleftrightarrow> t = u" for u
  proof -
    have other: "find_str (task_names_foreground t) (task_names_foreground u) = None" if "t \<noteq> u"
      using that by (cases t; cases u; simp; code_simp)
    show ?thesis by (cases "t = u") (simp_all add: has_str_def other)
  qed
  then show ?thesis by (cases t) (simp_all add: all_tasks_def)
qed

lemma lost_alarm:
  assumes "lost s"
  shows "lost (alarm s)"
proof -
  from assms obtain t where t: "currentTask s = task_names_foreground t"
    "m_task_map s (task_names_foreground t) \<noteq> Some True" by (auto simp: lost_def)
  show ?thesis
  proof (cases "instance_alive s")
    case True
    with t assms show ?thesis
      by (auto simp: alarm_def timer_handler_def find_task_name task_flag_def lost_def)
  next
    case False
    with t assms show ?thesis by (auto simp: alarm_def timer_handler_def find_task_name lost_def)
  qed
qed

lemma lost_step:
  assumes "lost s" and "calm_event E e s = Some t"
  shows "lost t"
proof -
  have e: "e \<noteq> E_SpuriousWake" "exec_event E e s = Some t"
    using assms(2) by (auto simp: calm_event_def split: if_splits)
  from assms(1) obtain i where i: "m_thread s = T_Wait i False" "status_lock s \<noteq> C_None"
    "\<not> g_listen_to_deviceContextUpdate s" by (auto simp: lost_def)
  show ?thesis
  proof (cases e)
    case E_Alarm
    with e(2) lost_alarm [OF assms(1)] show ?thesis by (auto simp: exec_event_def split: if_splits)
  next
    case (E_Internet st n)
    with e(2) assms(1) show ?thesis
      by (cases st; cases n) (auto simp: exec_event_def internetStatusChangeEventHandler_def
          startCriticalTasks_def lost_def Let_def split: if_splits)
  next
    case (E_Context c)
    with e(2) i(3) assms(1) show ?thesis
      by (auto simp: exec_event_def deviceInitializationContextEventHandler_def split: if_splits)
  next
    case (E_SetMode p)
    with e(2) assms(1) show ?thesis
      by (auto simp: exec_event_def setMaintenanceMode_def lost_def Let_def split: if_splits)
  qed (use e i in \<open>auto simp: exec_event_def thread_step_def status_mutex_free_def thread_ended_def
      split: if_splits\<close>)
qed

text \<open>
  C10: The completion of the last task can be missed. When its event arrives between the
  return of \<open>system()\<close> and the wait of the thread, the handler joins a thread that waits
  for a notification already sent; the timer does not help, since its handler ignores a
  task whose entry is false. Nothing but a spurious wake-up of the condition variable
  ends this, and until then the mutex stays locked.
\<close>

theorem completion_before_wait_is_lost:
  assumes "live s" and "m_thread s = T_Invoked i" and "m_notify_status s = MAINTENANCE_STARTED"
    and "status_lock s = C_None" and "\<not> m_abort_flag s" and "\<not> g_listen_to_deviceContextUpdate s"
    and "currentTask s = task_names_foreground t" and "m_task_map s (task_names_foreground t) = Some True"
    and "mask_set (task_done_bits (g_task_status s) t) TASKS_COMPLETED"
  shows "\<exists>u. run_events (exec_event E) [completion E t, E_Thread] s = Some u
    \<and> \<not> (\<exists>es v. run_events (calm_event E) es u = Some v
          \<and> (status_lock v = C_None \<or> (\<forall>i. m_thread v \<noteq> T_Wait i False)))"
proof -
  let ?a = "after (verdict E) (s\<lparr>g_task_status := task_done_bits (g_task_status s) t,
      m_task_map := (m_task_map s)(task_names_foreground t \<mapsto> False)\<rparr>)"
  have 1: "exec_event E (completion E t) s = Some ?a"
    using assms by (cases s) (simp add: completion_def exec_event_def live_def status_mutex_free_def
        iarm_enter_split module_event_complete task_complete_event_def ignores_event_def notify_thread_def)
  have a: "live ?a" "m_thread ?a = T_Invoked i" "status_lock ?a \<noteq> C_None"
    using assms by (auto simp: verdict_def cycle_result_spec live_def)
  let ?b = "?a\<lparr>m_thread := T_Wait i False\<rparr>"
  have 2: "exec_event E E_Thread ?a = Some ?b" by (rule wait_step [OF a(1,2)])
  have b: "lost ?b" using assms a by (auto simp: lost_def verdict_def cycle_result_spec)
  have "lost v" if "run_events (calm_event E) es ?b = Some v" for es v
    using run_events_closed [of lost "calm_event E", OF lost_step b that] .
  then have "\<not> (\<exists>es v. run_events (calm_event E) es ?b = Some v
      \<and> (status_lock v = C_None \<or> (\<forall>i. m_thread v \<noteq> T_Wait i False)))"
    unfolding lost_def by blast
  moreover have "run_events (exec_event E) [completion E t, E_Thread] s = Some ?b"
    by (simp only: run_events.simps 1 2 option.case)
  ultimately show ?thesis by blast
qed

definition sample_invoked :: mm where
  "sample_invoked = sample_running\<lparr>m_thread := T_Invoked 2, g_task_status := 0x0F OR 0x30,
     currentTask := task_names_foreground TASK_LOGUPLOAD,
     m_task_map := [task_names_foreground TASK_LOGUPLOAD \<mapsto> True]\<rparr>"

theorem completion_before_wait_is_lost_witness:
  "\<exists>u. run_events (exec_event (sample_env plain_lib))
      [completion (sample_env plain_lib) TASK_LOGUPLOAD, E_Thread] sample_invoked = Some u
    \<and> \<not> (\<exists>es v. run_events (calm_event (sample_env plain_lib)) es u = Some v \<and> status_lock v = C_None)"
proof -
  have "mask_set (task_done_bits (g_task_status sample_invoked) TASK_LOGUPLOAD) TASKS_COMPLETED"
    by (simp add: sample_invoked_def tasks_completed_iff bit_SET_STATUS status_bit_defs
        task_complete_status_def)
  with completion_before_wait_is_lost [of sample_invoked 2 TASK_LOGUPLOAD "sample_env plain_lib"]
  show ?thesis
    by (auto simp: sample_invoked_def sample_running_def sample_idle_def sample_start_def
        constructed_def live_def)
qed

subsection \<open>Mode and opt-out on every run\<close>

text \<open>A start from which \<open>maintenanceManagerOnBootup\<close> is reached.\<close>

definition boots_from :: "env \<Rightarrow> mm \<Rightarrow> bool" where
  "boots_from E s \<longleftrightarrow> mm_initial s \<and> env_boots E"

definition booted_event :: "env \<Rightarrow> event \<Rightarrow> mm \<Rightarrow> mm option" where
  "booted_event E e s = (if env_boots E then exec_event E e s else None)"

lemma mode_initial: "boots_from E s \<Longrightarrow> mode_inv E s"
  by (auto simp: boots_from_def mm_initial_def constructed_def mode_inv_def env_boots_def cSettings_ok)

interpretation mv: transition_system "boots_from E" "booted_event E" "mode_inv E" for E
  by unfold_locales (auto intro: mode_initial mode_step simp: booted_event_def split: if_splits)

text \<open>
  C14: While the plugin is in service, whatever has happened to it, its mode is one of the two
  modes and the opt-out value it holds is one of the four valid ones: an invalid value in
  the record file is replaced at boot, and no request stores another.
\<close>

theorem mode_always_valid:
  assumes "mm_initial s0" and "env_boots E" and "run_events (exec_event E) es s0 = Some s"
    and "m_service s"
  shows "g_currentMode s \<in> {FOREGROUND_MODE, BACKGROUND_MODE}
    \<and> checkValidOptOutModes (getValue (m_setting s) ''softwareoptout'')"
proof -
  have "booted_event E = exec_event E" using assms(2) by (auto simp: booted_event_def fun_eq_iff)
  with mv.reached_invariant [of E s0 es s] assms
  show ?thesis by (simp add: boots_from_def mode_inv_def mode_valid_def)
qed

theorem mode_always_valid_witness:
  "\<exists>s. exec_event (sample_env plain_lib) E_Init (constructed False
        \<lparr>files = [MAINTENANCE_MGR_RECORD_FILE \<mapsto> ''softwareoptout=PERHAPS''], openable = (\<lambda>_. True)\<rparr>) = Some s
    \<and> checkValidOptOutModes (getValue (m_setting s) ''softwareoptout'')"
proof -
  let ?fs = "\<lparr>files = [MAINTENANCE_MGR_RECORD_FILE \<mapsto> ''softwareoptout=PERHAPS''], openable = (\<lambda>_. True)\<rparr>"
  let ?E = "sample_env plain_lib"
  from boot_step [OF sample_starts(1), of ?fs] obtain s
    where s: "exec_event ?E E_Init (constructed False ?fs) = Some s" "live s" by blast
  have "env_boots ?E"
    using sample_starts(1) by (auto simp: env_boots_def env_starts_def)
  then show ?thesis
    using mode_always_valid [of "constructed False ?fs" ?E "[E_Init]" s] s
    by (auto simp: mm_initial_def live_def)
qed

end
