(* ===== verification/MaintRefine.thy ===== *)
theory MaintRefine
  imports MaintLiveness
begin

text \<open>
  The MaintenanceManager refines the life cycle that its clients see: the statuses it reports, in
  their order, are a run of a small automaton.
\<close>

subsection \<open>The life cycle\<close>

text \<open>
  \<open>IDLE\<close> begins anew; a cycle is started only outside of one, completed only inside of one; an error
  ends a cycle or reports that none could be started, but does not follow a completion.
\<close>

fun life_step :: "Maint_notify_status_t \<Rightarrow> Maint_notify_status_t \<Rightarrow> Maint_notify_status_t option" where
  "life_step MAINTENANCE_IDLE st = Some MAINTENANCE_IDLE"
| "life_step MAINTENANCE_STARTED st = (if st = MAINTENANCE_STARTED then None else Some MAINTENANCE_STARTED)"
| "life_step MAINTENANCE_COMPLETE st = (if st = MAINTENANCE_STARTED then Some MAINTENANCE_COMPLETE else None)"
| "life_step MAINTENANCE_ERROR st = (if st = MAINTENANCE_COMPLETE then None else Some MAINTENANCE_ERROR)"
| "life_step MAINTENANCE_INCOMPLETE st = None"

text \<open>The statuses that a step reports, oldest first.\<close>

definition reports :: "event \<Rightarrow> mm \<Rightarrow> mm \<Rightarrow> Maint_notify_status_t list" where
  "reports e s t = drop (length (notified_of (trace s))) (rev (notified_of (trace t)))"

subsection \<open>The invariant\<close>

text \<open>The points of the thread before it has reported the start of a cycle.\<close>

fun owes_start :: "thread_pc \<Rightarrow> bool" where
  "owes_start T_Begin = True"
| "owes_start (T_Checks d) = d"
| "owes_start (T_WhoAmI d sk net act) = d"
| "owes_start (T_WaitContext d sk) = d"
| "owes_start (T_BlockContext d sk) = d"
| "owes_start (T_SleepContext d sk) = d"
| "owes_start (T_Proceed d sk) = d"
| "owes_start _ = False"

text \<open>The part of the state that the life cycle depends on.\<close>

definition life_view :: "mm \<Rightarrow> Maint_notify_status_t \<times> Maint_notify_status_t list \<times> continuation \<times> Maintenance_Type_t" where
  "life_view s = (m_notify_status s, notified_of (trace s), status_lock s, g_maintenance_type s)"

definition life_inv :: "mm \<Rightarrow> bool" where
  "life_inv s \<longleftrightarrow>
     (owes_start (m_thread s) \<longrightarrow> m_notify_status s \<noteq> MAINTENANCE_STARTED)
   \<and> (m_notify_status s = MAINTENANCE_COMPLETE \<longrightarrow> m_thread s = T_None \<or> m_thread s = T_Done
        \<or> (m_thread s = T_Begin \<and> g_maintenance_type s = SOLICITED_MAINTENANCE))
   \<and> (case status_lock s of C_None \<Rightarrow> True
      | C_Start p \<Rightarrow> m_notify_status s \<noteq> MAINTENANCE_STARTED \<and> g_maintenance_type s = SOLICITED_MAINTENANCE
      | C_Stop b \<Rightarrow> m_notify_status s = MAINTENANCE_STARTED
      | C_Iarm st \<Rightarrow> m_notify_status s = MAINTENANCE_STARTED \<and> st \<in> {MAINTENANCE_COMPLETE, MAINTENANCE_ERROR})"

text \<open>A step that reports nothing, and keeps the thread among the points that owe the same.\<close>

definition same_owed :: "thread_pc \<Rightarrow> thread_pc \<Rightarrow> bool" where
  "same_owed p q \<longleftrightarrow> p = q \<or> ((owes_start q \<longrightarrow> owes_start p) \<and> p \<noteq> T_None \<and> p \<noteq> T_Done \<and> p \<noteq> T_Begin \<and> q \<noteq> T_Begin)"

lemma life_inv_same:
  assumes "life_inv s" and "life_view t = life_view s" and "same_owed (m_thread s) (m_thread t)"
  shows "life_inv t"
  using assms by (cases "status_lock s") (auto simp: life_inv_def life_view_def same_owed_def)

lemma same_owed_notify: "same_owed p (notify_thread p)"
  by (cases p) (auto simp: same_owed_def notify_thread_def)

lemmas quiet_life = quiet_fields [OF quiet_isDeviceOnline] quiet_fields [OF quiet_getActivatedStatus]
  quiet_fields [OF quiet_checkActivatedStatus] quiet_fields [OF quiet_knowWhoAmI_turn]
  quiet_fields [OF quiet_setDeviceInitializationContext] quiet_fields [OF quiet_abortTask]

subsection \<open>The steps that report nothing\<close>

definition unreported :: "mm \<Rightarrow> mm \<Rightarrow> bool" where
  "unreported s t \<longleftrightarrow> life_view t = life_view s \<and> same_owed (m_thread s) (m_thread t)"

lemma unreported_checks: "m_thread s = T_Checks d \<Longrightarrow> unreported s (after (thread_checks E d) s)"
  by (auto simp: thread_checks_def unreported_def life_view_def same_owed_def split_beta Let_def quiet_life)

lemma unreported_whoami:
  "m_thread s = T_WhoAmI d sk net act \<Longrightarrow> unreported s (after (thread_whoami E d sk net act) s)"
  by (auto simp: thread_whoami_def unreported_def life_view_def same_owed_def split_beta quiet_life
      split: option.split)

lemma unreported_context: "m_thread s = T_WaitContext d sk \<Longrightarrow> unreported s (after (wait_context d sk) s)"
  by (auto simp: wait_context_def unreported_def life_view_def same_owed_def)

lemma life_view_parts: "life_view t = life_view s \<longleftrightarrow> m_notify_status t = m_notify_status s
    \<and> notified_of (trace t) = notified_of (trace s) \<and> status_lock t = status_lock s
    \<and> g_maintenance_type t = g_maintenance_type s"
  by (simp add: life_view_def)

lemma timer_life: "life_view (after (task_startTimer E) s) = life_view s" "m_thread (after (task_startTimer E) s) = m_thread s"
    "life_view (after (task_stopTimer E) s) = life_view s" "m_thread (after (task_stopTimer E) s) = m_thread s"
  by (simp_all add: task_startTimer_def task_stopTimer_def maintenance_initTimer_def timer_run_simps
      life_view_def Let_def)

lemma run_task_life: "life_view (after (run_task E task rc tm) s) = life_view s"
    "m_thread (after (run_task E task rc tm) s) = m_thread s"
proof -
  let ?u = "after (task_startTimer E) (s\<lparr>currentTask := task\<rparr>)"
  have "life_view ?u = life_view s" "m_thread ?u = m_thread s"
    using timer_life(1,2) [of E "s\<lparr>currentTask := task\<rparr>"] by (simp_all add: life_view_def)
  then show "life_view (after (run_task E task rc tm) s) = life_view s"
    "m_thread (after (run_task E task rc tm) s) = m_thread s"
    by (simp_all add: run_task_def split_beta life_view_def)
qed

lemma task_failed_life: "life_view (after (task_failed E task) s) = life_view s"
    "m_thread (after (task_failed E task) s) = m_thread s"
  using timer_life(3,4) [of E s] timer_life(3,4) [of E "s\<lparr>g_task_status := SET_STATUS (g_task_status s) c\<rparr>" for c]
  by (auto simp: task_failed_def split_beta life_view_def split: option.split)

lemma thread_finish_life: "life_view (after (thread_finish E) s) = life_view s"
    "m_thread (after (thread_finish E) s) = T_Done"
  using timer_life(3) [of E "s\<lparr>m_abort_flag := False\<rparr>"]
  by (simp_all add: thread_finish_def split_beta life_view_def)

lemma unreported_loop: "m_thread s = T_Loop i rc tm \<Longrightarrow> unreported s (after (thread_loop E i rc tm) s)"
proof -
  assume pc: "m_thread s = T_Loop i rc tm"
  let ?r = "run_task E (tasks s ! i) rc tm"
  let ?u = "(after ?r s)\<lparr>m_task_map := (m_task_map (after ?r s))(tasks s ! i \<mapsto> False)\<rparr>"
  have u: "life_view ?u = life_view s" "m_thread ?u = m_thread s"
    using run_task_life [of E "tasks s ! i" rc tm s] by (simp_all add: life_view_def)
  have "life_view (after (thread_loop E i rc tm) s) = life_view s
      \<and> (\<exists>j c b. m_thread (after (thread_loop E i rc tm) s) \<in> {T_Loop j c b, T_Invoked i, T_Done})"
    using u run_task_life [of E "tasks s ! i" rc tm s] task_failed_life [of E "tasks s ! i" ?u]
      thread_finish_life [of E s]
    by (auto simp: thread_loop_def split_beta Let_def) (auto simp: life_view_def)
  with pc show ?thesis by (auto simp: unreported_def same_owed_def)
qed

lemma unreported_wait: "m_thread s = T_Wait i True \<Longrightarrow> unreported s (after (thread_after_wait E i) s)"
  by (auto simp: thread_after_wait_def task_stopTimer_def timer_run_simps unreported_def life_view_def
      same_owed_def split_beta Let_def)

lemma unreported_alarm: "unreported s (alarm s)"
  by (auto simp: alarm_def timer_handler_def task_flag_def unreported_def life_view_def
      same_owed_notify split: option.split) (simp_all add: same_owed_def)

lemma unreported_internet: "unreported s (after (internetStatusChangeEventHandler E st n) s)"
  by (cases st; cases n) (simp_all add: internetStatusChangeEventHandler_def startCriticalTasks_def
      unreported_def life_view_def same_owed_def Let_def)

lemma unreported_device: "unreported s (after (deviceInitializationContextEventHandler E c) s)"
  by (cases c) (auto simp: deviceInitializationContextEventHandler_def unreported_def life_view_def
      split_beta quiet_life same_owed_notify, simp_all add: same_owed_def)

lemma unreported_mode: "unreported s (after (setMaintenanceMode E p) s)"
  by (simp add: setMaintenanceMode_def unreported_def life_view_def same_owed_def Let_def)

lemma unreported_module: "unreported s (after (module_event ms) s)"
  by (cases ms) (auto simp: module_event_def task_complete_event_def task_error_event_def
      task_inprogress_event_def unreported_def life_view_def same_owed_notify, simp_all add: same_owed_def)

subsection \<open>Every step is one of the life cycle\<close>

definition life_ok :: "mm \<Rightarrow> mm \<Rightarrow> bool" where
  "life_ok s t \<longleftrightarrow> life_inv t \<and> (\<exists>xs. notified_of (trace t) = rev xs @ notified_of (trace s)
     \<and> run_events life_step xs (m_notify_status s) = Some (m_notify_status t))"

lemma life_okI: "life_inv t \<Longrightarrow> notified_of (trace t) = rev xs @ notified_of (trace s) \<Longrightarrow>
    run_events life_step xs (m_notify_status s) = Some (m_notify_status t) \<Longrightarrow> life_ok s t"
  unfolding life_ok_def by blast

lemma life_ok_same: "life_inv t \<Longrightarrow> notified_of (trace t) = notified_of (trace s) \<Longrightarrow>
    m_notify_status t = m_notify_status s \<Longrightarrow> life_ok s t"
  by (rule life_okI [of _ "[]"]) simp_all

lemma life_ok_unreported: "life_inv s \<Longrightarrow> unreported s t \<Longrightarrow> life_ok s t"
  by (rule life_ok_same) (auto simp: unreported_def intro: life_inv_same, simp_all add: life_view_def)

lemma life_begin:
  assumes "life_inv s" and "m_thread s = T_Begin" and "delays_started s \<or> status_lock s = C_None"
  shows "life_ok s (after (thread_begin (delays_started s)) s)"
  using assms
  by (intro life_okI [of _ "if delays_started s then [] else [MAINTENANCE_STARTED]"])
    (auto simp: thread_begin_def life_inv_def delays_started_def split: continuation.splits)

lemma life_exit: "life_inv s \<Longrightarrow> m_thread s = T_Exit \<Longrightarrow> status_lock s = C_None \<Longrightarrow> life_ok s (after thread_exit s)"
  by (rule life_okI [of _ "[MAINTENANCE_ERROR]"]) (auto simp: thread_exit_def life_inv_def)

lemma life_proceed:
  assumes "life_inv s" and "m_thread s = T_Proceed d sk" and "\<not> d \<or> status_lock s = C_None"
  shows "life_ok s (after (thread_proceed d sk) s)"
  using assms
  by (intro life_okI [of _ "if d then [MAINTENANCE_STARTED] else []"])
    (auto simp: thread_proceed_def life_inv_def split: continuation.splits)

lemma life_iarm:
  assumes "life_inv s" and "status_lock s = C_None" and "status_lock (after (iarm_enter E owner ev ms) s) \<noteq> C_Iarm MAINTENANCE_INCOMPLETE"
  shows "life_ok s (after (iarm_enter E owner ev ms) s)"
proof (cases "\<not> m_abort_flag s \<and> owner = env_iarm_name E \<and> ev = env_event_update E \<and> m_notify_status s = MAINTENANCE_STARTED")
  case False
  then show ?thesis using life_ok_same [OF assms(1)] by (auto simp: iarm_enter_split)
next
  case True
  let ?u = "after (module_event ms) s"
  have u: "life_inv ?u" "life_view ?u = life_view s"
    using unreported_module [of s ms] assms(1) life_inv_same by (auto simp: unreported_def)
  have t: "after (iarm_enter E owner ev ms) s = after (verdict E) ?u"
    using True by (simp add: iarm_enter_split split_beta)
  have "life_inv (after (verdict E) ?u)"
    using u True assms(2,3) t
    by (auto simp: verdict_def cycle_result_spec life_inv_def life_view_def)
  then show ?thesis
    unfolding t using u(2)
    by (intro life_ok_same) (auto simp: verdict_def cycle_result_spec life_view_def)
qed

lemma life_start: "life_inv s \<Longrightarrow> status_lock s = C_None \<Longrightarrow> life_ok s (after start_enter s)"
  by (rule life_ok_same) (auto simp: start_enter_def life_inv_def may_start_def)

lemma abort_first_life: "life_view (after (abort_first E st ts) s) = life_view s \<and> m_thread (after (abort_first E st ts) s) = m_thread s"
  by (induction ts) (auto simp: life_view_def quiet_life split_beta)

lemma life_stop_enter:
  assumes "life_inv s" and "status_lock s = C_None" and "m_notify_status s = MAINTENANCE_STARTED"
  shows "life_ok s (after (stop_enter E b) s)"
  using assms same_owed_notify [of "m_thread s"] abort_first_life
  by (intro life_ok_same) (auto simp: stop_enter_def task_stopTimer_def timer_run_simps life_inv_def
      life_view_def same_owed_def split_beta Let_def)

lemma life_stop:
  assumes "life_inv s" and "status_lock s = C_None"
  shows "life_ok s (after (stopMaintenance_enter E) s)"
proof (cases "m_notify_status s = MAINTENANCE_STARTED")
  case True
  with life_stop_enter [OF assms True, of E False] show ?thesis by (simp add: stopMaintenance_enter_def)
next
  case False
  with assms show ?thesis
    by (intro life_ok_same life_inv_same [OF assms(1)])
      (simp_all add: stopMaintenance_enter_def life_view_def same_owed_def)
qed

lemma life_deinit_leave: "life_inv s \<Longrightarrow> life_inv (after (deinit_leave E) s)"
  by (erule life_inv_same) (simp_all add: deinit_leave_run life_view_def same_owed_def)

lemma life_deinit:
  assumes "life_inv s" and "status_lock s = C_None"
  shows "life_ok s (after (deinit_enter E) s)"
proof -
  let ?u = "after (maintenance_deleteTimer E) s"
  have u: "life_view ?u = life_view s" "m_thread ?u = m_thread s"
    by (simp_all add: maintenance_deleteTimer_def life_view_def)
  have i: "life_inv ?u" by (rule life_inv_same [OF assms(1) u(1)]) (simp add: same_owed_def u(2))
  have v: "m_notify_status ?u = m_notify_status s" "notified_of (trace ?u) = notified_of (trace s)"
    "status_lock ?u = C_None" using u assms(2) by (simp_all add: life_view_def)
  show ?thesis
  proof (cases "m_notify_status s = MAINTENANCE_STARTED")
    case True
    then have "life_ok ?u (after (stop_enter E True) ?u)" using life_stop_enter [OF i v(3)] v(1) by simp
    with True v show ?thesis by (simp add: deinit_enter_def split_beta life_ok_def)
  next
    case False
    with v life_deinit_leave [OF i] show ?thesis
      by (intro life_ok_same) (simp_all add: deinit_enter_def split_beta deinit_leave_run)
  qed
qed

lemma life_resume:
  assumes "life_inv s" and "status_lock s \<noteq> C_None"
  shows "life_ok s (after (resume E (status_lock s)) s)"
proof (cases "status_lock s")
  case C_None
  with assms show ?thesis by simp
next
  case (C_Start p)
  with assms show ?thesis
    by (intro life_ok_same) (auto simp: resume_def joined_def start_leave_def spawn_def life_inv_def)
next
  case (C_Stop b)
  with assms show ?thesis
    by (intro life_okI [of _ "[MAINTENANCE_ERROR]"])
      (auto simp: resume_def joined_def stop_leave_def deinit_leave_run life_inv_def)
next
  case (C_Iarm st)
  with assms show ?thesis
    by (intro life_okI [of _ "[st]"]) (auto simp: resume_def joined_def iarm_leave_def life_inv_def)
qed

lemma life_Initialize:
  assumes "life_inv s" and "status_lock s = C_None"
  shows "life_ok s (after (Initialize E) s)"
proof (cases "isWhoAmIEnabled E")
  case None
  with assms show ?thesis
    by (intro life_ok_same life_inv_same [OF assms(1)]) (simp_all add: Initialize_def life_view_def same_owed_def)
next
  case (Some enabled)
  from Initialize_run [OF Some, of s] obtain u
    where u: "frame u = frame (s\<lparr>m_service := True, g_whoami_support_enabled := enabled\<rparr>)"
      "after (Initialize E) s = (let w = after (InitializeIARM E) u in w\<lparr>tick := Suc (tick w)\<rparr>)"
    by blast
  note f = frame_fields [OF u(1), simplified]
  show ?thesis
  proof (cases "env_iarm_init E (tick u)")
    case False
    with f assms show ?thesis
      by (intro life_ok_same life_inv_same [OF assms(1)])
        (simp_all add: u(2) Let_def InitializeIARM_def life_view_def same_owed_def)
  next
    case True
    with f assms show ?thesis
      by (intro life_okI [of _ "if env_thread E (Suc (tick u)) then [MAINTENANCE_IDLE] else [MAINTENANCE_IDLE, MAINTENANCE_ERROR]"])
        (auto simp: u(2) Let_def InitializeIARM_def maintenanceManagerOnBootup_def spawn_def life_inv_def)
  qed
qed

lemma life_event:
  assumes inv: "life_inv s" "signal_inv s" and step: "exec_event E e s = Some t"
  shows "life_ok s t"
  using step
proof (cases rule: exec_event_elim)
  case begins
  with life_begin [OF inv(1)] show ?thesis by simp
next
  case iarm
  have "status_lock t \<noteq> C_Iarm MAINTENANCE_INCOMPLETE"
    using signal_step [OF inv(2) step] by (simp add: signal_inv_def)
  with iarm life_iarm [OF inv(1)] show ?thesis by simp
next
  case destroy
  with inv show ?thesis
    by (intro life_ok_same life_inv_same [OF inv(1)]) (simp_all add: destroy_def life_view_def same_owed_def)
next
  case blocks
  with inv show ?thesis
    by (intro life_ok_unreported) (simp_all add: unreported_def life_view_def same_owed_def)
next
  case invoked
  with inv show ?thesis
    by (intro life_ok_unreported) (simp_all add: unreported_def life_view_def same_owed_def)
next
  case spurious
  with inv show ?thesis
    by (intro life_ok_unreported) (simp_all add: unreported_def life_view_def same_owed_def)
next
  case spurious_context
  with inv show ?thesis
    by (intro life_ok_unreported) (simp_all add: unreported_def life_view_def same_owed_def)
qed (use inv life_exit life_proceed life_start life_stop life_deinit life_resume life_Initialize
    in \<open>auto intro!: life_ok_unreported intro: unreported_checks unreported_whoami unreported_context
      unreported_loop unreported_wait unreported_alarm unreported_internet unreported_device unreported_mode\<close>)

lemma reports_life_ok:
  assumes "life_ok s t"
  shows "run_events life_step (reports e s t) (m_notify_status s) = Some (m_notify_status t)"
    and "rev (notified_of (trace t)) = rev (notified_of (trace s)) @ reports e s t"
  using assms by (auto simp: life_ok_def reports_def)

interpretation life: refinement mm_initial "exec_event E" "\<lambda>s. life_inv s \<and> signal_inv s"
    life_step m_notify_status reports for E
proof
  show "life_inv s \<and> signal_inv s" if "mm_initial s" for s
    using that signal_initial by (auto simp: mm_initial_def constructed_def life_inv_def)
  show "life_inv t \<and> signal_inv t" if "life_inv s \<and> signal_inv s" "exec_event E e s = Some t" for s e t
    using that life_event signal_step by (auto simp: life_ok_def)
  show "run_events life_step (reports e s t) (m_notify_status s) = Some (m_notify_status t)"
    if "life_inv s \<and> signal_inv s" "exec_event E e s = Some t" for s e t
    using that life_event reports_life_ok(1) by blast
qed

lemma reports_run:
  assumes "life_inv s" and "signal_inv s" and "run_events (exec_event E) es s = Some t"
  shows "rev (notified_of (trace t)) = rev (notified_of (trace s)) @ shown_run (exec_event E) reports es s"
  using assms
proof (induction es arbitrary: s)
  case Nil
  then show ?case by simp
next
  case (Cons e es)
  then obtain u where u: "exec_event E e s = Some u" "run_events (exec_event E) es u = Some t"
    by (auto split: option.splits)
  have ok: "life_ok s u" by (rule life_event [OF Cons.prems(1,2) u(1)])
  with Cons.IH [OF _ signal_step [OF Cons.prems(2) u(1)] u(2)] reports_life_ok(2) [OF ok] u(1)
  show ?case by (auto simp: life_ok_def)
qed

text \<open>
  C5: The statuses that the plugin reports follow its life cycle. In every run, whatever calls,
  events, signals and thread steps come in whatever order, the reports from the first to the last
  are a run of the automaton from \<open>IDLE\<close>, and it ends in the status the plugin has: a cycle is
  reported as started only when none is, as complete only when the last report was its start, and
  an error never follows a completion.
\<close>

theorem reports_follow_life_cycle:
  assumes "mm_initial s" and "run_events (exec_event E) es s = Some t"
  shows "run_events life_step (rev (notified_of (trace t))) MAINTENANCE_IDLE = Some (m_notify_status t)"
proof -
  have i: "life_inv s" "signal_inv s" using life.initial_invariant [OF assms(1)] by simp_all
  have "notified_of (trace s) = []" "m_notify_status s = MAINTENANCE_IDLE"
    using assms(1) by (auto simp: mm_initial_def constructed_def)
  with life.refines [OF assms] reports_run [OF i assms(2)] show ?thesis by simp
qed

theorem reports_follow_life_cycle_witness:
  "\<exists>t. run_events (exec_event (sample_env plain_lib))
      ((E_Init # cycle_tasks (sample_env plain_lib)) @ [E_Resume]) sample_start = Some t
    \<and> hd (notified_of (trace t)) = MAINTENANCE_COMPLETE
    \<and> run_events life_step (rev (notified_of (trace t))) MAINTENANCE_IDLE = Some (m_notify_status t)"
proof -
  from sample_boot_run obtain c t where r: "run_events (exec_event (sample_env plain_lib))
      (E_Init # cycle_tasks (sample_env plain_lib)) sample_start = Some c"
    "exec_event (sample_env plain_lib) E_Resume c = Some t"
    "notified_of (trace t) = MAINTENANCE_COMPLETE # notified_of (trace c)" by blast
  have run: "run_events (exec_event (sample_env plain_lib))
      ((E_Init # cycle_tasks (sample_env plain_lib)) @ [E_Resume]) sample_start = Some t"
    using run_events_then [OF r(1), of "[E_Resume]"] r(2) by simp
  from reports_follow_life_cycle [OF sample_initial run] run r(3) show ?thesis
    by (intro exI [of _ t]) simp
qed

end
