(* ===== verification/MaintRequests.thy ===== *)
theory MaintRequests
  imports MaintLiveness
begin

text \<open>
  Single requests and events of the MaintenanceManager: stopping a cycle, the error events,
  the mode, and a shutdown of a device that never went online.
\<close>

subsection \<open>Stopping\<close>

text \<open>
  The loop of \<open>stopMaintenanceTasks\<close> aborts one task at most: the first running one in the
  order RFC, SWUPDATE, LOGUPLOAD. Its entry is cleared when the signal was sent, and
  running tasks after it are left alone.
\<close>

theorem stop_aborts_first_running:
  "run_state (abort_first E running ts) s =
     (case find running ts of
        None \<Rightarrow> ((), s)
      | Some t \<Rightarrow>
          (let (k, u) = run_state (abortTask E (task_names (env_rfc_manager E) t) SIGABRT) s
           in ((), if k = 0 then u\<lparr>m_task_map := (m_task_map u)(task_names_foreground t \<mapsto> False)\<rparr> else u)))"
  by (induction ts) (auto simp: split_beta Let_def)

lemma abort_first_frame:
  "frame ((after (abort_first E running ts) s)\<lparr>m_task_map := x\<rparr>) = frame (s\<lparr>m_task_map := x\<rparr>)"
proof (induction ts)
  case Nil
  show ?case by simp
next
  case (Cons t ts)
  let ?m = "abortTask E (task_names (env_rfc_manager E) t) SIGABRT"
  have q: "frame (after ?m s) = frame s" by (rule quietD [OF quiet_abortTask])
  have "frame ((after ?m s)\<lparr>m_task_map := x\<rparr>) = frame (s\<lparr>m_task_map := x\<rparr>)"
    using q by (cases s; cases "after ?m s"; simp add: frame_def core_def)
  with Cons show ?case by (simp add: split_beta)
qed


definition sample_waiting :: mm where
  "sample_waiting = sample_running\<lparr>m_thread := T_Wait 1 False, g_task_timerCreated := True,
     timer_armed := True\<rparr>"


subsection \<open>Error events\<close>

text \<open>
  A task that has reported an error can still report success. The error marks the task
  complete but leaves its entry in the task map true, so a later completion event is not
  ignored and sets the success bit as well: the error is forgotten.
\<close>

theorem error_then_complete_counts_as_success:
  "let s' = after (do { task_error_event t; task_complete_event t }) s
   in g_task_status s' =
        (if ignores_event (m_task_map s) t then g_task_status s
         else SET_STATUS (SET_STATUS (SET_STATUS (g_task_status s) (task_complete_status t))
                (task_success_status t)) (task_complete_status t))"
  by (simp add: task_error_event_def task_complete_event_def Let_def ignores_event_def)

text \<open>
  What an IARM event does to the bit field, for every status of a task: completion sets
  both bits, an error or an abort the completion bit only, each unless the task is not
  expected; no other status completes a task.
\<close>

theorem module_event_bits:
  "g_task_status (after (module_event ms) s) = (case ms of
     MAINT_RFC_COMPLETE \<Rightarrow> if ignores_event (m_task_map s) TASK_RFC then g_task_status s
       else SET_STATUS (SET_STATUS (g_task_status s) RFC_SUCCESS) RFC_COMPLETE
   | MAINT_FWDOWNLOAD_COMPLETE \<Rightarrow> if ignores_event (m_task_map s) TASK_SWUPDATE then g_task_status s
       else SET_STATUS (SET_STATUS (g_task_status s) SWUPDATE_SUCCESS) SWUPDATE_COMPLETE
   | MAINT_LOGUPLOAD_COMPLETE \<Rightarrow> if ignores_event (m_task_map s) TASK_LOGUPLOAD then g_task_status s
       else SET_STATUS (SET_STATUS (g_task_status s) LOGUPLOAD_SUCCESS) LOGUPLOAD_COMPLETE
   | MAINT_RFC_ERROR \<Rightarrow> if ignores_event (m_task_map s) TASK_RFC then g_task_status s
       else SET_STATUS (g_task_status s) RFC_COMPLETE
   | MAINT_FWDOWNLOAD_ERROR \<Rightarrow> if ignores_event (m_task_map s) TASK_SWUPDATE then g_task_status s
       else SET_STATUS (g_task_status s) SWUPDATE_COMPLETE
   | MAINT_LOGUPLOAD_ERROR \<Rightarrow> if ignores_event (m_task_map s) TASK_LOGUPLOAD then g_task_status s
       else SET_STATUS (g_task_status s) LOGUPLOAD_COMPLETE
   | MAINT_FWDOWNLOAD_ABORTED \<Rightarrow> SET_STATUS (SET_STATUS (g_task_status s) TASK_SKIPPED) SWUPDATE_COMPLETE
   | MAINT_REBOOT_REQUIRED \<Rightarrow> SET_STATUS (g_task_status s) REBOOT_REQUIRED
   | _ \<Rightarrow> g_task_status s)"
  by (cases ms) (simp_all add: module_event_def task_complete_event_def task_error_event_def
      task_inprogress_event_def task_success_status_def task_complete_status_def)

subsection \<open>Mode\<close>

lemma filename_mode [simp]:
  "filename (m_setting (after (setMaintenanceMode E p) s)) = filename (m_setting s)"
  by (simp add: setMaintenanceMode_def Let_def)

text \<open>Keys and values that both readers of the record file give back.\<close>

definition clean_entries :: "json_obj \<Rightarrow> bool" where
  "clean_entries m \<longleftrightarrow>
     (\<forall>k v. m k = Some v \<longrightarrow> newline \<notin> set k \<and> newline \<notin> set v \<and> CHR ''='' \<notin> set k)"

definition mode_request :: "string \<Rightarrow> string \<Rightarrow> string \<Rightarrow> json_obj" where
  "mode_request mode trigger optout =
     [''maintenanceMode'' \<mapsto> mode, ''triggerMode'' \<mapsto> trigger, ''optOut'' \<mapsto> optout]"

lemma clean_upd: "clean_entries m \<Longrightarrow> newline \<notin> set k \<Longrightarrow> newline \<notin> set v \<Longrightarrow> CHR ''='' \<notin> set k
    \<Longrightarrow> clean_entries (m(k \<mapsto> v))"
  by (auto simp: clean_entries_def)

lemma clean_remove:
  "json_lib_ok L \<Longrightarrow> clean_entries (m(k \<mapsto> [])) \<Longrightarrow> clean_entries (jl_remove L (m(k \<mapsto> [])) k)"
  unfolding json_lib_ok_def clean_entries_def by (metis fun_upd_other fun_upd_same option.distinct(1))

lemma setMode_run:
  assumes "mode = FOREGROUND_MODE \<or> mode = BACKGROUND_MODE" and "checkValidOptOutModes optout"
    and "m_notify_status s \<noteq> MAINTENANCE_STARTED \<or> (\<forall>n m. env_broadcast E n m)"
  shows "\<exists>n tr. run_state (setMaintenanceMode E (mode_request mode trigger optout)) s =
    (True, s\<lparr>g_triggerMode := trigger, g_currentMode := mode,
      m_setting := snd (setValue (env_json E) ''softwareoptout'' optout
        (snd (setValue (env_json E) ''background_flag''
          (if mode = BACKGROUND_MODE then ''true'' else ''false'')
          (snd (remove (env_json E) ''background_flag'' (m_setting s)))))), tick := n, trace := tr\<rparr>)"
proof (cases "m_notify_status s = MAINTENANCE_STARTED")
  case True
  with assms show ?thesis
    by (simp add: setMaintenanceMode_def mode_request_def json_string_def Let_def; cases s; auto)
next
  case False
  with assms show ?thesis
    by (simp add: setMaintenanceMode_def mode_request_def json_string_def Let_def; cases s; auto)
qed

lemma writeToFile_ok:
  "fileExists (disk c) (filename c) \<Longrightarrow> openable (disk c) (filename c) \<Longrightarrow>
     writeToFile L c = (True, snd (writeToFile L c))"
  by (simp add: writeToFile_def)

lemma writeToFile_keeps [simp]:
  "openable (disk (snd (writeToFile L c))) = openable (disk c)"
  "fileExists (disk c) f \<Longrightarrow> fileExists (disk (snd (writeToFile L c))) f"
  by (auto simp: writeToFile_def fileExists_def)

lemma remove_keeps [simp]:
  "openable (disk (snd (remove L k c))) = openable (disk c)"
  "fileExists (disk c) f \<Longrightarrow> fileExists (disk (snd (remove L k c))) f"
  by (simp_all add: snd_remove Let_def)

lemma setValue_keeps [simp]:
  "openable (disk (snd (setValue L k v c))) = openable (disk c)"
  "fileExists (disk c) f \<Longrightarrow> fileExists (disk (snd (setValue L k v c))) f"
  by (simp_all add: setValue_def)


definition sample_recorded :: mm where
  "sample_recorded = sample_idle\<lparr>m_setting := \<lparr>filename = MAINTENANCE_MGR_RECORD_FILE,
     data = [''softwareoptout'' \<mapsto> ''NONE''],
     disk = \<lparr>files = [MAINTENANCE_MGR_RECORD_FILE \<mapsto> []], openable = (\<lambda>_. True)\<rparr>\<rparr>\<rparr>"


text \<open>
  A rejected opt-out value does not undo the rest of the request: with a valid mode and an
  invalid opt-out value the call fails, but while no cycle runs the mode and the trigger
  have been changed.
\<close>

theorem invalid_optout_still_changes_mode:
  assumes "mode = FOREGROUND_MODE \<or> mode = BACKGROUND_MODE" and "\<not> checkValidOptOutModes optout"
    and "m_notify_status s \<noteq> MAINTENANCE_STARTED"
  shows "let (r, t) = run_state (setMaintenanceMode E (mode_request mode trigger optout)) s
    in \<not> r \<and> g_currentMode t = mode \<and> g_triggerMode t = trigger"
  using assms by (auto simp: setMaintenanceMode_def mode_request_def json_string_def Let_def)

theorem invalid_optout_still_changes_mode_witness:
  "g_currentMode (after (setMaintenanceMode (sample_env plain_lib)
      (mode_request ''BACKGROUND'' ''T'' ''SOMETIMES'')) sample_recorded) = ''BACKGROUND''"
  using invalid_optout_still_changes_mode
    [of "''BACKGROUND''" "''SOMETIMES''" sample_recorded "sample_env plain_lib" "''T''"]
  by (simp add: checkValidOptOutModes_def OptOutModes_def BACKGROUND_MODE_def sample_recorded_def
      sample_idle_def split_beta)

subsection \<open>A device without a network\<close>

definition device_offline :: "env \<Rightarrow> bool" where
  "device_offline E \<longleftrightarrow> (\<forall>n. env_service_state E n ''org.rdk.Network'' \<noteq> Some PLUGIN_ACTIVATED)"

lemma offline: "device_offline E \<Longrightarrow> \<not> result_of (isDeviceOnline E) s"
proof -
  assume off: "device_offline E"
  have check: "\<not> result_of (checkNetwork E) u" for u
    using off by (simp add: checkNetwork_def service_active_def getServiceState_def device_offline_def)
  then show ?thesis by (simp add: isDeviceOnline_def split_beta poll_iff)
qed

lemma offline_boot:
  assumes "env_starts E" and "device_offline E"
  shows "\<exists>b. run_events (exec_event E) [E_Init, E_Thread, E_Thread] (constructed False fs) = Some b
    \<and> live b \<and> status_lock b = C_None \<and> m_thread b = T_Exit \<and> m_notify_status b = MAINTENANCE_STARTED
    \<and> notified_of (trace b) = [MAINTENANCE_STARTED, MAINTENANCE_IDLE]"
proof -
  from boot_step [OF assms(1)] obtain s where s: "exec_event E E_Init (constructed False fs) = Some s"
    "live s" "status_lock s = C_None" "m_thread s = T_Begin" "\<not> g_whoami_support_enabled s"
    "\<not> g_suppress_maintenance_enabled s" "notified_of (trace s) = [MAINTENANCE_IDLE]" by blast
  let ?a = "s\<lparr>m_notify_status := MAINTENANCE_STARTED, trace := Notified MAINTENANCE_STARTED # trace s,
    tasks := [], m_thread := T_Checks False\<rparr>"
  have 1: "exec_event E E_Thread s = Some ?a"
    by (rule begin_step) (use s in \<open>simp_all add: delays_started_def\<close>)
  let ?b = "(after (isDeviceOnline E) ?a)\<lparr>m_thread := T_Exit\<rparr>"
  have 2: "exec_event E E_Thread ?a = Some ?b"
    using s offline [OF assms(2), of ?a]
    by (simp add: live_def exec_event_def thread_step_def thread_checks_def split_beta)
  note f = quiet_fields [OF quiet_isDeviceOnline, of E ?a, simplified]
  have "run_events (exec_event E) [E_Init, E_Thread, E_Thread] (constructed False fs) = Some ?b"
    by (simp only: run_events.simps s(1) 1 2 option.case)
  with s f show ?thesis by (intro exI [of _ ?b]) (simp add: live_def)
qed

text \<open>
  C16: A device that boots without a network and is shut down ends with \<open>std::terminate\<close>. The
  thread reports \<open>MAINTENANCE_ERROR\<close> and returns; since the status is no longer
  \<open>MAINTENANCE_STARTED\<close>, \<open>Deinitialize\<close> does not join it, and the plugin is destroyed with
  a joinable \<open>std::thread\<close>.
\<close>

theorem offline_shutdown_terminates:
  assumes "env_starts E" and "device_offline E"
  shows "\<exists>t. run_events (exec_event E) [E_Init, E_Thread, E_Thread, E_Thread, E_Deinit, E_Destroy]
      (constructed False fs) = Some t
    \<and> crashed t \<and> m_thread t = T_Done
    \<and> notified_of (trace t) = [MAINTENANCE_ERROR, MAINTENANCE_STARTED, MAINTENANCE_IDLE]"
proof -
  from offline_boot [OF assms] obtain b where
    b: "run_events (exec_event E) [E_Init, E_Thread, E_Thread] (constructed False fs) = Some b"
      "live b" "status_lock b = C_None" "m_thread b = T_Exit" "m_notify_status b = MAINTENANCE_STARTED"
      "notified_of (trace b) = [MAINTENANCE_STARTED, MAINTENANCE_IDLE]" by blast
  obtain c where 3: "exec_event E E_Thread b = Some c" and c: "live c" "status_lock c = C_None"
    "m_thread c = T_Done" "m_notify_status c = MAINTENANCE_ERROR"
    "notified_of (trace c) = [MAINTENANCE_ERROR, MAINTENANCE_STARTED, MAINTENANCE_IDLE]"
    using b by (auto simp: live_def exec_event_def thread_step_def status_mutex_free_def thread_exit_def)
  obtain d where 4: "exec_event E E_Deinit c = Some d" and d: "\<not> crashed d" "\<not> destroyed d"
    "\<not> m_service d" "status_lock d = C_None" "m_thread d = T_Done"
    "notified_of (trace d) = notified_of (trace c)"
    using c by (auto simp: live_def exec_event_def status_mutex_free_def deinit_enter_def
        deinit_leave_run split_beta maintenance_deleteTimer_def)
  have 5: "exec_event E E_Destroy d = Some (after destroy d)"
    using d by (simp add: exec_event_def status_mutex_free_def)
  have "run_events (exec_event E) [E_Init, E_Thread, E_Thread, E_Thread, E_Deinit, E_Destroy]
      (constructed False fs) = Some (after destroy d)"
    using run_events_then [OF b(1), of "[E_Thread, E_Deinit, E_Destroy]"] 3 4 5 by simp
  then show ?thesis using d c(5) by (intro exI [of _ "after destroy d"]) (simp add: destroy_def)
qed

theorem offline_shutdown_terminates_witness:
  "\<exists>t. run_events (exec_event ((sample_env plain_lib)\<lparr>env_service_state := (\<lambda>n c. None)\<rparr>))
      [E_Init, E_Thread, E_Thread, E_Thread, E_Deinit, E_Destroy]
      (constructed False \<lparr>files = Map.empty, openable = (\<lambda>_. True)\<rparr>) = Some t \<and> crashed t"
proof -
  let ?E = "(sample_env plain_lib)\<lparr>env_service_state := (\<lambda>n c. None)\<rparr>"
  have "env_starts ?E"
    using sample_starts(1) sample_whoami [of plain_lib]
    by (simp add: env_starts_def isWhoAmIEnabled_def)
  moreover have "device_offline ?E" by (simp add: device_offline_def)
  ultimately show ?thesis using offline_shutdown_terminates by blast
qed

end
