(* ===== verification/MaintContext.thy ===== *)
theory MaintContext
  imports MaintRequests
begin

text \<open>
  Two more orders of events after which nothing goes on: an update of the device context that
  comes while the thread is about to block, and a request to stop while the network check fails.
\<close>

subsection \<open>A device context that comes too early\<close>

text \<open>The thread is blocked, what it waits for has happened, and nobody is left to notify it.\<close>

definition asleep :: "bool \<Rightarrow> bool \<Rightarrow> mm \<Rightarrow> bool" where
  "asleep d sk s \<longleftrightarrow> crashed s \<or> (m_thread s = T_SleepContext d sk \<and> \<not> g_listen_to_deviceContextUpdate s
     \<and> m_notify_status s \<noteq> MAINTENANCE_STARTED \<and> \<not> timer_armed s)"

lemma asleep_Initialize:
  assumes "asleep d sk s"
  shows "asleep d sk (after (Initialize E) s)"
proof (cases "isWhoAmIEnabled E")
  case None
  then show ?thesis by (simp add: Initialize_def asleep_def)
next
  case (Some enabled)
  from Initialize_run [OF Some, of s] obtain u
    where u: "frame u = frame (s\<lparr>m_service := True, g_whoami_support_enabled := enabled\<rparr>)"
      "after (Initialize E) s = (let w = after (InitializeIARM E) u in w\<lparr>tick := Suc (tick w)\<rparr>)"
    by blast
  have "asleep d sk u" using assms frame_fields [OF u(1)] by (simp add: asleep_def)
  then show ?thesis
    by (auto simp: u(2) Let_def InitializeIARM_def maintenanceManagerOnBootup_def spawn_def asleep_def)
qed

lemma asleep_deinit: "asleep d sk s \<Longrightarrow> m_notify_status s \<noteq> MAINTENANCE_STARTED \<Longrightarrow> asleep d sk (after (deinit_enter E) s)"
  by (auto simp: deinit_enter_def maintenance_deleteTimer_def deinit_leave_run split_beta asleep_def)

lemma asleep_step:
  assumes "asleep d sk s" and "calm_event E e s = Some t"
  shows "asleep d sk t"
proof -
  have e: "e \<noteq> E_SpuriousWake" "exec_event E e s = Some t" "\<not> crashed s"
    using assms(2) by (auto simp: calm_event_def exec_event_def split: if_splits)
  with assms(1) have s: "m_thread s = T_SleepContext d sk" "\<not> g_listen_to_deviceContextUpdate s"
    "m_notify_status s \<noteq> MAINTENANCE_STARTED" "\<not> timer_armed s" by (auto simp: asleep_def)
  show ?thesis
  proof (cases e)
    case E_Init
    with e(2) exec_event_ends(1) asleep_Initialize [OF assms(1)] show ?thesis by blast
  next
    case (E_Internet st n)
    with e(2) assms(1) show ?thesis
      by (cases st; cases n) (auto simp: exec_event_def internetStatusChangeEventHandler_def
          startCriticalTasks_def asleep_def Let_def split: if_splits)
  next
    case (E_SetMode p)
    with e(2) assms(1) show ?thesis
      by (auto simp: exec_event_def setMaintenanceMode_def asleep_def Let_def split: if_splits)
  next
    case E_Deinit
    with e(2) exec_event_ends(2) asleep_deinit [OF assms(1) s(3)] show ?thesis by blast
  qed (use e s in \<open>auto simp: exec_event_def thread_step_def thread_ended_def asleep_def
      deviceInitializationContextEventHandler_def iarm_enter_def start_enter_def
      stopMaintenance_enter_def destroy_def split: if_splits\<close>)
qed

text \<open>
  C7: The update of the device context can be lost. The thread tests the predicate of its wait and
  blocks; the handler of the update takes no mutex, so that between the two it can set the
  parameters, clear the flag and notify. The notification reaches nobody, further updates are
  ignored, and unless the condition variable wakes up for no reason, the thread sleeps in every
  run: no maintenance is ever started, and to shut the plugin down ends the program.
\<close>

theorem context_update_is_lost:
  assumes "live s" and "m_thread s = T_WaitContext d sk" and "g_listen_to_deviceContextUpdate s"
    and "g_maintenance_type s = UNSOLICITED_MAINTENANCE" and "m_notify_status s \<noteq> MAINTENANCE_STARTED"
    and "\<not> timer_armed s"
    and "c ''partnerId'' = Some p" and "c ''osClass'' = Some os" and "c ''regionalConfigService'' = Some r"
    and "p \<noteq> []" and "os \<noteq> []" and "r \<noteq> []"
  shows "\<exists>u. run_events (exec_event E) [E_Thread, E_Context (Some c), E_Thread] s = Some u
    \<and> \<not> g_listen_to_deviceContextUpdate u \<and> \<not> crashed u
    \<and> \<not> (\<exists>es v. run_events (calm_event E) es u = Some v
          \<and> (m_notify_status v = MAINTENANCE_STARTED \<or> m_thread v \<noteq> T_SleepContext d sk) \<and> \<not> crashed v)"
proof -
  let ?a = "s\<lparr>m_thread := T_BlockContext d sk\<rparr>"
  have 1: "exec_event E E_Thread s = Some ?a"
    using assms(1-3) by (simp add: exec_event_def live_def thread_step_def wait_context_def)
  obtain w where w: "run_state (setDeviceInitializationContext E (Some c)) ?a = (True, w)"
    using device_context_result [of E c ?a] assms(7-12)
    by (cases "run_state (setDeviceInitializationContext E (Some c)) ?a") (auto simp: json_string_def)
  have f: "frame w = frame ?a"
    using quietD [OF quiet_setDeviceInitializationContext, of E "Some c" ?a] w by simp
  note ff = frame_fields [OF f, simplified]
  let ?b = "w\<lparr>g_listen_to_deviceContextUpdate := False, m_thread := T_BlockContext d sk\<rparr>"
  have "after (deviceInitializationContextEventHandler E (Some c)) ?a = ?b"
    using w ff assms(3,4) by (simp add: deviceInitializationContextEventHandler_def notify_thread_def)
  then have 2: "exec_event E (E_Context (Some c)) ?a = Some ?b"
    using assms(1) by (simp add: exec_event_def live_def)
  let ?u = "?b\<lparr>m_thread := T_SleepContext d sk\<rparr>"
  have 3: "exec_event E E_Thread ?b = Some ?u"
    using assms(1) ff by (simp add: exec_event_def live_def thread_step_def)
  have u: "asleep d sk ?u" using ff assms by (simp add: asleep_def)
  have "asleep d sk v" if "run_events (calm_event E) es ?u = Some v" for es v
    using run_events_closed [of "asleep d sk" "calm_event E", OF asleep_step u that] .
  moreover have "run_events (exec_event E) [E_Thread, E_Context (Some c), E_Thread] s = Some ?u"
    by (simp only: run_events.simps 1 2 3 option.case)
  ultimately show ?thesis
    using ff assms(1) by (intro exI [of _ ?u]) (auto simp: asleep_def live_def)
qed

definition sample_context :: json_obj where
  "sample_context = [''partnerId'' \<mapsto> ''comcast'', ''osClass'' \<mapsto> ''rdk'', ''regionalConfigService'' \<mapsto> ''config'']"

definition sample_unknown_device :: mm where
  "sample_unknown_device = sample_start\<lparr>m_service := True, g_maintenance_type := UNSOLICITED_MAINTENANCE,
     g_whoami_support_enabled := True, g_listen_to_deviceContextUpdate := True,
     m_thread := T_WaitContext True False\<rparr>"

theorem context_update_is_lost_witness:
  "\<exists>u. run_events (exec_event (sample_env plain_lib)) [E_Thread, E_Context (Some sample_context), E_Thread]
      sample_unknown_device = Some u
    \<and> \<not> (\<exists>es v. run_events (calm_event (sample_env plain_lib)) es u = Some v
          \<and> m_notify_status v = MAINTENANCE_STARTED \<and> \<not> crashed v)"
  using context_update_is_lost [of sample_unknown_device True False sample_context "''comcast''" "''rdk''" "''config''"
      "sample_env plain_lib"]
  by (auto simp: sample_unknown_device_def sample_start_def constructed_def live_def sample_context_def)

subsection \<open>A request to stop while there is no network\<close>

text \<open>
  C8: \<open>stopMaintenance\<close> in the moment in which the thread has found that there is no network stops
  the plugin for good: the handler joins the thread with \<open>m_statusMutex\<close> held, and the thread
  waits for that mutex to report its error. No sequence of events leads out of it.
\<close>

theorem offline_stop_deadlock:
  assumes "env_starts E" and "device_offline E"
  shows "\<exists>u. run_events (exec_event E) [E_Init, E_Thread, E_Thread, E_Stop] (constructed False fs) = Some u
    \<and> \<not> (\<exists>es t. run_events (exec_event E) es u = Some t \<and> (status_lock t = C_None \<or> m_thread t \<noteq> T_Exit))"
proof -
  from offline_boot [OF assms] obtain b where
    b: "run_events (exec_event E) [E_Init, E_Thread, E_Thread] (constructed False fs) = Some b"
      "live b" "status_lock b = C_None" "m_thread b = T_Exit" "m_notify_status b = MAINTENANCE_STARTED" by blast
  let ?u = "after (stop_enter E False) b"
  have 1: "exec_event E E_Stop b = Some ?u"
    using b by (simp add: exec_event_def live_def status_mutex_free_def stopMaintenance_enter_def)
  have "m_thread (after (abort_first E running ts) s) = m_thread s" for running ts s
    using frame_fields(5) [OF abort_first_frame [where E = E and s = s and x = Map.empty]] by simp
  then have stuck: "lock_stuck T_Exit ?u"
    using b(4) by (auto simp: stop_enter_def lock_stuck_def split_beta notify_thread_def
        task_stopTimer_def timer_run_simps Let_def)
  have "lock_stuck T_Exit t" if "run_events (exec_event E) es ?u = Some t" for es t
    using run_events_closed [of "lock_stuck T_Exit" "exec_event E", OF lock_stuck_step stuck that] .
  then have "\<not> (\<exists>es t. run_events (exec_event E) es ?u = Some t \<and> (status_lock t = C_None \<or> m_thread t \<noteq> T_Exit))"
    using lock_stuckD by blast
  moreover have "run_events (exec_event E) [E_Init, E_Thread, E_Thread, E_Stop] (constructed False fs) = Some ?u"
    using run_events_then [OF b(1), of "[E_Stop]"] 1 by simp
  ultimately show ?thesis by blast
qed

theorem offline_stop_deadlock_witness:
  "\<exists>u. run_events (exec_event ((sample_env plain_lib)\<lparr>env_service_state := (\<lambda>n c. None)\<rparr>))
      [E_Init, E_Thread, E_Thread, E_Stop] (constructed False \<lparr>files = Map.empty, openable = (\<lambda>_. True)\<rparr>) = Some u"
proof -
  let ?E = "(sample_env plain_lib)\<lparr>env_service_state := (\<lambda>n c. None)\<rparr>"
  have "env_starts ?E"
    using sample_starts(1) sample_whoami [of plain_lib]
    by (simp add: env_starts_def isWhoAmIEnabled_def)
  moreover have "device_offline ?E" by (simp add: device_offline_def)
  ultimately show ?thesis using offline_stop_deadlock by blast
qed

end
