(* ===== verification/MaintBound.thy ===== *)
theory MaintBound
  imports MaintRefine MaintContext
begin

text \<open>
  The execution thread ends: how many steps it can still make, and what can hold it up.
\<close>

subsection \<open>The steps that are left\<close>

text \<open>
  Without the WhoAmI feature: the first statements, the checks, then four steps for each task at
  most: two attempts, the wait, the step after the wait.
\<close>

fun steps_left :: "nat \<Rightarrow> thread_pc \<Rightarrow> nat" where
  "steps_left n T_Begin = 17"
| "steps_left n (T_Checks d) = 16"
| "steps_left n (T_Proceed d sk) = 15"
| "steps_left n (T_Loop i retry_count tm) = 4 * (n - i) + retry_count + 1"
| "steps_left n (T_Invoked i) = 4 * (n - i)"
| "steps_left n (T_Wait i woken) = 4 * (n - i) - 1"
| "steps_left n T_Exit = 1"
| "steps_left n _ = 0"

fun pc_ok :: "string list \<Rightarrow> thread_pc \<Rightarrow> bool" where
  "pc_ok ts (T_Checks d) = (ts = [])"
| "pc_ok ts (T_Proceed d sk) = (ts = [])"
| "pc_ok ts (T_Loop i retry_count tm) = (retry_count \<le> TASK_RETRY_COUNT \<and> length ts \<le> 3)"
| "pc_ok ts (T_Invoked i) = (i < length ts \<and> length ts \<le> 3)"
| "pc_ok ts (T_Wait i woken) = (i < length ts \<and> length ts \<le> 3)"
| "pc_ok ts (T_WhoAmI d sk net act) = False"
| "pc_ok ts (T_WaitContext d sk) = False"
| "pc_ok ts (T_BlockContext d sk) = False"
| "pc_ok ts (T_SleepContext d sk) = False"
| "pc_ok ts _ = True"

definition bound_inv :: "mm \<Rightarrow> bool" where
  "bound_inv s \<longleftrightarrow> \<not> g_whoami_support_enabled s \<and> pc_ok (tasks s) (m_thread s)"

definition left :: "mm \<Rightarrow> nat" where
  "left s = steps_left (length (tasks s)) (m_thread s)"

subsection \<open>The other events\<close>

definition held :: "mm \<Rightarrow> mm \<Rightarrow> bool" where
  "held s t \<longleftrightarrow> tasks t = tasks s \<and> g_whoami_support_enabled t = g_whoami_support_enabled s
     \<and> (m_thread t = m_thread s \<or> m_thread t = notify_thread (m_thread s))"

lemma held_left: "bound_inv s \<Longrightarrow> held s t \<Longrightarrow> bound_inv t \<and> left t = left s"
  by (cases "m_thread s") (auto simp: bound_inv_def left_def held_def notify_thread_def)

lemma held_device: "held s (after (deviceInitializationContextEventHandler E c) s)"
  by (cases c) (auto simp: deviceInitializationContextEventHandler_def held_def split_beta quiet_life)

lemma held_internet: "held s (after (internetStatusChangeEventHandler E st n) s)"
  by (cases st; cases n) (simp_all add: internetStatusChangeEventHandler_def startCriticalTasks_def
      held_def Let_def)

lemma held_module: "held s (after (module_event ms) s)"
  by (cases ms) (auto simp: module_event_def task_complete_event_def task_error_event_def
      task_inprogress_event_def held_def)

lemma held_iarm: "held s (after (iarm_enter E owner ev ms) s)"
  using held_module [of s ms]
  by (auto simp: iarm_enter_split split_beta verdict_def cycle_result_spec held_def)

lemma held_alarm: "held s (alarm s)"
  by (auto simp: alarm_def timer_handler_def task_flag_def held_def split: option.split)

lemma held_stop_enter: "held s (after (stop_enter E b) s)"
  using frame_fields(5,13,20) [OF abort_first_frame [where x = Map.empty]]
  by (auto simp: stop_enter_def task_stopTimer_def timer_run_simps held_def split_beta Let_def)

lemma held_stop: "held s (after (stopMaintenance_enter E) s)"
  using held_stop_enter [of s E False] by (auto simp: stopMaintenance_enter_def held_def)

lemma held_deinit: "held s (after (deinit_enter E) s)"
proof -
  let ?u = "after (maintenance_deleteTimer E) s"
  have "tasks ?u = tasks s \<and> g_whoami_support_enabled ?u = g_whoami_support_enabled s \<and> m_thread ?u = m_thread s"
    by (simp add: maintenance_deleteTimer_def)
  with held_stop_enter [of ?u E True] show ?thesis
    by (auto simp: deinit_enter_def deinit_leave_run held_def split_beta)
qed

lemma held_mode: "held s (after (setMaintenanceMode E p) s)"
  by (simp add: setMaintenanceMode_def held_def Let_def)

subsection \<open>The thread itself\<close>

lemma left_checks:
  assumes "bound_inv s" and "m_thread s = T_Checks d"
  shows "bound_inv (after (thread_checks E d) s) \<and> left (after (thread_checks E d) s) < left s"
  using assms by (auto simp: thread_checks_def bound_inv_def left_def split_beta Let_def quiet_life)

text \<open>What the body of the loop leaves alone.\<close>

definition fixed :: "mm \<Rightarrow> string list \<times> bool \<times> bool" where
  "fixed s = (tasks s, g_whoami_support_enabled s, m_abort_flag s)"

lemma timer_fixed: "fixed (after (task_startTimer E) s) = fixed s" "fixed (after (task_stopTimer E) s) = fixed s"
  by (simp_all add: task_startTimer_def task_stopTimer_def maintenance_initTimer_def timer_run_simps
      fixed_def Let_def)

lemma run_task_fixed: "fixed (after (run_task E task rc tm) s) = fixed s"
  using timer_fixed(1) [of E "s\<lparr>currentTask := task\<rparr>"]
  by (simp add: run_task_def split_beta fixed_def)

lemma task_failed_fixed: "fixed (after (task_failed E task) s) = fixed s"
  using timer_fixed(2) [of E s] timer_fixed(2) [of E "s\<lparr>g_task_status := SET_STATUS (g_task_status s) c\<rparr>" for c]
  by (auto simp: task_failed_def split_beta fixed_def split: option.split)

lemma left_loop:
  assumes "bound_inv s" and "m_thread s = T_Loop i rc tm"
  shows "bound_inv (after (thread_loop E i rc tm) s) \<and> left (after (thread_loop E i rc tm) s) < left s"
proof (cases "i < length (tasks s) \<and> \<not> m_abort_flag s")
  case False
  then have "after (thread_loop E i rc tm) s = after (thread_finish E) s"
    by (auto simp: thread_loop_def Let_def)
  moreover have "m_thread (after (thread_finish E) s) = T_Done"
    "g_whoami_support_enabled (after (thread_finish E) s) = g_whoami_support_enabled s"
    by (simp_all add: thread_finish_def task_stopTimer_def timer_run_simps Let_def split_beta)
  ultimately show ?thesis using assms by (simp add: bound_inv_def left_def)
next
  case True
  let ?r = "run_task E (tasks s ! i) rc tm"
  let ?u = "(after ?r s)\<lparr>m_task_map := (m_task_map (after ?r s))(tasks s ! i \<mapsto> False)\<rparr>"
  have f: "fixed (after ?r s) = fixed s" "fixed (after (task_failed E (tasks s ! i)) ?u) = fixed s"
    using run_task_fixed [of E "tasks s ! i" rc tm s] task_failed_fixed [of E "tasks s ! i" ?u]
    by (simp_all add: fixed_def)
  let ?t = "after (thread_loop E i rc tm) s"
  have "tasks ?t = tasks s \<and> g_whoami_support_enabled ?t = g_whoami_support_enabled s
      \<and> (\<exists>b. m_thread ?t = T_Invoked i \<or> (m_thread ?t = T_Loop i (rc - 1) b \<and> 0 < rc)
            \<or> m_thread ?t = T_Loop (Suc i) TASK_RETRY_COUNT b)"
    using True f by (auto simp: thread_loop_def split_beta Let_def fixed_def)
  then obtain b where "tasks ?t = tasks s" "g_whoami_support_enabled ?t = g_whoami_support_enabled s"
    "m_thread ?t = T_Invoked i \<or> (m_thread ?t = T_Loop i (rc - 1) b \<and> 0 < rc)
      \<or> m_thread ?t = T_Loop (Suc i) TASK_RETRY_COUNT b" by blast
  with True assms show ?thesis by (auto simp: bound_inv_def left_def TASK_RETRY_COUNT_def)
qed

lemma left_wait:
  assumes "bound_inv s" and "m_thread s = T_Wait i w"
  shows "bound_inv (after (thread_after_wait E i) s) \<and> left (after (thread_after_wait E i) s) < left s"
proof -
  have "tasks (after (thread_after_wait E i) s) = tasks s"
    "g_whoami_support_enabled (after (thread_after_wait E i) s) = g_whoami_support_enabled s"
    "m_thread (after (thread_after_wait E i) s) = T_Loop (Suc i) TASK_RETRY_COUNT True"
    using timer_fixed(2) [of E s] by (simp_all add: thread_after_wait_def split_beta fixed_def)
  with assms show ?thesis by (auto simp: bound_inv_def left_def TASK_RETRY_COUNT_def)
qed

lemma left_thread:
  assumes "bound_inv s" and "thread_step E s = Some t"
  shows "bound_inv t \<and> left t < left s"
proof (cases "m_thread s")
  case T_Begin
  with assms show ?thesis
    by (auto simp: thread_step_def thread_begin_def bound_inv_def left_def split: if_splits)
next
  case (T_Checks d)
  with assms left_checks show ?thesis by (auto simp: thread_step_def)
next
  case T_Exit
  with assms show ?thesis
    by (auto simp: thread_step_def thread_exit_def bound_inv_def left_def split: if_splits)
next
  case (T_Proceed d sk)
  with assms show ?thesis
    by (auto simp: thread_step_def thread_proceed_def bound_inv_def left_def TASK_RETRY_COUNT_def
        split: if_splits)
next
  case (T_Loop i rc tm)
  with assms left_loop show ?thesis by (auto simp: thread_step_def)
next
  case (T_Invoked i)
  with assms show ?thesis by (auto simp: thread_step_def bound_inv_def left_def)
next
  case (T_Wait i w)
  with assms left_wait show ?thesis by (auto simp: thread_step_def split: if_splits)
qed (use assms in \<open>auto simp: thread_step_def bound_inv_def\<close>)

lemma left_event:
  assumes inv: "bound_inv s" and step: "exec_event E e s = Some t" and e: "e \<noteq> E_Init" "e \<noteq> E_Resume"
  shows "bound_inv t \<and> (if e = E_Thread then left t < left s else left t = left s)"
proof (cases "e = E_Thread")
  case True
  with step left_thread [OF inv] show ?thesis by (auto simp: exec_event_def split: if_splits)
next
  case False
  have "held s t"
  proof (cases e)
    case E_SpuriousWake
    with step show ?thesis
      by (auto simp: exec_event_def spurious_wake_def held_def notify_thread_def
          split: if_splits thread_pc.splits bool.splits)
  next
    case E_Start
    with step show ?thesis by (auto simp: exec_event_def start_enter_def held_def split: if_splits)
  next
    case E_Destroy
    with step show ?thesis by (auto simp: exec_event_def destroy_def held_def split: if_splits)
  qed (use step e False held_alarm held_internet held_device held_iarm held_stop held_mode held_deinit
        in \<open>auto simp: exec_event_def split: if_splits\<close>)
  with held_left [OF inv] False show ?thesis by simp
qed

lemma left_run:
  assumes "bound_inv s" and "run_events (exec_event E) es s = Some t" and "E_Init \<notin> set es" and "E_Resume \<notin> set es"
  shows "bound_inv t \<and> count_list es E_Thread + left t \<le> left s"
  using assms
proof (induction es arbitrary: s)
  case Nil
  then show ?case by simp
next
  case (Cons e es)
  then obtain u where u: "exec_event E e s = Some u" "run_events (exec_event E) es u = Some t"
    by (auto split: option.splits)
  have l: "bound_inv u \<and> (if e = E_Thread then left u < left s else left u = left s)"
    using Cons.prems u(1) by (intro left_event) auto
  with Cons.IH [OF _ u(2)] Cons.prems show ?case by (auto split: if_splits)
qed

lemma held_up:
  assumes "bound_inv s" and "\<not> crashed s" and "\<not> destroyed s" and "exec_event E E_Thread s = None"
  shows "thread_ended s \<or> (\<exists>i. m_thread s = T_Wait i False) \<or> status_lock s \<noteq> C_None"
  using assms by (cases "m_thread s") (auto simp: exec_event_def thread_step_def thread_ended_def bound_inv_def
      status_mutex_free_def split: if_splits)

text \<open>
  C6: The execution thread of a device without the WhoAmI feature ends. From its first statement it
  makes at most 17 steps, whatever its scripts, timers and services do and whatever events come in
  between; and at every moment it can make its next one, unless it has ended, waits for a task
  that nobody has reported on, or waits for the mutex of a handler that joins it.
\<close>

theorem thread_makes_few_steps:
  assumes "m_thread s = T_Begin" and "\<not> g_whoami_support_enabled s"
    and "run_events (exec_event E) es s = Some t" and "E_Init \<notin> set es" and "E_Resume \<notin> set es"
    and "\<not> crashed t" and "\<not> destroyed t"
  shows "count_list es E_Thread \<le> 17
    \<and> (if exec_event E E_Thread t = None
       then thread_ended t \<or> (\<exists>i. m_thread t = T_Wait i False) \<or> status_lock t \<noteq> C_None
       else count_list es E_Thread \<le> 16)"
proof -
  have s: "bound_inv s" "left s = 17" using assms(1,2) by (simp_all add: bound_inv_def left_def)
  note r = left_run [OF s(1) assms(3-5)]
  show ?thesis
  proof (cases "exec_event E E_Thread t")
    case None
    with r held_up [OF _ assms(6,7)] s(2) show ?thesis by auto
  next
    case (Some u)
    with left_event [of t E E_Thread u] r s(2) show ?thesis by auto
  qed
qed

theorem thread_makes_few_steps_witness:
  "\<exists>s c. m_thread s = T_Begin \<and> run_events (exec_event (sample_env plain_lib)) (cycle_tasks (sample_env plain_lib)) s = Some c
    \<and> count_list (cycle_tasks (sample_env plain_lib)) E_Thread = 13
    \<and> count_list (cycle_tasks (sample_env plain_lib)) E_Thread \<le> 17"
proof -
  let ?E = "sample_env plain_lib"
  from boot_step [OF sample_starts(1), of "\<lparr>files = Map.empty, openable = (\<lambda>_. True)\<rparr>"]
  obtain s where s: "live s" "status_lock s = C_None" "m_thread s = T_Begin" "\<not> g_whoami_support_enabled s"
    "\<not> g_suppress_maintenance_enabled s" "\<not> m_abort_flag s" "g_task_status s = 0" by blast
  from cycle_run_report [OF sample_starts(2,3) [of plain_lib] s] obtain c t where
    c: "run_events (exec_event ?E) (cycle_tasks ?E) s = Some c" "exec_event ?E E_Resume c = Some t" by auto
  have alive: "\<not> crashed c" "\<not> destroyed c" using c(2) by (auto simp: exec_event_def split: if_splits)
  have "E_Init \<notin> set (cycle_tasks ?E)" "E_Resume \<notin> set (cycle_tasks ?E)"
    "count_list (cycle_tasks ?E) E_Thread = 13"
    by (auto simp: cycle_tasks_def task_round_def completion_def)
  with thread_makes_few_steps [OF s(3,4) c(1) _ _ alive] c(1) s(3) show ?thesis by blast
qed

end
