(* ===== verification/MaintOutcome.thy ===== *)
theory MaintOutcome
  imports MaintLiveness
begin

text \<open>
  A maintenance cycle by what becomes of its tasks: a task reports that it has completed, reports an
  error, reports nothing until the timer expires, or cannot be started at all.
\<close>

subsection \<open>Outcomes of a task\<close>

datatype outcome = O_Completed | O_Failed | O_TimedOut | O_NoStart

definition failure_module :: "TaskIndices \<Rightarrow> IARM_Maint_module_status_t" where
  "failure_module t = (case t of TASK_RFC \<Rightarrow> MAINT_RFC_ERROR
     | TASK_SWUPDATE \<Rightarrow> MAINT_FWDOWNLOAD_ERROR | TASK_LOGUPLOAD \<Rightarrow> MAINT_LOGUPLOAD_ERROR)"

definition failure :: "env \<Rightarrow> TaskIndices \<Rightarrow> event" where
  "failure E t = E_Iarm (env_iarm_name E) (env_event_update E) (failure_module t)"

lemma module_event_failure: "module_event (failure_module t) = task_error_event t"
  by (cases t) (simp_all add: failure_module_def module_event_def)

text \<open>The events of one task, up to the next turn of the thread's loop.\<close>

fun task_events :: "env \<Rightarrow> TaskIndices \<Rightarrow> outcome \<Rightarrow> event list" where
  "task_events E t O_Completed = [E_Thread, E_Thread, completion E t, E_Thread]"
| "task_events E t O_Failed = [E_Thread, E_Thread, failure E t, E_Thread]"
| "task_events E t O_TimedOut = [E_Thread, E_Thread, E_Alarm, E_Thread]"
| "task_events E t O_NoStart = [E_Thread, E_Thread]"

fun outcome_bits :: "u16 \<Rightarrow> TaskIndices \<Rightarrow> outcome \<Rightarrow> u16" where
  "outcome_bits v t O_Completed = task_done_bits v t"
| "outcome_bits v t _ = SET_STATUS v (task_complete_status t)"

text \<open>Whether the handler of the bus learns of the end of the task.\<close>

definition on_bus :: "outcome \<Rightarrow> bool" where
  "on_bus r \<longleftrightarrow> r = O_Completed \<or> r = O_Failed"

definition script_as :: "env \<Rightarrow> TaskIndices \<Rightarrow> outcome \<Rightarrow> bool" where
  "script_as E t r \<longleftrightarrow> (\<forall>n. env_system E n (task_names_foreground t @ '' &'') = 0 \<longleftrightarrow> r \<noteq> O_NoStart)"

subsection \<open>A task that has been started\<close>

definition waiting :: "nat \<Rightarrow> TaskIndices \<Rightarrow> u16 \<Rightarrow> Maint_notify_status_t list \<Rightarrow> csettings
    \<Rightarrow> Maintenance_Type_t \<times> bool \<Rightarrow> mm \<Rightarrow> bool" where
  "waiting i t v h c ty s \<longleftrightarrow> live s \<and> status_lock s = C_None \<and> m_notify_status s = MAINTENANCE_STARTED
     \<and> \<not> m_abort_flag s \<and> m_thread s = T_Wait i False \<and> g_task_timerCreated s \<and> timer_armed s
     \<and> currentTask s = task_names_foreground t \<and> m_task_map s (task_names_foreground t) = Some True
     \<and> tasks s = map task_names_foreground all_tasks \<and> g_task_status s = v
     \<and> notified_of (trace s) = h \<and> m_setting s = c \<and> (g_maintenance_type s, g_unsolicited_complete s) = ty"

lemma task_started:
  assumes "timer_works E" and "script_as E (all_tasks ! i) r" and "r \<noteq> O_NoStart"
    and ready: "ready i v h c ty s" and "i < 3"
  shows "\<exists>u. run_events (exec_event E) [E_Thread, E_Thread] s = Some u \<and> waiting i (all_tasks ! i) v h c ty u"
proof -
  have i: "i < length (tasks s)" "tasks s ! i = task_names_foreground (all_tasks ! i)"
    using assms(4,5) by (simp_all add: ready_def all_tasks_def nth_Cons split: nat.split)
  from ready obtain b where "m_thread s = T_Loop i TASK_RETRY_COUNT b" by (auto simp: ready_def)
  with invoke_step [of s E i b] assms i obtain n where
    1: "exec_event E E_Thread s = Some (s\<lparr>currentTask := tasks s ! i, g_task_timerCreated := True,
      timer_armed := True, m_task_map := (m_task_map s)(tasks s ! i \<mapsto> True),
      trace := Ran (tasks s ! i @ '' &'') # trace s, tick := n, m_thread := T_Invoked i\<rparr>)" (is "_ = Some ?a")
    by (auto simp: ready_def script_as_def)
  have 2: "exec_event E E_Thread ?a = Some (?a\<lparr>m_thread := T_Wait i False\<rparr>)"
    using ready by (intro wait_step) (simp_all add: ready_def live_def)
  have "run_events (exec_event E) [E_Thread, E_Thread] s = Some (?a\<lparr>m_thread := T_Wait i False\<rparr>)"
    by (simp only: run_events.simps 1 2 option.case)
  moreover have "waiting i (all_tasks ! i) v h c ty (?a\<lparr>m_thread := T_Wait i False\<rparr>)"
    using ready i by (simp add: waiting_def ready_def live_def)
  ultimately show ?thesis by blast
qed

text \<open>The three ways in which the wait for it ends.\<close>

lemma failure_step:
  assumes "waiting i t v h c ty s"
  shows "exec_event E (failure E t) s = Some (after (verdict E)
    (s\<lparr>g_task_status := SET_STATUS (g_task_status s) (task_complete_status t), m_thread := T_Wait i True,
      m_task_map := (m_task_map s)(task_names_foreground t \<mapsto> True)\<rparr>))"
  using assms
  by (simp add: waiting_def failure_def exec_event_def live_def status_mutex_free_def iarm_enter_split
      module_event_failure task_error_event_def ignores_event_def notify_thread_def)

lemma alarm_step:
  assumes "waiting i t v h c ty s"
  shows "exec_event E E_Alarm s = Some (s\<lparr>timer_armed := False,
    g_task_status := SET_STATUS (g_task_status s) (task_complete_status t), m_thread := T_Wait i True,
    m_task_map := (m_task_map s)(task_names_foreground t \<mapsto> False)\<rparr>)"
  using assms
  by (cases s) (simp add: waiting_def exec_event_def live_def alarm_def timer_handler_def find_task_name
      task_flag_def notify_thread_def)

text \<open>What the handler of the bus does at the end of a task, and whether it stops the lock.\<close>

fun report_event :: "env \<Rightarrow> TaskIndices \<Rightarrow> outcome \<Rightarrow> event" where
  "report_event E t O_Completed = completion E t"
| "report_event E t O_Failed = failure E t"
| "report_event E t _ = E_Alarm"

lemma task_events_started: "r \<noteq> O_NoStart \<Longrightarrow> task_events E t r = [E_Thread, E_Thread] @ [report_event E t r, E_Thread]"
  by (cases r) simp_all

lemma report_step_bus:
  assumes "waiting i t v h c ty s" and "on_bus r"
  shows "exec_event E (report_event E t r) s = Some (after (verdict E)
    (s\<lparr>g_task_status := outcome_bits v t r, m_thread := T_Wait i True,
      m_task_map := (m_task_map s)(task_names_foreground t \<mapsto> (r = O_Failed))\<rparr>))"
proof (cases r)
  case O_Completed
  with assms(1) completion_step [of s t i E] show ?thesis by (simp add: waiting_def)
next
  case O_Failed
  with assms(1) failure_step [OF assms(1)] show ?thesis by (simp add: waiting_def)
qed (use assms(2) in \<open>simp_all add: on_bus_def\<close>)

subsection \<open>One task, and the next\<close>

lemma thread_goes_on:
  assumes "live s" and "timer_works E" and "g_task_timerCreated s" and "m_thread s = T_Wait i True"
    and "status_lock s = C_None" and "m_notify_status s = MAINTENANCE_STARTED" and "\<not> m_abort_flag s"
    and "tasks s = map task_names_foreground all_tasks"
  shows "\<exists>u. exec_event E E_Thread s = Some u \<and> \<not> timer_armed u \<and> m_task_map u = m_task_map s
    \<and> ready (Suc i) (g_task_status s) (notified_of (trace s)) (m_setting s) (g_maintenance_type s, g_unsolicited_complete s) u"
  using woken_step [OF assms(1-4)] assms by (auto simp: ready_def live_def)

lemma outcome_nostart:
  assumes "timer_works E" and "script_as E (all_tasks ! i) O_NoStart" and ready: "ready i v h c ty s" and "i < 3"
  shows "\<exists>u. run_events (exec_event E) (task_events E (all_tasks ! i) O_NoStart) s = Some u \<and> \<not> timer_armed u
    \<and> ready (Suc i) (outcome_bits v (all_tasks ! i) O_NoStart) h c ty u
    \<and> m_task_map u (task_names_foreground (all_tasks ! i)) = Some False"
proof -
  have i: "i < length (tasks s)" "tasks s ! i = task_names_foreground (all_tasks ! i)"
    using ready assms(4) by (simp_all add: ready_def all_tasks_def nth_Cons split: nat.split)
  from ready obtain b where b: "m_thread s = T_Loop i TASK_RETRY_COUNT b" by (auto simp: ready_def)
  have sys: "env_system E n (tasks s ! i @ '' &'') \<noteq> 0" for n using assms(2) i by (simp add: script_as_def)
  from failed_first [of s E i b, OF _ assms(1) b i(1) _ sys] ready obtain n where
    1: "exec_event E E_Thread s = Some (s\<lparr>currentTask := tasks s ! i, g_task_timerCreated := True,
      timer_armed := True, m_task_map := (m_task_map s)(tasks s ! i \<mapsto> False),
      trace := Ran (tasks s ! i @ '' &'') # trace s, tick := n, m_thread := T_Loop i 0 True\<rparr>)" (is "_ = Some ?a")
    by (auto simp: ready_def)
  have "\<exists>n. exec_event E E_Thread ?a = Some (?a\<lparr>currentTask := tasks ?a ! i, timer_armed := False,
    m_task_map := (m_task_map ?a)(tasks ?a ! i \<mapsto> False),
    g_task_status := SET_STATUS (g_task_status ?a) (task_complete_status (all_tasks ! i)),
    trace := Ran (tasks ?a ! i @ '' &'') # trace ?a, tick := n,
    m_thread := T_Loop (Suc i) TASK_RETRY_COUNT True\<rparr>)"
    by (rule failed_second) (use assms(1) ready i sys in \<open>simp_all add: ready_def live_def\<close>)
  then obtain m where 2: "exec_event E E_Thread ?a = Some (?a\<lparr>currentTask := tasks ?a ! i, timer_armed := False,
    m_task_map := (m_task_map ?a)(tasks ?a ! i \<mapsto> False),
    g_task_status := SET_STATUS (g_task_status ?a) (task_complete_status (all_tasks ! i)),
    trace := Ran (tasks ?a ! i @ '' &'') # trace ?a, tick := m,
    m_thread := T_Loop (Suc i) TASK_RETRY_COUNT True\<rparr>)" (is "_ = Some ?b") by blast
  have "run_events (exec_event E) (task_events E (all_tasks ! i) O_NoStart) s = Some ?b"
    by (simp only: task_events.simps run_events.simps 1 2 option.case)
  moreover have "ready (Suc i) (outcome_bits v (all_tasks ! i) O_NoStart) h c ty ?b"
    using ready by (auto simp: ready_def live_def)
  moreover have "m_task_map ?b (task_names_foreground (all_tasks ! i)) = Some False" "\<not> timer_armed ?b"
    using i by simp_all
  ultimately show ?thesis by blast
qed

text \<open>The timer ends the wait for a task as its report would, but it does not ask for the end of the cycle.\<close>

lemma outcome_timeout:
  assumes "timer_works E" and "script_as E (all_tasks ! i) O_TimedOut" and ready: "ready i v h c ty s" and "i < 3"
  shows "\<exists>u. run_events (exec_event E) (task_events E (all_tasks ! i) O_TimedOut) s = Some u \<and> \<not> timer_armed u
    \<and> ready (Suc i) (outcome_bits v (all_tasks ! i) O_TimedOut) h c ty u
    \<and> m_task_map u (task_names_foreground (all_tasks ! i)) = Some False"
proof -
  from task_started [OF assms(1,2) _ ready assms(4)] obtain u where
    u: "run_events (exec_event E) [E_Thread, E_Thread] s = Some u" "waiting i (all_tasks ! i) v h c ty u" by auto
  let ?t = "all_tasks ! i"
  let ?a = "u\<lparr>timer_armed := False, g_task_status := SET_STATUS (g_task_status u) (task_complete_status ?t),
    m_thread := T_Wait i True, m_task_map := (m_task_map u)(task_names_foreground ?t \<mapsto> False)\<rparr>"
  have "\<exists>w. exec_event E E_Thread ?a = Some w \<and> \<not> timer_armed w \<and> m_task_map w = m_task_map ?a
    \<and> ready (Suc i) (g_task_status ?a) (notified_of (trace ?a)) (m_setting ?a)
        (g_maintenance_type ?a, g_unsolicited_complete ?a) w"
    by (rule thread_goes_on) (use u(2) assms(1) in \<open>simp_all add: waiting_def live_def\<close>)
  then obtain w where w: "exec_event E E_Thread ?a = Some w" "\<not> timer_armed w" "m_task_map w = m_task_map ?a"
    "ready (Suc i) (outcome_bits v ?t O_TimedOut) h c ty w"
    using u(2) by (auto simp: waiting_def)
  have "run_events (exec_event E) (task_events E ?t O_TimedOut) s = Some w"
    using run_events_then [OF u(1), of "[E_Alarm, E_Thread]"]
    by (simp only: task_events.simps append.simps run_events.simps alarm_step [OF u(2)] w(1) option.case)
  with w show ?thesis by auto
qed

lemma outcome_bus:
  assumes "timer_works E" and "script_as E (all_tasks ! i) r" and "on_bus r" and ready: "ready i v h c ty s" and "i < 3"
    and bits: "\<not> mask_set (outcome_bits v (all_tasks ! i) r) TASKS_COMPLETED"
  shows "\<exists>u. run_events (exec_event E) (task_events E (all_tasks ! i) r) s = Some u
    \<and> ready (Suc i) (outcome_bits v (all_tasks ! i) r) h c ty u"
proof -
  let ?t = "all_tasks ! i"
  have r: "r \<noteq> O_NoStart" using assms(3) by (auto simp: on_bus_def)
  from task_started [OF assms(1,2) r ready assms(5)] obtain u where
    u: "run_events (exec_event E) [E_Thread, E_Thread] s = Some u" "waiting i ?t v h c ty u" by blast
  let ?a = "u\<lparr>g_task_status := outcome_bits v ?t r, m_thread := T_Wait i True,
      m_task_map := (m_task_map u)(task_names_foreground ?t \<mapsto> (r = O_Failed))\<rparr>"
  have 1: "exec_event E (report_event E ?t r) u = Some ?a"
    using report_step_bus [OF u(2) assms(3)] bits by (simp add: verdict_def cycle_result_spec)
  have "\<exists>w. exec_event E E_Thread ?a = Some w \<and> \<not> timer_armed w \<and> m_task_map w = m_task_map ?a
    \<and> ready (Suc i) (g_task_status ?a) (notified_of (trace ?a)) (m_setting ?a)
        (g_maintenance_type ?a, g_unsolicited_complete ?a) w"
    by (rule thread_goes_on) (use u(2) assms(1) in \<open>simp_all add: waiting_def live_def\<close>)
  then obtain w where w: "exec_event E E_Thread ?a = Some w" "ready (Suc i) (outcome_bits v ?t r) h c ty w"
    using u(2) by (auto simp: waiting_def)
  have "run_events (exec_event E) (task_events E ?t r) s = Some w"
    using run_events_then [OF u(1), of "[report_event E ?t r, E_Thread]"]
    by (simp only: task_events_started [OF r] append.simps run_events.simps 1 w(1) option.case)
  with w(2) show ?thesis by blast
qed

lemma outcome_more:
  assumes "timer_works E" and "script_as E (all_tasks ! i) r" and "ready i v h c ty s" and "i < 3"
    and "\<not> mask_set (outcome_bits v (all_tasks ! i) r) TASKS_COMPLETED"
  shows "\<exists>u. run_events (exec_event E) (task_events E (all_tasks ! i) r) s = Some u
    \<and> ready (Suc i) (outcome_bits v (all_tasks ! i) r) h c ty u"
proof (cases r)
  case O_NoStart
  with outcome_nostart [OF assms(1) _ assms(3,4)] assms(2) show ?thesis by blast
next
  case O_TimedOut
  with outcome_timeout [OF assms(1) _ assms(3,4)] assms(2) show ?thesis by blast
qed (use outcome_bus [OF assms(1,2) _ assms(3-5)] in \<open>simp_all add: on_bus_def\<close>)

subsection \<open>The last task\<close>

definition cycle_verdict :: "u16 \<Rightarrow> Maint_notify_status_t" where
  "cycle_verdict v = (if mask_set v ALL_TASKS_SUCCESS then MAINTENANCE_COMPLETE else MAINTENANCE_ERROR)"

abbreviation with_success_time :: "env \<Rightarrow> int \<Rightarrow> csettings \<Rightarrow> csettings" where
  "with_success_time E now c \<equiv> snd (setValue (env_json E) ''LastSuccessfulCompletionTime'' (to_string now)
     (snd (remove (env_json E) ''LastSuccessfulCompletionTime'' c)))"

lemma verdict_run:
  assumes "mask_set (g_task_status s) TASKS_COMPLETED" and "\<not> mask_set (g_task_status s) MAINTENANCE_TASK_SKIPPED"
  shows "\<exists>n c. after (verdict E) s = s\<lparr>tick := n, m_setting := c, status_lock := C_Iarm (cycle_verdict (g_task_status s))\<rparr>
    \<and> (cycle_verdict (g_task_status s) = MAINTENANCE_COMPLETE \<longrightarrow> c = with_success_time E (env_time E (tick s)) (m_setting s))"
proof (cases "mask_set (g_task_status s) ALL_TASKS_SUCCESS")
  case True
  with assms show ?thesis
    by (intro exI [of _ "Suc (tick s)"] exI [of _ "with_success_time E (env_time E (tick s)) (m_setting s)"])
      (simp add: verdict_def cycle_result_spec cycle_verdict_def)
next
  case False
  with assms show ?thesis
    by (intro exI [of _ "tick s"] exI [of _ "m_setting s"])
      (simp add: verdict_def cycle_result_spec cycle_verdict_def)
qed

text \<open>The end of a cycle on which the handler of the bus has decided.\<close>

definition cycle_over :: "u16 \<Rightarrow> Maint_notify_status_t \<Rightarrow> Maint_notify_status_t list \<Rightarrow> Maintenance_Type_t \<times> bool \<Rightarrow> mm \<Rightarrow> bool" where
  "cycle_over v st h ty s \<longleftrightarrow> live s \<and> m_thread s = T_None \<and> status_lock s = C_None \<and> m_notify_status s = st
     \<and> notified_of (trace s) = st # h \<and> g_task_status s = v \<and> \<not> timer_armed s
     \<and> (fst ty = UNSOLICITED_MAINTENANCE \<or> snd ty \<longrightarrow> g_unsolicited_complete s)"

lemma outcome_last_bus:
  assumes "timer_works E" and "script_as E TASK_LOGUPLOAD r" and "on_bus r" and ready: "ready 2 v h c ty s"
    and bits: "mask_set (outcome_bits v TASK_LOGUPLOAD r) TASKS_COMPLETED"
      "\<not> mask_set (outcome_bits v TASK_LOGUPLOAD r) MAINTENANCE_TASK_SKIPPED"
  shows "\<exists>u n. run_events (exec_event E) (task_events E TASK_LOGUPLOAD r @ [E_Thread, E_Resume]) s = Some u
    \<and> cycle_over (outcome_bits v TASK_LOGUPLOAD r) (cycle_verdict (outcome_bits v TASK_LOGUPLOAD r)) h ty u
    \<and> (cycle_verdict (outcome_bits v TASK_LOGUPLOAD r) = MAINTENANCE_COMPLETE \<longrightarrow>
        m_setting u = with_success_time E (env_time E n) c)"
proof -
  let ?t = TASK_LOGUPLOAD
  let ?v = "outcome_bits v ?t r"
  have t: "all_tasks ! 2 = ?t" by (simp add: all_tasks_def)
  have r: "r \<noteq> O_NoStart" using assms(3) by (auto simp: on_bus_def)
  from task_started [of E 2 r, OF assms(1) _ r ready] assms(2) t obtain u where
    u: "run_events (exec_event E) [E_Thread, E_Thread] s = Some u" "waiting 2 ?t v h c ty u" by auto
  let ?a = "u\<lparr>g_task_status := ?v, m_thread := T_Wait 2 True,
      m_task_map := (m_task_map u)(task_names_foreground ?t \<mapsto> (r = O_Failed))\<rparr>"
  from verdict_run [of ?a E] bits obtain n c' where
    v: "after (verdict E) ?a = ?a\<lparr>tick := n, m_setting := c', status_lock := C_Iarm (cycle_verdict ?v)\<rparr>"
      "cycle_verdict ?v = MAINTENANCE_COMPLETE \<longrightarrow> c' = with_success_time E (env_time E (tick u)) c"
    using u(2) by (auto simp: waiting_def)
  let ?b = "?a\<lparr>tick := n, m_setting := c', status_lock := C_Iarm (cycle_verdict ?v)\<rparr>"
  have 1: "exec_event E (report_event E ?t r) u = Some ?b"
    using report_step_bus [OF u(2) assms(3)] v(1) by simp
  let ?d = "?b\<lparr>tick := Suc (tick ?b), timer_armed := False, m_thread := T_Loop (Suc 2) TASK_RETRY_COUNT True\<rparr>"
  have 2: "exec_event E E_Thread ?b = Some ?d"
    by (rule woken_step) (use u(2) assms(1) in \<open>simp_all add: waiting_def live_def\<close>)
  have len: "length (tasks ?d) \<le> Suc 2" using u(2) by (simp add: waiting_def all_tasks_def)
  have 3: "exec_event E E_Thread ?d = Some (?d\<lparr>m_thread := T_Done\<rparr>)" (is "_ = Some ?e")
    by (rule loop_end_step [OF _ _ len]) (use u(2) in \<open>simp_all add: waiting_def live_def\<close>)
  have 4: "exec_event E E_Resume ?e = Some (?e\<lparr>m_thread := T_None, status_lock := C_None,
      g_unsolicited_complete := (g_unsolicited_complete ?e \<or> g_maintenance_type ?e = UNSOLICITED_MAINTENANCE),
      m_notify_status := cycle_verdict ?v, trace := Notified (cycle_verdict ?v) # trace ?e\<rparr>)" (is "_ = Some ?f")
    by (rule report_step) (use u(2) in \<open>simp_all add: waiting_def live_def\<close>)
  have "run_events (exec_event E) (task_events E ?t r @ [E_Thread, E_Resume]) s = Some ?f"
    using run_events_then [OF u(1), of "[report_event E ?t r, E_Thread, E_Thread, E_Resume]"]
    by (simp only: task_events_started [OF r] append.simps run_events.simps 1 2 3 4 option.case)
  moreover have "cycle_over ?v (cycle_verdict ?v) h ty ?f"
    using u(2) by (auto simp: cycle_over_def waiting_def live_def)
  moreover have "cycle_verdict ?v = MAINTENANCE_COMPLETE \<longrightarrow> m_setting ?f = with_success_time E (env_time E (tick u)) c"
    using v(2) by simp
  ultimately show ?thesis by blast
qed


text \<open>
  Where the last task ends without a message, the thread ends and nothing is reported. Any message of the
  bus then makes the handler look at the bits.
\<close>

definition cycle_silent :: "u16 \<Rightarrow> Maint_notify_status_t list \<Rightarrow> mm \<Rightarrow> bool" where
  "cycle_silent v h s \<longleftrightarrow> live s \<and> m_thread s = T_Done \<and> status_lock s = C_None
     \<and> m_notify_status s = MAINTENANCE_STARTED \<and> notified_of (trace s) = h \<and> g_task_status s = v
     \<and> \<not> timer_armed s \<and> \<not> m_abort_flag s \<and> m_task_map s (task_names_foreground TASK_LOGUPLOAD) = Some False"

lemma outcome_last_silent:
  assumes "timer_works E" and "script_as E TASK_LOGUPLOAD r" and "\<not> on_bus r" and ready: "ready 2 v h c ty s"
  shows "\<exists>u. run_events (exec_event E) (task_events E TASK_LOGUPLOAD r @ [E_Thread]) s = Some u
    \<and> cycle_silent (outcome_bits v TASK_LOGUPLOAD r) h u"
proof -
  have t: "all_tasks ! 2 = TASK_LOGUPLOAD" by (simp add: all_tasks_def)
  have "r = O_NoStart \<or> r = O_TimedOut" using assms(3) by (cases r) (simp_all add: on_bus_def)
  then have "\<exists>u. run_events (exec_event E) (task_events E TASK_LOGUPLOAD r) s = Some u \<and> \<not> timer_armed u
      \<and> ready (Suc 2) (outcome_bits v TASK_LOGUPLOAD r) h c ty u
      \<and> m_task_map u (task_names_foreground TASK_LOGUPLOAD) = Some False"
    using outcome_nostart [OF assms(1) _ ready] outcome_timeout [OF assms(1) _ ready] assms(2) t by auto
  then obtain u where u: "run_events (exec_event E) (task_events E TASK_LOGUPLOAD r) s = Some u" "\<not> timer_armed u"
      "ready (Suc 2) (outcome_bits v TASK_LOGUPLOAD r) h c ty u"
      "m_task_map u (task_names_foreground TASK_LOGUPLOAD) = Some False" by blast
  from u(3) obtain b where b: "m_thread u = T_Loop (Suc 2) TASK_RETRY_COUNT b" by (auto simp: ready_def)
  have "exec_event E E_Thread u = Some (u\<lparr>m_thread := T_Done\<rparr>)"
    by (rule loop_end_step [OF _ b]) (use u(3) in \<open>simp_all add: ready_def all_tasks_def\<close>)
  then have "run_events (exec_event E) (task_events E TASK_LOGUPLOAD r @ [E_Thread]) s = Some (u\<lparr>m_thread := T_Done\<rparr>)"
    by (simp only: run_events_then [OF u(1)] run_events.simps option.case)
  moreover have "cycle_silent (outcome_bits v TASK_LOGUPLOAD r) h (u\<lparr>m_thread := T_Done\<rparr>)"
    using u(2-4) by (simp add: cycle_silent_def ready_def live_def)
  ultimately show ?thesis by blast
qed

text \<open>A message of any module after the end.\<close>

lemma message_after_end:
  assumes "cycle_silent v h s" and "mask_set v TASKS_COMPLETED" and "bits_ok v" and "\<not> bit v LOGUPLOAD_SUCCESS"
  shows "let u = after (module_event ms) s in live u \<and> m_thread u = T_Done \<and> status_lock u = C_None
    \<and> notified_of (trace u) = h \<and> mask_set (g_task_status u) TASKS_COMPLETED \<and> bits_ok (g_task_status u)
    \<and> \<not> bit (g_task_status u) LOGUPLOAD_SUCCESS \<and> \<not> timer_armed u
    \<and> g_maintenance_type u = g_maintenance_type s \<and> g_unsolicited_complete u = g_unsolicited_complete s"
proof -
  have keep: "mask_set (SET_STATUS w n) TASKS_COMPLETED" if "mask_set w TASKS_COMPLETED" for w n
    by (rule mask_set_mono [OF that])
  show ?thesis
    using assms
    by (cases ms) (simp_all add: cycle_silent_def live_def module_event_def task_complete_event_def task_error_event_def
        task_inprogress_event_def ignores_event_def notify_thread_def keep bits_ok_success bits_ok_complete bits_ok_flag
        bit_SET_STATUS task_success_status_def task_complete_status_def Let_def,
        simp_all add: status_bit_defs bits_ok_flag bits_ok_def bit_SET_STATUS, blast)
qed


lemma next_message_ends_cycle:
  assumes "cycle_silent v h s" and "mask_set v TASKS_COMPLETED" and "bits_ok v" and "\<not> bit v LOGUPLOAD_SUCCESS"
  shows "\<exists>u w. run_events (exec_event E) [E_Iarm (env_iarm_name E) (env_event_update E) ms, E_Resume] s = Some u
    \<and> cycle_over w MAINTENANCE_ERROR h (g_maintenance_type s, g_unsolicited_complete s) u"
proof -
  let ?m = "after (module_event ms) s"
  note m = message_after_end [OF assms, of ms, unfolded Let_def]
  have v: "cycle_verdict (g_task_status ?m) = MAINTENANCE_ERROR"
    using m by (auto simp: cycle_verdict_def all_tasks_success_iff status_bit_defs)
  from verdict_run [of ?m E] m bits_ok_not_skipped obtain n c where
    a: "after (verdict E) ?m = ?m\<lparr>tick := n, m_setting := c, status_lock := C_Iarm MAINTENANCE_ERROR\<rparr>"
    unfolding v by blast
  let ?a = "?m\<lparr>tick := n, m_setting := c, status_lock := C_Iarm MAINTENANCE_ERROR\<rparr>"
  have 1: "exec_event E (E_Iarm (env_iarm_name E) (env_event_update E) ms) s = Some ?a"
    using assms(1) a by (simp add: cycle_silent_def exec_event_def live_def status_mutex_free_def iarm_enter_split
        split_beta)
  have 2: "exec_event E E_Resume ?a = Some (?a\<lparr>m_thread := T_None, status_lock := C_None,
      g_unsolicited_complete := (g_unsolicited_complete ?a \<or> g_maintenance_type ?a = UNSOLICITED_MAINTENANCE),
      m_notify_status := MAINTENANCE_ERROR, trace := Notified MAINTENANCE_ERROR # trace ?a\<rparr>)" (is "_ = Some ?b")
    by (rule report_step) (use m in \<open>simp_all add: live_def\<close>)
  have "run_events (exec_event E) [E_Iarm (env_iarm_name E) (env_event_update E) ms, E_Resume] s = Some ?b"
    by (simp only: run_events.simps 1 2 option.case)
  moreover have "cycle_over (g_task_status ?m) MAINTENANCE_ERROR h (g_maintenance_type s, g_unsolicited_complete s) ?b"
    using m by (auto simp: cycle_over_def live_def)
  ultimately show ?thesis by blast
qed

subsection \<open>A cycle by the outcomes of its tasks\<close>

definition outcomes_bits :: "(TaskIndices \<Rightarrow> outcome) \<Rightarrow> u16" where
  "outcomes_bits o' = outcome_bits (outcome_bits (outcome_bits 0 TASK_RFC (o' TASK_RFC)) TASK_SWUPDATE (o' TASK_SWUPDATE))
     TASK_LOGUPLOAD (o' TASK_LOGUPLOAD)"

lemma bit_outcome:
  "bit (outcome_bits v t r) k \<longleftrightarrow> bit v k \<or> k = task_complete_status t \<or> (r = O_Completed \<and> k = task_success_status t)"
  by (cases r; cases t) (auto simp: bit_SET_STATUS task_complete_status_def task_success_status_def status_bit_defs)

lemma outcomes_bits_facts:
  "mask_set (outcomes_bits o') TASKS_COMPLETED" "bits_ok (outcomes_bits o')"
  "mask_set (outcomes_bits o') ALL_TASKS_SUCCESS \<longleftrightarrow> list_all (\<lambda>t. o' t = O_Completed) all_tasks"
  "bit (outcomes_bits o') LOGUPLOAD_SUCCESS \<longleftrightarrow> o' TASK_LOGUPLOAD = O_Completed"
  by (auto simp: outcomes_bits_def tasks_completed_iff all_tasks_success_iff bits_ok_def bit_outcome bit_SET_STATUS all_tasks_def
      task_complete_status_def task_success_status_def status_bit_defs)

lemma bits_unfinished:
  "\<not> mask_set (outcome_bits 0 TASK_RFC r) TASKS_COMPLETED"
  "\<not> mask_set (outcome_bits (outcome_bits 0 TASK_RFC r) TASK_SWUPDATE r') TASKS_COMPLETED"
  by (auto simp: tasks_completed_iff bit_outcome task_complete_status_def task_success_status_def status_bit_defs)

definition scripts_as :: "env \<Rightarrow> (TaskIndices \<Rightarrow> outcome) \<Rightarrow> bool" where
  "scripts_as E o' \<longleftrightarrow> list_all (\<lambda>t. script_as E t (o' t)) all_tasks"

definition tasks_of :: "env \<Rightarrow> (TaskIndices \<Rightarrow> outcome) \<Rightarrow> event list" where
  "tasks_of E o' = concat (map (\<lambda>t. task_events E t (o' t)) all_tasks) @ [E_Thread]
     @ (if on_bus (o' TASK_LOGUPLOAD) then [E_Resume] else [])"

definition cycle_of :: "env \<Rightarrow> (TaskIndices \<Rightarrow> outcome) \<Rightarrow> event list" where
  "cycle_of E o' = [E_Thread, E_Thread, E_Thread] @ tasks_of E o'"

definition cycle_end :: "env \<Rightarrow> (TaskIndices \<Rightarrow> outcome) \<Rightarrow> Maint_notify_status_t list \<Rightarrow> csettings
    \<Rightarrow> Maintenance_Type_t \<times> bool \<Rightarrow> nat \<Rightarrow> mm \<Rightarrow> bool" where
  "cycle_end E o' h c ty n u \<longleftrightarrow>
     (if on_bus (o' TASK_LOGUPLOAD)
      then cycle_over (outcomes_bits o') (cycle_verdict (outcomes_bits o')) h ty u
        \<and> (cycle_verdict (outcomes_bits o') = MAINTENANCE_COMPLETE \<longrightarrow> m_setting u = with_success_time E (env_time E n) c)
      else cycle_silent (outcomes_bits o') h u)"

lemma tasks_run:
  assumes "timer_works E" and "scripts_as E o'" and "ready 0 0 h c ty s"
  shows "\<exists>u. run_events (exec_event E) (task_events E TASK_RFC (o' TASK_RFC) @ task_events E TASK_SWUPDATE (o' TASK_SWUPDATE)) s
      = Some u \<and> ready 2 (outcome_bits (outcome_bits 0 TASK_RFC (o' TASK_RFC)) TASK_SWUPDATE (o' TASK_SWUPDATE)) h c ty u"
proof -
  have t: "all_tasks ! 0 = TASK_RFC" "all_tasks ! Suc 0 = TASK_SWUPDATE" by (simp_all add: all_tasks_def)
  have o: "script_as E TASK_RFC (o' TASK_RFC)" "script_as E TASK_SWUPDATE (o' TASK_SWUPDATE)"
    using assms(2) by (simp_all add: scripts_as_def all_tasks_def)
  from outcome_more [OF assms(1) _ assms(3)] t(1) o(1) bits_unfinished(1) obtain u1 where
    u1: "run_events (exec_event E) (task_events E TASK_RFC (o' TASK_RFC)) s = Some u1"
      "ready (Suc 0) (outcome_bits 0 TASK_RFC (o' TASK_RFC)) h c ty u1" by fastforce
  from outcome_more [OF assms(1) _ u1(2)] t(2) o(2) bits_unfinished(2) obtain u2 where
    u2: "run_events (exec_event E) (task_events E TASK_SWUPDATE (o' TASK_SWUPDATE)) u1 = Some u2"
      "ready 2 (outcome_bits (outcome_bits 0 TASK_RFC (o' TASK_RFC)) TASK_SWUPDATE (o' TASK_SWUPDATE)) h c ty u2"
    by (fastforce simp: numeral_2_eq_2)
  then show ?thesis by (auto simp: run_events_then [OF u1(1)])
qed

lemma tasks_of_run:
  assumes "timer_works E" and "scripts_as E o'" and ready: "ready 0 0 h c ty s"
  shows "\<exists>u n. run_events (exec_event E) (tasks_of E o') s = Some u \<and> cycle_end E o' h c ty n u"
proof -
  let ?r = "o' TASK_LOGUPLOAD"
  from tasks_run [OF assms] obtain u where
    u: "run_events (exec_event E) (task_events E TASK_RFC (o' TASK_RFC) @ task_events E TASK_SWUPDATE (o' TASK_SWUPDATE)) s
      = Some u"
      "ready 2 (outcome_bits (outcome_bits 0 TASK_RFC (o' TASK_RFC)) TASK_SWUPDATE (o' TASK_SWUPDATE)) h c ty u" by blast
  have o: "script_as E TASK_LOGUPLOAD ?r" using assms(2) by (simp add: scripts_as_def all_tasks_def)
  have run: "run_events (exec_event E) (tasks_of E o') s = run_events (exec_event E)
      (task_events E TASK_LOGUPLOAD ?r @ [E_Thread] @ (if on_bus ?r then [E_Resume] else [])) u"
    using run_events_then [OF u(1)] by (simp add: tasks_of_def all_tasks_def)
  show ?thesis
  proof (cases "on_bus ?r")
    case True
    with outcome_last_bus [OF assms(1) o True u(2)] outcomes_bits_facts(1) [of o']
      bits_ok_not_skipped [OF outcomes_bits_facts(2) [of o']] show ?thesis
      unfolding run by (auto simp: outcomes_bits_def cycle_end_def)
  next
    case False
    with outcome_last_silent [OF assms(1) o False u(2)] show ?thesis
      unfolding run by (simp add: outcomes_bits_def cycle_end_def)
  qed
qed

lemma cycle_of_run:
  assumes "timer_works E" and "scripts_as E o'" and on: "device_online E" and live: "live s"
    and "status_lock s = C_None" and "m_thread s = T_Begin" and "\<not> g_whoami_support_enabled s"
    and "\<not> g_suppress_maintenance_enabled s" and "\<not> m_abort_flag s" and "g_task_status s = 0"
  shows "\<exists>u n. run_events (exec_event E) (cycle_of E o') s = Some u
    \<and> cycle_end E o' (MAINTENANCE_STARTED # notified_of (trace s)) (m_setting s)
        (g_maintenance_type s, g_unsolicited_complete s) n u"
proof -
  from reach_first_task [OF on live] assms obtain u0
    where u0: "run_events (exec_event E) [E_Thread, E_Thread, E_Thread] s = Some u0"
      "ready 0 0 (MAINTENANCE_STARTED # notified_of (trace s)) (m_setting s)
        (g_maintenance_type s, g_unsolicited_complete s) u0" by auto
  from tasks_of_run [OF assms(1,2) u0(2)] show ?thesis
    unfolding cycle_of_def run_events_then [OF u0(1)] .
qed

text \<open>What the end of an unsolicited cycle says to the clients, and what becomes of one that says nothing.\<close>

lemma cycle_end_facts:
  assumes "cycle_end E o' h c ty n t" and "fst ty = UNSOLICITED_MAINTENANCE"
    and "settings_ok (env_json E) c" and "\<And>n. 0 \<le> env_time E n"
  shows "mask_set (g_task_status t) TASKS_COMPLETED" and "\<not> timer_armed t"
    and "on_bus (o' TASK_LOGUPLOAD) \<Longrightarrow> notified_of (trace t) = m_notify_status t # h \<and> m_thread t = T_None \<and> may_start t
      \<and> (if list_all (\<lambda>t. o' t = O_Completed) all_tasks
         then m_notify_status t = MAINTENANCE_COMPLETE
           \<and> LastSuccessfulCompletionTime (getMaintenanceActivityStatus t)
               = (if env_time E n < 2 ^ 31 then env_time E n else 0)
         else m_notify_status t = MAINTENANCE_ERROR)"
    and "\<not> on_bus (o' TASK_LOGUPLOAD) \<Longrightarrow> notified_of (trace t) = h \<and> m_notify_status t = MAINTENANCE_STARTED
      \<and> m_thread t = T_Done \<and> \<not> may_start t
      \<and> (\<exists>u. run_events (exec_event E) [E_Iarm (env_iarm_name E) (env_event_update E) ms, E_Resume] t = Some u
           \<and> m_notify_status u = MAINTENANCE_ERROR \<and> m_thread u = T_None)"
proof -
  note f = outcomes_bits_facts [of o']
  show "mask_set (g_task_status t) TASKS_COMPLETED" "\<not> timer_armed t"
    using assms(1) f(1) by (auto simp: cycle_end_def cycle_over_def cycle_silent_def split: if_splits)
  {
    assume "on_bus (o' TASK_LOGUPLOAD)"
    then have e: "cycle_over (outcomes_bits o') (cycle_verdict (outcomes_bits o')) h ty t"
      "cycle_verdict (outcomes_bits o') = MAINTENANCE_COMPLETE \<longrightarrow> m_setting t = with_success_time E (env_time E n) c"
      using assms(1) by (simp_all add: cycle_end_def)
    have "LastSuccessfulCompletionTime (getMaintenanceActivityStatus t) = (if env_time E n < 2 ^ 31 then env_time E n else 0)"
      if "list_all (\<lambda>t. o' t = O_Completed) all_tasks"
      using e(2) that f(3) by (intro stored_time [OF assms(3,4)]) (simp add: cycle_verdict_def)
    with e(1) assms(2) f(3) show "notified_of (trace t) = m_notify_status t # h \<and> m_thread t = T_None \<and> may_start t
      \<and> (if list_all (\<lambda>t. o' t = O_Completed) all_tasks
         then m_notify_status t = MAINTENANCE_COMPLETE
           \<and> LastSuccessfulCompletionTime (getMaintenanceActivityStatus t)
               = (if env_time E n < 2 ^ 31 then env_time E n else 0)
         else m_notify_status t = MAINTENANCE_ERROR)"
      by (auto simp: cycle_over_def cycle_verdict_def may_start_def)
  }
  {
    assume bus: "\<not> on_bus (o' TASK_LOGUPLOAD)"
    then have e: "cycle_silent (outcomes_bits o') h t" using assms(1) by (simp add: cycle_end_def)
    from bus have "\<not> bit (outcomes_bits o') LOGUPLOAD_SUCCESS" unfolding f(4) by (auto simp: on_bus_def)
    from next_message_ends_cycle [OF e f(1,2) this, of E ms] e
    show "notified_of (trace t) = h \<and> m_notify_status t = MAINTENANCE_STARTED
      \<and> m_thread t = T_Done \<and> \<not> may_start t
      \<and> (\<exists>u. run_events (exec_event E) [E_Iarm (env_iarm_name E) (env_event_update E) ms, E_Resume] t = Some u
           \<and> m_notify_status u = MAINTENANCE_ERROR \<and> m_thread u = T_None)"
      by (auto simp: cycle_silent_def cycle_over_def may_start_def simp del: run_events.simps)
  }
qed

text \<open>
  C2: What becomes of a cycle by what becomes of its tasks. On a device that boots with a network, for every
  combination of tasks that complete, report an error, are ended by the timer or cannot be started:
  all three are tried and marked complete, and the timer is off at the end. Where the handler of the
  bus learns of the end of the last task, it reports \<open>MAINTENANCE_COMPLETE\<close> when all three have
  completed, with the time of success (0 from 2038 on, when it no longer fits an \<open>int\<close>), and
  \<open>MAINTENANCE_ERROR\<close> otherwise; scheduled maintenance is possible then. But where the last task is
  ended by the timer or cannot be started, nothing is reported: the cycle stays
  \<open>MAINTENANCE_STARTED\<close> and no other can start, until some message of the bus ends it as an error.
\<close>

theorem cycle_ends_by_outcomes:
  assumes "env_starts E" and "timer_works E" and "device_online E" and "scripts_as E o'"
  shows "\<exists>t n. run_events (exec_event E) (E_Init # cycle_of E o') (constructed False fs) = Some t
    \<and> mask_set (g_task_status t) TASKS_COMPLETED \<and> \<not> timer_armed t
    \<and> (if on_bus (o' TASK_LOGUPLOAD)
       then notified_of (trace t) = [m_notify_status t, MAINTENANCE_STARTED, MAINTENANCE_IDLE]
         \<and> m_thread t = T_None \<and> may_start t
         \<and> (if list_all (\<lambda>t. o' t = O_Completed) all_tasks
            then m_notify_status t = MAINTENANCE_COMPLETE
              \<and> LastSuccessfulCompletionTime (getMaintenanceActivityStatus t)
                  = (if env_time E n < 2 ^ 31 then env_time E n else 0)
            else m_notify_status t = MAINTENANCE_ERROR)
       else notified_of (trace t) = [MAINTENANCE_STARTED, MAINTENANCE_IDLE]
         \<and> m_notify_status t = MAINTENANCE_STARTED \<and> m_thread t = T_Done \<and> \<not> may_start t
         \<and> (\<exists>u. run_events (exec_event E) [E_Iarm (env_iarm_name E) (env_event_update E) ms, E_Resume] t = Some u
              \<and> m_notify_status u = MAINTENANCE_ERROR \<and> m_thread u = T_None))"
proof -
  from boot_step [OF assms(1)] obtain s where s: "exec_event E E_Init (constructed False fs) = Some s"
    "live s" "status_lock s = C_None" "m_thread s = T_Begin" "\<not> g_whoami_support_enabled s"
    "\<not> g_suppress_maintenance_enabled s" "\<not> m_abort_flag s" "g_task_status s = 0"
    "notified_of (trace s) = [MAINTENANCE_IDLE]" "g_maintenance_type s = UNSOLICITED_MAINTENANCE"
    "settings_ok (env_json E) (cSettings fs MAINTENANCE_MGR_RECORD_FILE) \<longrightarrow> settings_ok (env_json E) (m_setting s)" by blast
  from cycle_of_run [OF assms(2,4,3) s(2-8), unfolded s(9)] obtain t n where
    r: "run_events (exec_event E) (cycle_of E o') s = Some t" and
    t: "cycle_end E o' [MAINTENANCE_STARTED, MAINTENANCE_IDLE] (m_setting s)
      (g_maintenance_type s, g_unsolicited_complete s) n t" by blast
  have run: "run_events (exec_event E) (E_Init # cycle_of E o') (constructed False fs) = Some t"
    by (simp only: run_events.simps s(1) option.case r)
  have ok: "settings_ok (env_json E) (m_setting s)" "\<And>n. 0 \<le> env_time E n"
    using s(11) cSettings_ok assms(1) by (auto simp: env_starts_def)
  note f = cycle_end_facts [OF t _ ok, unfolded fst_conv, OF s(10)]
  show ?thesis
    by (intro exI [of _ t] exI [of _ n] conjI run f(1,2)) (use f(3) f(4) [of ms] in \<open>simp del: run_events.simps\<close>)
qed

definition sample_outcomes :: "TaskIndices \<Rightarrow> outcome" where
  "sample_outcomes t = (if t = TASK_LOGUPLOAD then O_TimedOut else O_Completed)"

theorem cycle_ends_by_outcomes_witness:
  "\<exists>t u. run_events (exec_event (sample_env plain_lib)) (E_Init # cycle_of (sample_env plain_lib) sample_outcomes)
      sample_start = Some t \<and> m_notify_status t = MAINTENANCE_STARTED \<and> \<not> may_start t
    \<and> run_events (exec_event (sample_env plain_lib)) [E_Iarm ''MaintenanceMGR'' 0 MAINT_LOGUPLOAD_COMPLETE, E_Resume] t = Some u
    \<and> m_notify_status u = MAINTENANCE_ERROR"
proof -
  let ?E = "sample_env plain_lib"
  have s: "scripts_as ?E sample_outcomes"
    by (simp add: scripts_as_def script_as_def all_tasks_def sample_outcomes_def) (simp add: sample_env_def)
  have w: "timer_works ?E" using sample_starts(2) by (simp add: commands_start_def)
  have n: "env_iarm_name ?E = ''MaintenanceMGR''" "env_event_update ?E = 0" by (simp_all add: sample_env_def)
  have o: "\<not> on_bus (sample_outcomes TASK_LOGUPLOAD)" by (simp add: sample_outcomes_def on_bus_def)
  from cycle_ends_by_outcomes [OF sample_starts(1) w sample_starts(3) s,
      of "\<lparr>files = Map.empty, openable = (\<lambda>_. True)\<rparr>" MAINT_LOGUPLOAD_COMPLETE]
  show ?thesis unfolding sample_start_def n if_not_P [OF o] by blast
qed

end
