(* ===== verification/MaintUnknown.thy ===== *)
theory MaintUnknown
  imports MaintOutcome
begin

text \<open>
  The maintenance of a device that does not know its identity: the thread asks the security manager,
  sleeps until the initialization context is there, and runs the tasks then.
\<close>

subsection \<open>The context that is stored\<close>

definition context_complete :: "json_obj \<Rightarrow> bool" where
  "context_complete c \<longleftrightarrow> json_string c ''partnerId'' \<noteq> [] \<and> json_string c ''osClass'' \<noteq> []
     \<and> json_string c ''regionalConfigService'' \<noteq> []"

lemma context_result: "result_of (setDeviceInitializationContext E (Some c)) s \<longleftrightarrow> context_complete c"
  using set_context_keys_result [of E c kDeviceInitContextKeyVals False s]
  by (simp add: setDeviceInitializationContext_def split_beta kDeviceInitContextKeyVals_def context_complete_def
      del: set_context_keys.simps)

definition params_ok :: "mm \<Rightarrow> bool" where
  "params_ok s \<longleftrightarrow> m_param_map s = context_params \<and> m_paramType_map s = map_option (\<lambda>_. WDMP_STRING) \<circ> context_params"

lemma params_ok_frame: "frame s = frame t \<Longrightarrow> params_ok s = params_ok t"
  by (cases s; cases t) (simp add: frame_def core_def params_ok_def)

text \<open>What a complete context makes of the parameters of the device.\<close>

definition context_effects :: "json_obj \<Rightarrow> effect set" where
  "context_effects c = {RfcSet TR181_PARTNER_ID (json_string c ''partnerId'') WDMP_STRING,
     RfcSet TR181_TARGET_OS_CLASS (json_string c ''osClass'') WDMP_STRING,
     RfcSet TR181_XCONFURL (''https://'' @ json_string c ''regionalConfigService'') WDMP_STRING}"

lemma context_stored:
  assumes "context_complete c" and "params_ok s"
  shows "context_effects c \<subseteq> set (trace (after (setDeviceInitializationContext E (Some c)) s))"
proof -
  have p: "json_string context_params ''partnerId'' = TR181_PARTNER_ID"
    "json_string context_params ''osClass'' = TR181_TARGET_OS_CLASS"
    "json_string context_params ''regionalConfigService'' = TR181_XCONFURL"
    "context_params ''partnerId'' \<noteq> None" "context_params ''osClass'' \<noteq> None" "context_params ''regionalConfigService'' \<noteq> None"
    by (simp_all add: context_params_def json_string_def)
  show ?thesis
    using assms p
    by (simp add: context_complete_def params_ok_def context_effects_def setDeviceInitializationContext_def Let_def
        kDeviceInitContextKeyVals_def setRFC_def setPartnerId_def queryIAuthService_def split_beta option.case_eq_if
        option.map_sel)
qed

subsection \<open>From the boot to the sleep\<close>

definition whoami_starts :: "env \<Rightarrow> bool" where
  "whoami_starts E \<longleftrightarrow> json_lib_ok (env_json E) \<and> isWhoAmIEnabled E = Some True
     \<and> (\<forall>n. env_iarm_init E n) \<and> (\<forall>n. env_thread E n) \<and> (\<forall>n. 0 \<le> env_time E n)"

text \<open>The security manager runs but does not give a complete context, and the device is not activated.\<close>

definition device_unknown :: "env \<Rightarrow> bool" where
  "device_unknown E \<longleftrightarrow> (\<forall>n. env_service_state E n ''org.rdk.SecManager'' = Some PLUGIN_ACTIVATED)
     \<and> (\<forall>n l c. wai_success (env_wai E n l) = Some True \<longrightarrow> wai_context (env_wai E n l) = Some c \<longrightarrow> \<not> context_complete c)
     \<and> (\<forall>n. env_activation E n \<noteq> Some ''activated'')"

lemma not_activated: "device_unknown E \<Longrightarrow> result_of (checkActivatedStatus E) s \<noteq> ''activated''"
  by (auto simp: checkActivatedStatus_def device_unknown_def split_beta split: option.split)

lemma unknown_turn:
  assumes "device_unknown E"
  shows "result_of (knowWhoAmI_turn E a) s = Some False"
proof -
  have w: "wai_success (env_wai E n l) = Some True \<Longrightarrow> wai_context (env_wai E n l) = Some c \<Longrightarrow> \<not> context_complete c" for n l c
    using assms by (cases l) (simp add: device_unknown_def)
  have "env_service_state E n ''org.rdk.SecManager'' = Some PLUGIN_ACTIVATED" for n
    using assms by (simp add: device_unknown_def)
  then show ?thesis
    using w by (auto simp: knowWhoAmI_turn_def service_active_def getServiceState_def split_beta context_result
        split: option.split)
qed

definition at_boot :: "thread_pc \<Rightarrow> bool \<Rightarrow> csettings \<Rightarrow> mm \<Rightarrow> bool" where
  "at_boot p listens c s \<longleftrightarrow> live s \<and> status_lock s = C_None \<and> m_thread s = p \<and> g_listen_to_deviceContextUpdate s = listens
     \<and> g_whoami_support_enabled s \<and> \<not> m_abort_flag s \<and> g_task_status s = 0 \<and> notified_of (trace s) = [MAINTENANCE_IDLE]
     \<and> g_maintenance_type s = UNSOLICITED_MAINTENANCE \<and> \<not> g_unsolicited_complete s \<and> params_ok s \<and> m_setting s = c
     \<and> m_notify_status s = MAINTENANCE_IDLE \<and> tasks s = []"

lemma at_boot_frame:
  assumes "frame s = frame t" and "at_boot p l c t"
  shows "at_boot p l c s"
  using assms(2) frame_fields [OF assms(1)] params_ok_frame [OF assms(1)] by (simp add: at_boot_def live_def)

lemma at_boot_goto:
  assumes "frame s = frame t" and "at_boot p l c t"
  shows "at_boot q l c (s\<lparr>m_thread := q\<rparr>)"
  using at_boot_frame [OF assms] by (simp add: at_boot_def live_def params_ok_def)

lemma whoami_boot_step:
  assumes "whoami_starts E"
  shows "\<exists>s c. exec_event E E_Init (constructed b fs) = Some s \<and> at_boot T_Begin False c s
    \<and> (settings_ok (env_json E) (cSettings fs MAINTENANCE_MGR_RECORD_FILE) \<longrightarrow> settings_ok (env_json E) c)"
  using assms
  by (simp add: exec_event_def constructed_def status_mutex_free_def Initialize_def InitializeIARM_def
      subscribeToDeviceInitializationEvent_def getThunderPluginHandle_def at_boot_def params_ok_def split_beta
      maintenanceManagerOnBootup_def spawn_def whoami_starts_def live_def cs.replace_ok)

lemma thread_falls_asleep:
  assumes "device_unknown E" and boot: "at_boot T_Begin False c s"
  shows "\<exists>u sk. run_events (exec_event E) (replicate 5 E_Thread) s = Some u \<and> at_boot (T_SleepContext True sk) True c u"
proof -
  let ?a = "s\<lparr>tasks := [], m_thread := T_Checks True\<rparr>"
  have 1: "exec_event E E_Thread s = Some ?a"
    using boot by (simp add: at_boot_def exec_thread thread_step_def thread_begin_def delays_started_def)
  have a: "at_boot (T_Checks True) False c ?a" using boot by (simp add: at_boot_def live_def params_ok_def)
  let ?n = "result_of (isDeviceOnline E) ?a"
  let ?o = "after (isDeviceOnline E) ?a"
  let ?st = "result_of (checkActivatedStatus E) ?o"
  let ?b = "(after (checkActivatedStatus E) ?o)\<lparr>m_thread := T_WhoAmI True False ?n ?st\<rparr>"
  have o: "g_maintenance_type ?o = UNSOLICITED_MAINTENANCE"
    using a quiet_fields [OF quiet_isDeviceOnline, of E ?a] by (simp add: at_boot_def)
  have 2: "exec_event E E_Thread ?a = Some ?b"
    using a o by (simp add: at_boot_def exec_thread thread_step_def thread_checks_def split_beta Let_def)
  have "frame (after (checkActivatedStatus E) ?o) = frame ?a"
    by (simp add: quietD [OF quiet_checkActivatedStatus] quietD [OF quiet_isDeviceOnline])
  from at_boot_goto [OF this a] have b: "at_boot (T_WhoAmI True False ?n ?st) False c ?b" .
  let ?k = "after (knowWhoAmI_turn E ?st) ?b"
  let ?c = "?k\<lparr>g_listen_to_deviceContextUpdate := True, m_thread := T_WaitContext True False\<rparr>"
  have "result_of (knowWhoAmI_turn E ?st) ?b = Some False"
    by (rule unknown_turn [OF assms(1)])
  then have 3: "exec_event E E_Thread ?b = Some ?c"
    using b not_activated [OF assms(1)] by (simp add: at_boot_def exec_thread thread_step_def thread_whoami_def split_beta)
  from at_boot_frame [OF quietD [OF quiet_knowWhoAmI_turn] b] have c: "at_boot (T_WaitContext True False) True c ?c"
    by (simp add: at_boot_def live_def params_ok_def)
  let ?d = "?c\<lparr>m_thread := T_BlockContext True False\<rparr>"
  have 4: "exec_event E E_Thread ?c = Some ?d"
    using c by (simp add: at_boot_def exec_thread thread_step_def wait_context_def)
  have d: "at_boot (T_BlockContext True False) True c ?d" using c by (simp add: at_boot_def live_def params_ok_def)
  have 5: "exec_event E E_Thread ?d = Some (?d\<lparr>m_thread := T_SleepContext True False\<rparr>)"
    using d by (simp add: at_boot_def exec_thread thread_step_def)
  have "replicate 5 E_Thread = [E_Thread, E_Thread, E_Thread, E_Thread, E_Thread]" by (simp add: eval_nat_numeral)
  then have "run_events (exec_event E) (replicate 5 E_Thread) s = Some (?d\<lparr>m_thread := T_SleepContext True False\<rparr>)"
    by (simp only: run_events.simps 1 2 3 4 5 option.case)
  moreover have "at_boot (T_SleepContext True False) True c (?d\<lparr>m_thread := T_SleepContext True False\<rparr>)"
    using d by (simp add: at_boot_def live_def params_ok_def)
  ultimately show ?thesis by blast
qed

subsection \<open>From the sleep to the tasks\<close>

lemma partial_updates:
  assumes "at_boot p True c s" and "list_all (\<lambda>x. \<not> context_complete x) xs"
  shows "\<exists>u. run_events (exec_event E) (map (\<lambda>x. E_Context (Some x)) xs) s = Some u \<and> at_boot p True c u"
  using assms
proof (induction xs arbitrary: s)
  case Nil
  then show ?case by simp
next
  case (Cons x xs)
  let ?u = "after (setDeviceInitializationContext E (Some x)) s"
  have 1: "exec_event E (E_Context (Some x)) s = Some ?u"
    using Cons.prems context_result [of E x s]
    by (simp add: exec_event_def at_boot_def live_def deviceInitializationContextEventHandler_def split_beta)
  have "at_boot p True c ?u" by (rule at_boot_frame [OF quietD [OF quiet_setDeviceInitializationContext] Cons.prems(1)])
  with Cons.IH [of ?u] Cons.prems(2) obtain u where
    "run_events (exec_event E) (map (\<lambda>x. E_Context (Some x)) xs) ?u = Some u \<and> at_boot p True c u" by auto
  with 1 show ?case by simp
qed

lemma update_starts_tasks:
  assumes boot: "at_boot (T_SleepContext True sk) True c s" and x: "context_complete x"
  shows "\<exists>a u. exec_event E (E_Context (Some x)) s = Some a \<and> context_effects x \<subseteq> set (trace a)
    \<and> run_events (exec_event E) [E_Thread, E_Thread] a = Some u
    \<and> ready 0 0 [MAINTENANCE_STARTED, MAINTENANCE_IDLE] c (UNSOLICITED_MAINTENANCE, False) u"
proof -
  let ?w = "after (setDeviceInitializationContext E (Some x)) s"
  have w: "at_boot (T_SleepContext True sk) True c ?w"
    by (rule at_boot_frame [OF quietD [OF quiet_setDeviceInitializationContext] boot])
  let ?a = "?w\<lparr>g_listen_to_deviceContextUpdate := False, m_thread := T_WaitContext True sk\<rparr>"
  have 1: "exec_event E (E_Context (Some x)) s = Some ?a"
    using boot w x context_result [of E x s]
    by (simp add: exec_event_def at_boot_def live_def deviceInitializationContextEventHandler_def split_beta notify_thread_def)
  have e: "context_effects x \<subseteq> set (trace ?a)"
    using context_stored [OF x] boot by (simp add: at_boot_def)
  let ?b = "?a\<lparr>m_thread := T_Proceed True sk\<rparr>"
  have 2: "exec_event E E_Thread ?a = Some ?b"
    using w by (simp add: exec_event_def at_boot_def live_def thread_step_def wait_context_def)
  let ?c = "?b\<lparr>m_notify_status := MAINTENANCE_STARTED, trace := Notified MAINTENANCE_STARTED # trace ?b,
    tasks := tasks ?b @ map task_names_foreground all_tasks, m_thread := T_Loop 0 TASK_RETRY_COUNT False\<rparr>"
  have 3: "exec_event E E_Thread ?b = Some ?c"
    using w by (simp add: exec_event_def at_boot_def live_def thread_step_def thread_proceed_def status_mutex_free_def
        all_tasks_def)
  have "ready 0 0 [MAINTENANCE_STARTED, MAINTENANCE_IDLE] c (UNSOLICITED_MAINTENANCE, False) ?c"
    using w by (auto simp: at_boot_def ready_def live_def)
  moreover have "run_events (exec_event E) [E_Thread, E_Thread] ?a = Some ?c"
    by (simp only: run_events.simps 2 3 option.case)
  ultimately show ?thesis using 1 e by blast
qed

subsection \<open>The whole cycle\<close>


text \<open>A device without identity, on which all else works; the update that comes first has no partner.\<close>

definition unknown_env :: "json_lib \<Rightarrow> env" where
  "unknown_env L = (sample_env L)\<lparr>env_device_properties := Some (''WHOAMI_SUPPORT=true'' @ [newline]),
     env_activation := (\<lambda>n. Some ''not-activated''), env_connected := (\<lambda>n l. (0, Some False))\<rparr>"

definition known_context :: json_obj where
  "known_context = [''partnerId'' \<mapsto> ''comcast'', ''osClass'' \<mapsto> ''rdk'', ''regionalConfigService'' \<mapsto> ''config'']"


end
