(* ===== verification/StartTime.thy ===== *)
theory StartTime
  imports Settings
begin

text \<open>
  The start time of scheduled maintenance: \<open>getTimeZone\<close>, \<open>IsValidTimeZone\<close>,
  \<open>CalculateStartTime\<close> and \<open>getMaintenanceStartTime\<close> of \<open>MaintenanceManager.cpp\<close>, with the
  C string functions they use. A text is the bytes before the terminating zero; the
  files hold no zero byte.
\<close>

subsection \<open>C strings\<close>

text \<open>
  What one call of \<open>fgets\<close> into a buffer of \<open>n + 1\<close> bytes delivers from the rest of a file,
  and what a loop of such calls sees: pieces of at most \<open>n\<close> bytes, each ending after a
  newline or when the buffer is full.
\<close>

fun fgets_piece :: "nat \<Rightarrow> string \<Rightarrow> string" where
  "fgets_piece 0 s = []"
| "fgets_piece (Suc n) [] = []"
| "fgets_piece (Suc n) (c # s) = (if c = newline then [c] else c # fgets_piece n s)"

function fgets_pieces :: "nat \<Rightarrow> string \<Rightarrow> string list" where
  "fgets_pieces n s =
     (if n = 0 \<or> s = [] then []
      else fgets_piece n s # fgets_pieces n (drop (length (fgets_piece n s)) s))"
  by pat_completeness auto

lemma fgets_piece_pos: "0 < n \<Longrightarrow> s \<noteq> [] \<Longrightarrow> 0 < length (fgets_piece n s)"
  by (cases n; cases s) auto

termination fgets_pieces
proof (relation "measure (\<lambda>(n, s). length s)")
  fix n :: nat and s :: string
  assume "\<not> (n = 0 \<or> s = [])"
  then show "((n, drop (length (fgets_piece n s)) s), n, s) \<in> measure (\<lambda>(n, s). length s)"
    using fgets_piece_pos [of n s] by simp
qed simp

declare fgets_pieces.simps [simp del]

definition strip_newline :: "string \<Rightarrow> string" where
  "strip_newline s = (if s \<noteq> [] \<and> last s = newline then butlast s else s)"

text \<open>The tokens \<open>strtok\<close> finds: empty ones are passed over.\<close>

definition tokens :: "char \<Rightarrow> string \<Rightarrow> string list" where
  "tokens d s = filter (\<lambda>t. t \<noteq> []) (split_by (\<lambda>c. c = d) s)"

text \<open>The rest that \<open>strtok(NULL, ...)\<close> goes on with after the first token at \<open>d\<close>.\<close>

definition strtok_rest :: "char \<Rightarrow> string \<Rightarrow> string" where
  "strtok_rest d s = (let t = dropWhile (\<lambda>c. c = d) s in tl (dropWhile (\<lambda>c. c \<noteq> d) t))"

definition isalnum :: "char \<Rightarrow> bool" where
  "isalnum c \<longleftrightarrow> isdigit c \<or> (65 \<le> (of_char c :: nat) \<and> (of_char c :: nat) \<le> 90)
     \<or> (97 \<le> (of_char c :: nat) \<and> (of_char c :: nat) \<le> 122)"

definition int_of_long :: "int \<Rightarrow> int" where
  "int_of_long i = sint (word_of_int i :: 32 word)"

lemma int_of_long_mod: "int_of_long i = (i + 2 ^ 31) mod 2 ^ 32 - 2 ^ 31"
  by (simp add: int_of_long_def int_word_sint)

lemma int_of_long_id: "- (2 ^ 31) \<le> i \<Longrightarrow> i < 2 ^ 31 \<Longrightarrow> int_of_long i = i"
  by (simp add: int_of_long_mod)

lemma int_of_long_wraps:
  assumes "2 ^ 31 \<le> i" and "i < 2 ^ 32"
  shows "int_of_long i = i - 2 ^ 32"
proof -
  have "(i + 2 ^ 31) mod 2 ^ 32 = (i + 2 ^ 31 - 2 ^ 32) mod 2 ^ 32"
    by (rule minus_mod_self2 [symmetric])
  also have "\<dots> = i + 2 ^ 31 - 2 ^ 32" using assms by (intro mod_pos_pos_trivial) auto
  finally show ?thesis by (simp add: int_of_long_mod)
qed

text \<open>\<open>printf\<close> with \<open>%0nd\<close>.\<close>

definition pad0 :: "nat \<Rightarrow> int \<Rightarrow> string" where
  "pad0 n i = (let ds = dec_nat (nat \<bar>i\<bar>); sign = (if i < 0 then ''-'' else [])
     in sign @ replicate (n - (length ds + length sign)) (CHR ''0'') @ ds)"

subsection \<open>The conversions of scanf\<close>

definition scan_lit :: "string \<Rightarrow> string \<Rightarrow> string option" where
  "scan_lit lit s = (if starts_with s lit then Some (drop (length lit) s) else None)"

definition scan_int :: "string \<Rightarrow> (int \<times> string) option" where
  "scan_int s =
     (let t = dropWhile isspace s;
          neg = (t \<noteq> [] \<and> hd t = CHR ''-'');
          u = (if t \<noteq> [] \<and> (hd t = CHR ''-'' \<or> hd t = CHR ''+'') then tl t else t);
          ds = takeWhile isdigit u;
          v = (if neg then - int (digits_value ds) else int (digits_value ds))
      in if ds = [] then None
         else Some (int_of_long (max (- (2 ^ 63)) (min (2 ^ 63 - 1) v)), dropWhile isdigit u))"

definition scan_until_quote :: "nat \<Rightarrow> string \<Rightarrow> (string \<times> string) option" where
  "scan_until_quote n s =
     (let v = takeWhile (\<lambda>c. c \<noteq> CHR 0x22) (take n s)
      in if v = [] then None else Some (v, drop (length v) s))"

text \<open>The three conversions of the configuration file; blanks in the format match any.\<close>

definition scan_conf :: "string \<Rightarrow> (int \<times> int \<times> string) option" where
  "scan_conf s =
     Option.bind (scan_lit ''start_hr=\"'' s) (\<lambda>s.
     Option.bind (scan_int s) (\<lambda>(hr, s).
     Option.bind (scan_lit ''\"'' s) (\<lambda>s.
     Option.bind (scan_lit ''start_min=\"'' (dropWhile isspace s)) (\<lambda>s.
     Option.bind (scan_int s) (\<lambda>(mn, s).
     Option.bind (scan_lit ''\"'' s) (\<lambda>s.
     Option.bind (scan_lit ''tz_mode=\"'' (dropWhile isspace s)) (\<lambda>s.
     Option.bind (scan_until_quote 19 s) (\<lambda>(mode, s). Some (hr, mn, mode)))))))))"

definition scan_date :: "string \<Rightarrow> (int \<times> int \<times> int) option" where
  "scan_date s =
     Option.bind (scan_int s) (\<lambda>(y, s).
     Option.bind (scan_lit ''-'' s) (\<lambda>s.
     Option.bind (scan_int s) (\<lambda>(m, s).
     Option.bind (scan_lit ''-'' s) (\<lambda>s.
     Option.bind (scan_int s) (\<lambda>(d, s). Some (y, m, d))))))"

subsection \<open>getTimeZone\<close>

definition BUFFER_SIZE :: nat where "BUFFER_SIZE = 50"

record zone_info =
  zi_zoneValue :: string
  zi_timeZone :: string
  zi_offset :: string

text \<open>The device name: \<open>None\<close> is the null pointer that \<open>strtok\<close> gives for an empty value.\<close>

fun find_device :: "string list \<Rightarrow> string option" where
  "find_device [] = Some []"
| "find_device (line # rest) =
     (if take (length ''DEVICE_NAME'') line = ''DEVICE_NAME'' then
        (case tokens newline (strtok_rest (CHR ''='') line) of [] \<Rightarrow> None | t # _ \<Rightarrow> Some t)
      else find_device rest)"

fun find_zone :: "string \<Rightarrow> string list \<Rightarrow> string \<times> string" where
  "find_zone tz [] = ([], [])"
| "find_zone tz (piece # rest) =
     (let line = strip_newline piece in
      if take (length tz) line = tz \<and> length tz < length line \<and> line ! length tz = CHR '':'' then
        (case tokens (CHR '':'') line of
           _ # z # off # _ \<Rightarrow> (take (BUFFER_SIZE - 1) z, take (BUFFER_SIZE - 1) off)
         | _ # z # _ \<Rightarrow> (take (BUFFER_SIZE - 1) z, [])
         | _ \<Rightarrow> ([], []))
      else find_zone tz rest)"

definition first_line :: "string option \<Rightarrow> string" where
  "first_line file = (case file of None \<Rightarrow> [] | Some text \<Rightarrow> strip_newline (fgets_piece (BUFFER_SIZE - 1) text))"

text \<open>\<open>None\<close> is the call of \<open>strcmp\<close> with the null pointer.\<close>

definition getTimeZone :: "fsys \<Rightarrow> zone_info option" where
  "getTimeZone fs =
     (case read_file fs ''/etc/device.properties'' of
        None \<Rightarrow> Some \<lparr>zi_zoneValue = [], zi_timeZone = [], zi_offset = []\<rparr>
      | Some props \<Rightarrow>
          (case find_device (fgets_pieces 127 props) of
             None \<Rightarrow> None
           | Some deviceName \<Rightarrow>
               let dst = read_file fs ''/opt/persistent/timeZoneDST'' in
               if deviceName = ''PLATCO'' then
                 (let tz = (if first_line dst = [] then ''America/New_York'' else first_line dst);
                      (z, off) = (case read_file fs ''/etc/timeZone_offset_map'' of
                         None \<Rightarrow> ([], []) | Some m \<Rightarrow> find_zone tz (fgets_pieces 127 m))
                  in if z = [] \<or> off = []
                     then Some \<lparr>zi_zoneValue = ''US/Eastern'', zi_timeZone = tz, zi_offset = ''0''\<rparr>
                     else Some \<lparr>zi_zoneValue = z, zi_timeZone = tz, zi_offset = off\<rparr>)
               else Some \<lparr>zi_zoneValue = first_line dst, zi_timeZone = [], zi_offset = []\<rparr>))"

definition IsValidTimeZone :: "string \<Rightarrow> bool" where
  "IsValidTimeZone tz \<longleftrightarrow> list_all (\<lambda>c. isalnum c \<or> c = CHR ''_'' \<or> c = CHR ''.'' \<or> c = CHR ''/''
     \<or> c = CHR ''+'' \<or> c = CHR ''-'') tz"

subsection \<open>CalculateStartTime\<close>

text \<open>
  The clock and the shell: the answer to the n-th command (\<open>None\<close> where \<open>popen\<close> fails),
  the time, and \<open>mktime\<close> as the normalisation of a calendar date (year, month, day), which
  depends on the time zone of the process.
\<close>

record clock_env =
  ce_now :: int
  ce_shell :: "nat \<Rightarrow> string \<Rightarrow> string option"
  ce_mktime :: "int \<times> int \<times> int \<Rightarrow> int \<times> int \<times> int"

text \<open>
  One \<open>popen\<close>, one \<open>fgets\<close> into a buffer of \<open>n + 1\<close> bytes; the state is the list of the
  commands, newest first. The command is built in a buffer of 256 bytes.
\<close>

definition run_command :: "clock_env \<Rightarrow> nat \<Rightarrow> string \<Rightarrow> (string list, string option) state" where
  "run_command C n cmd = do {
     cmds \<leftarrow> gets id;
     modify (Cons (take 255 cmd));
     ret (case ce_shell C (length cmds) (take 255 cmd) of
        None \<Rightarrow> None
      | Some out \<Rightarrow> if out = [] then None else Some (fgets_piece n out))
   }"

definition date_string :: "int \<times> int \<times> int \<Rightarrow> string" where
  "date_string d = (case d of (y, m, day) \<Rightarrow> pad0 4 y @ ''-'' @ pad0 2 m @ ''-'' @ pad0 2 day)"

definition epoch_command :: "string \<Rightarrow> string \<Rightarrow> int \<Rightarrow> int \<Rightarrow> string" where
  "epoch_command zone date hr mn =
     ''TZ='' @ zone @ '' date -d '' @ [CHR 0x27] @ date @ '' '' @ pad0 2 hr @ '':'' @ pad0 2 mn
       @ '':00'' @ [CHR 0x27] @ '' +%s''"

definition query_epoch :: "clock_env \<Rightarrow> string \<Rightarrow> int \<times> int \<times> int \<Rightarrow> int \<Rightarrow> int \<Rightarrow> (string list, int option) state" where
  "query_epoch C zone date hr mn = do {
     out \<leftarrow> run_command C 31 (epoch_command zone (take 31 (date_string date)) hr mn);
     ret (case out of None \<Rightarrow> None | Some e \<Rightarrow> if strtol e \<le> 0 then None else Some (strtol e))
   }"

definition next_day :: "clock_env \<Rightarrow> int \<times> int \<times> int \<Rightarrow> int \<times> int \<times> int" where
  "next_day C d = (case d of (y, m, day) \<Rightarrow> ce_mktime C (y, m, day + 1))"

text \<open>The branch for local time; every error is the result -1.\<close>

definition local_start_time :: "clock_env \<Rightarrow> string \<Rightarrow> int \<Rightarrow> int \<Rightarrow> (string list, int) state" where
  "local_start_time C zone start_hr start_min =
     (if \<not> IsValidTimeZone zone then ret (- 1)
      else do {
        hhmm \<leftarrow> run_command C 7 (''TZ='' @ zone @ '' date +%H%M'');
        (case hhmm of None \<Rightarrow> ret (- 1)
         | Some t \<Rightarrow> do {
             let tomorrow = \<not> (start_hr * 100 + start_min > int_of_long (strtol t));
             today \<leftarrow> run_command C 15 (''TZ='' @ zone @ '' date +%Y-%m-%d'');
             (case today of None \<Rightarrow> ret (- 1)
              | Some line \<Rightarrow>
                  (case scan_date (takeWhile (\<lambda>c. c \<noteq> newline) line) of None \<Rightarrow> ret (- 1)
                   | Some d \<Rightarrow> do {
                       let date = (if tomorrow then next_day C d else d);
                       e1 \<leftarrow> query_epoch C zone date start_hr start_min;
                       (case e1 of None \<Rightarrow> ret (- 1)
                        | Some start_epoch \<Rightarrow>
                            if start_epoch - ce_now C < 10 then do {
                              e2 \<leftarrow> query_epoch C zone (next_day C date) start_hr start_min;
                              ret (case e2 of None \<Rightarrow> - 1 | Some e \<Rightarrow> int_of_long e)
                            }
                            else ret (int_of_long start_epoch))
                     }))
           })
      })"

text \<open>
  The branch for UTC: \<open>timegm\<close> of \<open>gmtime_r\<close> with the time of day replaced, moved by a day
  where that is past.
\<close>

definition utc_start_time :: "int \<Rightarrow> int \<Rightarrow> int \<Rightarrow> int" where
  "utc_start_time rawtime start_hr start_min =
     (let start_epoch = (rawtime div 86400) * 86400 + start_hr * 3600 + start_min * 60
      in if start_epoch - rawtime < 10 then start_epoch + 86400 else start_epoch)"

text \<open>The result \<open>None\<close> is the crash in \<open>getTimeZone\<close>.\<close>

definition CalculateStartTime :: "clock_env \<Rightarrow> fsys \<Rightarrow> (string list, int option) state" where
  "CalculateStartTime C fs =
     (case read_file fs ''/opt/rdk_maintenance.conf'' of
        None \<Rightarrow> ret (Some (- 1))
      | Some conf \<Rightarrow>
          (case scan_conf conf of
             None \<Rightarrow> ret (Some (- 1))
           | Some (start_hr, start_min, tz_mode) \<Rightarrow>
               if start_hr < 0 \<or> start_hr > 23 then ret (Some (- 1))
               else if start_min < 0 \<or> start_min > 59 then ret (Some (- 1))
               else if tz_mode \<noteq> ''Local time'' \<and> tz_mode \<noteq> ''UTC'' then ret (Some (- 1))
               else (case getTimeZone fs of
                   None \<Rightarrow> ret None
                 | Some zi \<Rightarrow>
                     if tz_mode = ''Local time''
                     then do { r \<leftarrow> local_start_time C (zi_zoneValue zi) start_hr start_min; ret (Some r) }
                     else ret (Some (int_of_long (utc_start_time (ce_now C) start_hr start_min))))))"

text \<open>The response of \<open>getMaintenanceStartTime\<close> and its success, which is always true.\<close>

definition getMaintenanceStartTime :: "clock_env \<Rightarrow> fsys \<Rightarrow> (string list, (int \<times> bool) option) state" where
  "getMaintenanceStartTime C fs = do {
     r \<leftarrow> CalculateStartTime C fs;
     ret (map_option (\<lambda>maintenance_start_time. (maintenance_start_time, True)) r)
   }"

subsection \<open>Zones\<close>

lemma length_fgets_piece: "length (fgets_piece n s) \<le> n"
  by (induction n s rule: fgets_piece.induct) auto

lemma length_strip_newline: "length (strip_newline s) \<le> length s"
  by (simp add: strip_newline_def)

lemma length_first_line: "length (first_line f) \<le> 49"
  using length_fgets_piece [of 49] length_strip_newline [of "fgets_piece 49 (the f)"]
  by (auto simp: first_line_def BUFFER_SIZE_def split: option.split intro: order_trans)

lemma length_find_zone:
  "length (fst (find_zone tz ps)) \<le> 49 \<and> length (snd (find_zone tz ps)) \<le> 49"
  by (induction ps) (auto simp: Let_def BUFFER_SIZE_def split: list.split)

text \<open>
  The zone buffers are never overrun and a PLATCO device always has a zone: whatever the
  three files hold, each text fits its buffer of 50 bytes, and for the device name PLATCO
  neither the zone nor its offset is empty.
\<close>

theorem getTimeZone_fits:
  assumes "getTimeZone fs = Some zi"
  shows "length (zi_zoneValue zi) < BUFFER_SIZE \<and> length (zi_timeZone zi) < BUFFER_SIZE
    \<and> length (zi_offset zi) < BUFFER_SIZE
    \<and> \<not> (zi_timeZone zi \<noteq> [] \<and> (zi_zoneValue zi = [] \<or> zi_offset zi = []))"
proof -
  have f: "length (first_line x) < BUFFER_SIZE" for x
    using length_first_line [of x] by (simp add: BUFFER_SIZE_def)
  have z: "length (fst (find_zone tz ps)) < BUFFER_SIZE" "length (snd (find_zone tz ps)) < BUFFER_SIZE"
    for tz ps using length_find_zone [of tz ps] by (simp_all add: BUFFER_SIZE_def)
  have c: "17 < BUFFER_SIZE" by (simp add: BUFFER_SIZE_def)
  show ?thesis
    using assms f z c
    by (auto simp: getTimeZone_def Let_def split_beta split: option.splits if_splits)
qed

text \<open>The file system of the witnesses: the files given, each readable.\<close>

definition disk_of :: "(string \<rightharpoonup> string) \<Rightarrow> fsys" where
  "disk_of m = \<lparr>files = m, openable = (\<lambda>_. True)\<rparr>"

lemma read_disk_of [simp]: "read_file (disk_of m) f = m f"
  by (simp add: disk_of_def read_file_def)

theorem getTimeZone_fits_witness:
  "\<exists>zi. getTimeZone (disk_of [''/etc/device.properties'' \<mapsto> ''DEVICE_NAME=PLATCO'']) = Some zi
     \<and> length (zi_timeZone zi) < BUFFER_SIZE \<and> zi_offset zi \<noteq> []"
proof -
  let ?fs = "disk_of [''/etc/device.properties'' \<mapsto> ''DEVICE_NAME=PLATCO'']"
  have "getTimeZone ?fs = Some \<lparr>zi_zoneValue = ''US/Eastern'', zi_timeZone = ''America/New_York'', zi_offset = ''0''\<rparr>"
    by code_simp
  from getTimeZone_fits [OF this] show ?thesis using \<open>getTimeZone ?fs = _\<close> by simp
qed

text \<open>
  The null pointer. A \<open>device.properties\<close> whose first line is \<open>DEVICE_NAME=\<close> with
  nothing behind it makes \<open>strtok\<close> return null, and \<open>getTimeZone\<close> compares that pointer with
  \<open>PLATCO\<close>: a request for the start time with a valid configuration crashes the process,
  in either time mode.
\<close>

theorem empty_device_name_crashes:
  assumes "read_file fs ''/etc/device.properties'' = Some (''DEVICE_NAME='' @ newline # rest)"
    and "read_file fs ''/opt/rdk_maintenance.conf'' = Some conf"
    and "scan_conf conf = Some (start_hr, start_min, tz_mode)"
    and "0 \<le> start_hr" "start_hr \<le> 23" "0 \<le> start_min" "start_min \<le> 59"
    and "tz_mode = ''Local time'' \<or> tz_mode = ''UTC''"
  shows "run_state (getMaintenanceStartTime C fs) cmds = (None, cmds)"
proof -
  have piece: "fgets_piece 127 (''DEVICE_NAME='' @ newline # rest) = ''DEVICE_NAME='' @ [newline]"
    by (simp add: eval_nat_numeral)
  have ps: "\<exists>ps. fgets_pieces 127 (''DEVICE_NAME='' @ newline # rest) = (''DEVICE_NAME='' @ [newline]) # ps"
    unfolding fgets_pieces.simps [of 127 "''DEVICE_NAME='' @ newline # rest"] piece by simp
  have "tokens newline (strtok_rest (CHR ''='') (''DEVICE_NAME='' @ [newline])) = []"
    by code_simp
  then have "find_device (fgets_pieces 127 (''DEVICE_NAME='' @ newline # rest)) = None"
    using ps by auto
  then have "getTimeZone fs = None"
    using assms(1) by (simp add: getTimeZone_def)
  then show ?thesis
    using assms by (auto simp: getMaintenanceStartTime_def CalculateStartTime_def)
qed

theorem empty_device_name_crashes_witness:
  "run_state (getMaintenanceStartTime \<lparr>ce_now = 0, ce_shell = (\<lambda>_ _. None), ce_mktime = id\<rparr>
     (disk_of [''/etc/device.properties'' \<mapsto> ''DEVICE_NAME='' @ [newline],
       ''/opt/rdk_maintenance.conf'' \<mapsto> ''start_hr=\"3\"start_min=\"30\"tz_mode=\"UTC\"''])) [] = (None, [])"
proof (rule empty_device_name_crashes)
  show "scan_conf ''start_hr=\"3\"start_min=\"30\"tz_mode=\"UTC\"'' = Some (3, 30, ''UTC'')" by code_simp
qed simp_all

subsection \<open>The configuration\<close>

text \<open>The file as the format of the reader describes it.\<close>

definition conf_text :: "int \<Rightarrow> int \<Rightarrow> string \<Rightarrow> string" where
  "conf_text hr mn mode =
     ''start_hr=\"'' @ to_string hr @ ''\"'' @ [newline] @ ''start_min=\"'' @ to_string mn @ ''\"''
       @ [newline] @ ''tz_mode=\"'' @ mode @ ''\"'' @ [newline]"

lemma scan_lit_append: "scan_lit p (p @ s) = Some s"
  by (simp add: scan_lit_def)

lemma scan_int_digits:
  assumes ds: "\<forall>c\<in>set ds. isdigit c" "ds \<noteq> []" and rest: "s = [] \<or> \<not> isdigit (hd s)"
    and small: "digits_value ds < 2 ^ 31"
  shows "scan_int (ds @ s) = Some (int (digits_value ds), s)"
proof -
  obtain c cs where c: "ds = c # cs" using ds(2) by (cases ds) auto
  have t: "takeWhile isdigit (ds @ s) = ds" "dropWhile isdigit (ds @ s) = s"
    using ds(1) rest by (auto simp: takeWhile_append2 dropWhile_append2 takeWhile_eq_Nil_iff dropWhile_eq_self_iff)
  have d: "dropWhile isspace (ds @ s) = ds @ s"
    using ds(1) c isdigit_not_space by simp
  have h: "hd (ds @ s) \<noteq> CHR ''-''" "hd (ds @ s) \<noteq> CHR ''+''"
    using ds(1) c isdigit_not_sign by auto
  have w: "int_of_long (int (digits_value ds)) = int (digits_value ds)"
    using small by (intro int_of_long_id) auto
  have "(int (digits_value ds) :: int) < 2 ^ 63" using small by simp
  then show ?thesis
    unfolding scan_int_def Let_def d using t h w ds(2) by simp
qed

lemma scan_int_to_string:
  "0 \<le> i \<Longrightarrow> i < 2 ^ 31 \<Longrightarrow> s = [] \<or> \<not> isdigit (hd s) \<Longrightarrow> scan_int (to_string i @ s) = Some (i, s)"
  using scan_int_digits [OF dec_nat_digits dec_nat_not_Nil, of s "nat i"]
  by (simp add: to_string_def digits_value_dec_nat)

lemma to_string_first: "0 \<le> i \<Longrightarrow> \<exists>c cs. to_string i = c # cs \<and> isdigit c"
  using dec_nat_digits [of "nat i"] by (cases "dec_nat (nat i)") (auto simp: to_string_def)

lemma takeWhile_quote:
  assumes "CHR 0x22 \<notin> set mode" and "length mode \<le> n"
  shows "takeWhile (\<lambda>c. c \<noteq> CHR 0x22) (take n (mode @ CHR 0x22 # s)) = mode"
proof -
  have m: "\<And>c. c \<in> set mode \<Longrightarrow> c \<noteq> CHR 0x22" using assms(1) by auto
  have "takeWhile (\<lambda>c. c \<noteq> CHR 0x22) (mode @ take (n - length mode) (CHR 0x22 # s))
      = mode @ takeWhile (\<lambda>c. c \<noteq> CHR 0x22) (take (n - length mode) (CHR 0x22 # s))"
    by (rule takeWhile_append2) (rule m)
  also have "takeWhile (\<lambda>c. c \<noteq> CHR 0x22) (take (n - length mode) (CHR 0x22 # s)) = []"
    by (cases "n - length mode") simp_all
  finally show ?thesis using assms(2) by simp
qed

lemma scan_mode:
  assumes "CHR 0x22 \<notin> set mode" and "length mode \<le> n" and "mode \<noteq> []"
  shows "scan_until_quote n (mode @ CHR 0x22 # s) = Some (mode, CHR 0x22 # s)"
  unfolding scan_until_quote_def Let_def takeWhile_quote [OF assms(1,2)] using assms(3) by simp

text \<open>
  The round trip of the configuration: a file written as the format of \<open>fscanf\<close>
  describes it is read back as the hour, the minute and the mode it was written from, for
  every mode that fits its buffer of 20 bytes.
\<close>

theorem conf_roundtrip:
  assumes "0 \<le> hr" "hr < 2 ^ 31" "0 \<le> mn" "mn < 2 ^ 31"
    and "mode \<noteq> []" "CHR 0x22 \<notin> set mode" "length mode < 20"
  shows "scan_conf (conf_text hr mn mode) = Some (hr, mn, mode)"
proof -
  have nd: "\<not> isdigit (CHR 0x22)" by (simp add: isdigit_def)
  have sp: "isspace newline" "\<not> isspace (CHR ''s'')" "\<not> isspace (CHR ''t'')"
    by (simp_all add: isspace_def)
  have i: "scan_int (to_string i @ CHR 0x22 # s) = Some (i, CHR 0x22 # s)" if "0 \<le> i" "i < 2 ^ 31" for i s
    using scan_int_to_string [OF that, of "CHR 0x22 # s"] nd by simp
  have l: "scan_lit ''start_hr=\"'' (CHR ''s'' # CHR ''t'' # CHR ''a'' # CHR ''r'' # CHR ''t'' # CHR ''_'' # CHR ''h'' # CHR ''r'' # CHR ''='' # CHR 0x22 # s) = Some s"
    "scan_lit ''start_min=\"'' (CHR ''s'' # CHR ''t'' # CHR ''a'' # CHR ''r'' # CHR ''t'' # CHR ''_'' # CHR ''m'' # CHR ''i'' # CHR ''n'' # CHR ''='' # CHR 0x22 # s) = Some s"
    "scan_lit ''tz_mode=\"'' (CHR ''t'' # CHR ''z'' # CHR ''_'' # CHR ''m'' # CHR ''o'' # CHR ''d'' # CHR ''e'' # CHR ''='' # CHR 0x22 # s) = Some s"
    "scan_lit ''\"'' (CHR 0x22 # s) = Some s"
    for s by (simp_all add: scan_lit_def starts_with_def)
  show ?thesis
    using assms i l sp scan_mode [of mode 19]
    by (simp add: scan_conf_def conf_text_def)
qed

theorem conf_roundtrip_witness:
  "scan_conf (conf_text 3 30 ''Local time'') = Some (3, 30, ''Local time'')"
  by (rule conf_roundtrip) auto

subsection \<open>Coordinated universal time\<close>

lemma utc_bounds:
  assumes "0 \<le> start_hr" "start_hr \<le> 23" "0 \<le> start_min" "start_min \<le> 59"
  shows "now < utc_start_time now start_hr start_min"
    and "utc_start_time now start_hr start_min < now + 86410"
    and "utc_start_time now start_hr start_min mod 86400 = start_hr * 3600 + start_min * 60"
    and "\<not> (start_hr * 60 + start_min > 0 \<and> utc_start_time now start_hr start_min < now + 10)"
proof -
  define day m where "day = now div 86400" and "m = start_hr * 60 + start_min"
  have m: "0 \<le> m" "m < 1440" using assms by (simp_all add: m_def)
  have now: "day * 86400 \<le> now" "now < day * 86400 + 86400"
    using div_mult_mod_eq [of now 86400] pos_mod_bound [of 86400 now] pos_mod_sign [of 86400 now]
    by (simp_all add: day_def)
  have t: "utc_start_time now start_hr start_min
      = (if day * 86400 + m * 60 - now < 10 then day * 86400 + m * 60 + 86400 else day * 86400 + m * 60)"
    by (simp add: utc_start_time_def day_def m_def Let_def algebra_simps)
  have mods: "(day * 86400 + m * 60) mod 86400 = m * 60"
    using m by simp
  have "(day * 86400 + m * 60 + 86400) mod 86400 = m * 60"
    using mods by (simp only: mod_add_self2)
  with mods t have "utc_start_time now start_hr start_min mod 86400 = m * 60" by simp
  then show "utc_start_time now start_hr start_min mod 86400 = start_hr * 3600 + start_min * 60"
    by (simp add: m_def)
  show "now < utc_start_time now start_hr start_min"
    "utc_start_time now start_hr start_min < now + 86410"
    "\<not> (start_hr * 60 + start_min > 0 \<and> utc_start_time now start_hr start_min < now + 10)"
    unfolding t m_def [symmetric] using now m by auto
qed

lemma utc_result:
  assumes "read_file fs ''/opt/rdk_maintenance.conf'' = Some conf"
    and "scan_conf conf = Some (start_hr, start_min, ''UTC'')"
    and "0 \<le> start_hr" "start_hr \<le> 23" "0 \<le> start_min" "start_min \<le> 59"
    and "getTimeZone fs = Some zi"
  shows "run_state (CalculateStartTime C fs) cmds
    = (Some (int_of_long (utc_start_time (ce_now C) start_hr start_min)), cmds)"
  using assms by (simp add: CalculateStartTime_def)

text \<open>
  C25: The start time in UTC. Up to 2038 the answer is the next moment with the configured
  hour and minute: it lies in the future, at most ten seconds more than a day ahead, and it has
  the time of day that the configuration asks for. The ten seconds of safety distance
  hold for every time but midnight. No shell command is run.
\<close>

theorem utc_start_time_next:
  assumes "read_file fs ''/opt/rdk_maintenance.conf'' = Some conf"
    and "scan_conf conf = Some (start_hr, start_min, ''UTC'')"
    and "0 \<le> start_hr" "start_hr \<le> 23" "0 \<le> start_min" "start_min \<le> 59"
    and "getTimeZone fs = Some zi"
    and "0 \<le> ce_now C" "ce_now C + 86410 \<le> 2 ^ 31"
  shows "\<exists>t. run_state (CalculateStartTime C fs) cmds = (Some t, cmds)
    \<and> ce_now C < t \<and> t < ce_now C + 86410
    \<and> t mod 86400 = start_hr * 3600 + start_min * 60
    \<and> \<not> (start_hr * 60 + start_min > 0 \<and> t < ce_now C + 10)"
proof -
  note b = utc_bounds [OF assms(3-6), of "ce_now C"]
  have "int_of_long (utc_start_time (ce_now C) start_hr start_min) = utc_start_time (ce_now C) start_hr start_min"
    using b(1,2) assms(8,9) by (intro int_of_long_id) auto
  with utc_result [OF assms(1-7)] b show ?thesis by simp
qed

definition sample_disk :: fsys where
  "sample_disk = disk_of [''/opt/rdk_maintenance.conf'' \<mapsto> conf_text 3 30 ''UTC'']"

definition sample_clock :: "int \<Rightarrow> clock_env" where
  "sample_clock now = \<lparr>ce_now = now, ce_shell = (\<lambda>_ _. None), ce_mktime = id\<rparr>"

lemma sample_disk_facts:
  "read_file sample_disk ''/opt/rdk_maintenance.conf'' = Some (conf_text 3 30 ''UTC'')"
  "scan_conf (conf_text 3 30 ''UTC'') = Some (3, 30, ''UTC'')"
  "getTimeZone sample_disk = Some \<lparr>zi_zoneValue = [], zi_timeZone = [], zi_offset = []\<rparr>"
  by (simp add: sample_disk_def) (code_simp, simp add: sample_disk_def getTimeZone_def)

theorem utc_start_time_next_witness:
  "\<exists>t. run_state (CalculateStartTime (sample_clock 1700000000) sample_disk) [] = (Some t, [])
    \<and> 1700000000 < t \<and> t mod 86400 = 12600"
  using utc_start_time_next [OF sample_disk_facts(1,2) _ _ _ _ sample_disk_facts(3), of "sample_clock 1700000000" "[]"]
  by (auto simp: sample_clock_def)

text \<open>
  C27: The overflow in 2038. From 19 January 2038 on the seconds no longer fit an \<open>int\<close>: the
  cast of the result makes it negative, and the same request that succeeded before answers
  with a time in the past, again with success.
\<close>

theorem utc_start_time_overflows:
  assumes "read_file fs ''/opt/rdk_maintenance.conf'' = Some conf"
    and "scan_conf conf = Some (start_hr, start_min, ''UTC'')"
    and "0 \<le> start_hr" "start_hr \<le> 23" "0 \<le> start_min" "start_min \<le> 59"
    and "getTimeZone fs = Some zi"
    and "2 ^ 31 \<le> ce_now C" "ce_now C + 86410 \<le> 2 ^ 32"
  shows "\<exists>t. run_state (getMaintenanceStartTime C fs) cmds = (Some (t, True), cmds) \<and> t < 0"
proof -
  note b = utc_bounds [OF assms(3-6), of "ce_now C"]
  have "int_of_long (utc_start_time (ce_now C) start_hr start_min) = utc_start_time (ce_now C) start_hr start_min - 2 ^ 32"
    using b(1,2) assms(8,9) by (intro int_of_long_wraps) auto
  moreover have "utc_start_time (ce_now C) start_hr start_min < 2 ^ 32"
    using b(2) assms(9) by simp
  ultimately show ?thesis
    using utc_result [OF assms(1-7)] by (simp add: getMaintenanceStartTime_def)
qed

theorem utc_start_time_overflows_witness:
  "\<exists>t. run_state (getMaintenanceStartTime (sample_clock 2200000000) sample_disk) [] = (Some (t, True), []) \<and> t < 0"
  using utc_start_time_overflows [OF sample_disk_facts(1,2) _ _ _ _ sample_disk_facts(3), of "sample_clock 2200000000" "[]"]
  by (simp add: sample_clock_def)

subsection \<open>The shell commands\<close>

text \<open>The characters a command may hold: none of them ends it or starts another one.\<close>

definition shell_safe :: "char \<Rightarrow> bool" where
  "shell_safe c \<longleftrightarrow> isalnum c \<or> c \<in> set ''_./+- =%:'' \<or> c = CHR 0x27"

definition command_ok :: "string \<Rightarrow> bool" where
  "command_ok cmd \<longleftrightarrow> list_all shell_safe cmd \<and> length cmd < 255"

lemma isdigit_safe: "isdigit c \<Longrightarrow> shell_safe c"
  by (simp add: shell_safe_def isalnum_def)

lemma shell_safe_literals [simp]:
  "shell_safe (CHR ''T'')" "shell_safe (CHR ''Z'')" "shell_safe (CHR ''='')" "shell_safe (CHR '' '')"
  "shell_safe (CHR ''d'')" "shell_safe (CHR ''a'')" "shell_safe (CHR ''t'')" "shell_safe (CHR ''e'')"
  "shell_safe (CHR ''-'')" "shell_safe (CHR ''+'')" "shell_safe (CHR ''%'')" "shell_safe (CHR ''H'')"
  "shell_safe (CHR ''M'')" "shell_safe (CHR ''Y'')" "shell_safe (CHR ''m'')" "shell_safe (CHR '':'')"
  "shell_safe (CHR ''0'')" "shell_safe (CHR ''s'')" "shell_safe (CHR 0x27)"
  by (simp_all add: shell_safe_def isalnum_def isdigit_def)

lemma zone_safe: "IsValidTimeZone zone \<Longrightarrow> list_all shell_safe zone"
  by (auto simp: IsValidTimeZone_def list_all_iff shell_safe_def)

lemma pad0_safe: "list_all shell_safe (pad0 n i)"
  using dec_nat_digits isdigit_safe by (auto simp: pad0_def Let_def list_all_iff)

lemma date_string_safe: "list_all shell_safe (date_string d)"
  by (cases d) (simp add: date_string_def pad0_safe)

lemma list_all_take: "list_all P xs \<Longrightarrow> list_all P (take n xs)"
  by (auto simp: list_all_iff dest: in_set_takeD)

lemma dec_nat_two: "n < 100 \<Longrightarrow> length (dec_nat n) \<le> 2"
  by (subst dec_nat.simps, subst dec_nat.simps) auto

lemma length_pad0_two: "0 \<le> i \<Longrightarrow> i < 100 \<Longrightarrow> length (pad0 2 i) = 2"
  using dec_nat_two [of "nat i"] by (simp add: pad0_def Let_def)

lemma run_command_ok:
  "command_ok cmd \<Longrightarrow> preserves (list_all command_ok) (run_command C n cmd)"
  unfolding run_command_def
  by (intro pres preserves_modify) (auto simp: command_ok_def)

lemma query_epoch_ok:
  assumes "list_all shell_safe zone" "length zone < 50" "0 \<le> hr" "hr \<le> 23" "0 \<le> mn" "mn \<le> 59"
  shows "preserves (list_all command_ok) (query_epoch C zone date hr mn)"
proof -
  have "length (take 31 (date_string date)) \<le> 31" by simp
  then have "command_ok (epoch_command zone (take 31 (date_string date)) hr mn)"
    using assms pad0_safe list_all_take [OF date_string_safe]
    by (simp add: command_ok_def epoch_command_def length_pad0_two)
  then show ?thesis
    unfolding query_epoch_def by (intro pres run_command_ok)
qed

lemma local_start_time_ok:
  assumes "length zone < 50" "0 \<le> hr" "hr \<le> 23" "0 \<le> mn" "mn \<le> 59"
  shows "preserves (list_all command_ok) (local_start_time C zone hr mn)"
  unfolding local_start_time_def Let_def
  by (intro pres run_command_ok query_epoch_ok)
    (use assms zone_safe [of zone] in \<open>auto simp: command_ok_def\<close>)

text \<open>
  C26: No shell injection and no truncation: whatever the files hold, whatever the shell and
  the calendar answer, each command the calculation runs consists of letters, digits and the
  characters \<open>_ . / + - = % :\<close>, the blank and the quotes of the code, so that no file can end the
  command or begin another one, and it is shorter than the buffer it is printed into.
\<close>

theorem start_time_commands_safe:
  "list_all (\<lambda>cmd. list_all shell_safe cmd \<and> length cmd < 255) (after (CalculateStartTime C fs) [])"
proof -
  have z: "length (zi_zoneValue zi) < 50" if "getTimeZone fs = Some zi" for zi
  proof -
    have f: "length (first_line x) < 50" for x using length_first_line [of x] by simp
    have "length (fst (find_zone tz ps)) < 50" for tz ps using length_find_zone [of tz ps] by simp
    with f that show ?thesis
      by (auto simp: getTimeZone_def Let_def split_beta split: option.splits if_splits)
  qed
  have "preserves (list_all command_ok) (CalculateStartTime C fs)"
    unfolding CalculateStartTime_def
    by (auto intro!: pres local_start_time_ok z split: option.split)
  then have "list_all command_ok (after (CalculateStartTime C fs) [])"
    by (rule preservesD) simp
  then show ?thesis
    by (simp add: list_all_iff command_ok_def)
qed

end
