(* ===== verification/PkgTypes.thy ===== *)
theory PkgTypes
  imports Settings
begin

text \<open>
  The Packager plugin: the members of \<open>PackagerImplementation\<close> with its nested classes
  \<open>Config\<close>, \<open>PackageInfo\<close> and \<open>InstallInfo\<close>, and what it calls. The package library (opkg),
  the framework (Thunder) and the file system are the parameter \<open>pkg_env\<close>: a call of them
  is answered by a function of the number of calls made so far, so that answers may
  change between two equal calls.
\<close>

subsection \<open>Values\<close>

datatype core_error = ERROR_NONE | ERROR_GENERAL | ERROR_UNAVAILABLE | ERROR_INPROGRESS | ERROR_other nat

text \<open>The states of an installation that the source sets.\<close>

datatype install_state = IDLE | DOWNLOADING | DOWNLOADED | INSTALLING | INSTALLED

datatype opkg_action = OPKG_INSTALL | OPKG_DOWNLOAD | OPKG_other nat

record progress_data =
  percentage :: int
  action :: opkg_action
  local_filename :: string

record package_info =
  pi_name :: string
  pi_version :: string
  pi_arch :: string

record install_info =
  ii_state :: install_state
  ii_error :: core_error
  ii_progress :: "8 word"
  ii_appname :: string

definition InstallInfo :: install_info where
  "InstallInfo = \<lparr>ii_state = IDLE, ii_error = ERROR_NONE, ii_progress = 0, ii_appname = []\<rparr>"

definition Abort :: "install_info \<Rightarrow> core_error" where
  "Abort i = (if ii_error i \<noteq> ERROR_NONE then ERROR_NONE else ERROR_UNAVAILABLE)"

text \<open>The configuration line: each member with its value where it is set.\<close>

record pkg_config =
  cf_config :: "string option"
  cf_temppath :: "string option"
  cf_cachepath :: "string option"
  cf_volatilecache :: "bool option"
  cf_verbosity :: "8 word option"
  cf_nodeps :: "bool option"
  cf_nosignaturecheck :: "bool option"
  cf_alwaysupdatefirst :: "bool option"

text \<open>The members of the library's global \<open>opkg_config\<close> that the source touches.\<close>

record opkg_conf =
  conf_file :: string
  tmp_dir :: string
  host_cache_dir :: int
  cache_dir :: string
  lists_dir :: string
  opkg_verbosity :: int
  nodeps :: bool
  volatile_cache :: int
  check_pkg_signature :: int
  signature_type :: "string option"

subsection \<open>The worker\<close>

text \<open>
  The framework's thread: \<open>Run\<close> and \<open>Block\<close> change its state, and its code runs while the
  state is \<open>TH_RUNNING\<close>. The points of the loop of \<open>InstallThread::Worker\<close>: its head, before
  the repository is set up, before the installation, in the library's install function
  with the reports it still makes and its result, before the job is cleared, before
  \<open>Block()\<close>.
\<close>

datatype thread_state = TH_INITIALIZED | TH_RUNNING | TH_BLOCKED | TH_STOPPED

record thread_lib =
  th_run :: "thread_state \<Rightarrow> thread_state"
  th_block :: "thread_state \<Rightarrow> thread_state"

definition thread_lib_ok :: "thread_lib \<Rightarrow> bool" where
  "thread_lib_ok L \<longleftrightarrow> th_run L TH_INITIALIZED = TH_RUNNING \<and> th_run L TH_BLOCKED = TH_RUNNING
     \<and> th_run L TH_RUNNING = TH_RUNNING \<and> th_block L TH_RUNNING = TH_BLOCKED"

datatype worker_pc =
  W_Head
| W_Setup bool
| W_Install
| W_Progress "progress_data list" int
| W_Clear
| W_Block

subsection \<open>State\<close>

datatype pkg_effect =
  StateChange nat package_info install_info
| RepositorySynchronize nat core_error
| OpkgFreed
| PluginDeactivated string
| SystemRootPath string string
| Answered core_error

record pkg =
  p_configFile :: string
  p_tempPath :: string
  p_cachePath :: string
  p_verbosity :: int
  p_noDeps :: bool
  p_skipSignatureChecking :: bool
  p_alwaysUpdateFirst :: bool
  p_volatileCache :: bool
  p_opkgInitialized :: bool
  p_servicePI :: bool
  p_notifications :: "nat list"
  p_refs :: "nat \<Rightarrow> nat"
  p_Package :: "package_info option"
  p_Install :: "install_info option"
  p_thread :: thread_state
  p_worker :: worker_pc
  p_isUpgrade :: bool
  p_isSyncing :: bool
  p_opkg :: opkg_conf
  p_crashed :: bool
  p_tick :: nat
  p_trace :: "pkg_effect list"

datatype shell_state = SHELL_UNAVAILABLE | SHELL_other nat

record pkg_env =
  pe_thread :: thread_lib
  pe_new_api :: bool
  pe_config :: pkg_config
  pe_data_path :: string
  pe_volatile_path :: string
  pe_persistent_path :: string
  pe_callsign :: string
  pe_normalize :: "string \<Rightarrow> string"
  pe_exists :: "nat \<Rightarrow> string \<Rightarrow> bool"
  pe_create_path :: "nat \<Rightarrow> string \<Rightarrow> bool"
  pe_opkg_new :: "nat \<Rightarrow> int"
  pe_conf_init :: "nat \<Rightarrow> int"
  pe_load_feeds :: "nat \<Rightarrow> int"
  pe_load_status :: "nat \<Rightarrow> int"
  pe_cmd_find :: "nat \<Rightarrow> string \<Rightarrow> bool"
  pe_cmd_exec :: "nat \<Rightarrow> string \<Rightarrow> string list \<Rightarrow> int"
  pe_update_lists :: "nat \<Rightarrow> int"
  pe_upgradable :: "nat \<Rightarrow> (string \<times> string) list"
  pe_compare :: "string \<Rightarrow> string \<Rightarrow> int"
  pe_install :: "nat \<Rightarrow> bool \<Rightarrow> string \<Rightarrow> progress_data list \<times> int"
  pe_dir :: "nat \<Rightarrow> string \<Rightarrow> string list"
  pe_PathName :: "string \<Rightarrow> string"
  pe_FileName :: "string \<Rightarrow> string"
  pe_metadata :: "nat \<Rightarrow> string \<Rightarrow> json_obj option"
  pe_shell :: "nat \<Rightarrow> string \<Rightarrow> shell_state option"
  pe_deactivate :: "nat \<Rightarrow> string \<Rightarrow> core_error"
  pe_set_root :: "nat \<Rightarrow> string \<Rightarrow> string \<Rightarrow> core_error"
  pe_controller :: "nat \<Rightarrow> bool"
  pe_persist :: "nat \<Rightarrow> core_error"

definition pk_ask :: "(nat \<Rightarrow> 'a) \<Rightarrow> (pkg, 'a) state" where
  "pk_ask f = State (\<lambda>s. (f (p_tick s), s\<lparr>p_tick := Suc (p_tick s)\<rparr>))"

definition pk_emit :: "pkg_effect \<Rightarrow> (pkg, unit) state" where
  "pk_emit e = modify (p_trace_update (Cons e))"

lemma run_pk_ask [simp]: "run_state (pk_ask f) s = (f (p_tick s), s\<lparr>p_tick := Suc (p_tick s)\<rparr>)"
  by (simp add: pk_ask_def)

lemma run_pk_emit [simp]: "run_state (pk_emit e) s = ((), s\<lparr>p_trace := e # p_trace s\<rparr>)"
  by (simp add: pk_emit_def)

text \<open>A write through \<open>_inProgress.Install\<close>; the null pointer ends the program.\<close>

definition on_install :: "(install_info \<Rightarrow> install_info) \<Rightarrow> (pkg, unit) state" where
  "on_install f = modify (\<lambda>s. case p_Install s of None \<Rightarrow> s\<lparr>p_crashed := True\<rparr>
     | Some i \<Rightarrow> s\<lparr>p_Install := Some (f i)\<rparr>)"

definition SetState :: "install_state \<Rightarrow> (pkg, unit) state" where
  "SetState st = on_install (ii_state_update (\<lambda>_. st))"

definition SetProgress :: "int \<Rightarrow> (pkg, unit) state" where
  "SetProgress p = on_install (ii_progress_update (\<lambda>_. word_of_int p))"

definition SetError :: "core_error \<Rightarrow> (pkg, unit) state" where
  "SetError err = on_install (ii_error_update (\<lambda>_. err))"

definition SetAppName :: "pkg_env \<Rightarrow> string \<Rightarrow> (pkg, unit) state" where
  "SetAppName E path = on_install (ii_appname_update (\<lambda>_.
     let pathname = pe_PathName E path;
         dirname = take (length pathname - 1) pathname
     in pe_FileName E dirname))"

text \<open>\<open>_inProgress.Install->State()\<close>; after a crash the value does not matter.\<close>

definition install_state_of :: "pkg \<Rightarrow> install_state" where
  "install_state_of s = (case p_Install s of None \<Rightarrow> IDLE | Some i \<Rightarrow> ii_state i)"

lemma run_on_install [simp]: "p_Install s = Some i \<Longrightarrow>
    run_state (on_install f) s = ((), s\<lparr>p_Install := Some (f i)\<rparr>)"
  by (simp add: on_install_def)

end
