(* ===== verification/PkgInstall.thy ===== *)
theory PkgInstall
  imports PkgTypes
begin

text \<open>
  What the Packager does with the package library: its configuration and initialisation,
  the set-up of the local repository, the installation with its progress reports, the
  notifications, and the plugin that an installed package replaces.
\<close>

subsection \<open>Notifications\<close>

text \<open>The observers are called in the order of the vector; the trace has the newest first.\<close>

definition NotifyStateChange :: "(pkg, unit) state" where
  "NotifyStateChange = modify (\<lambda>s. case (p_Package s, p_Install s) of
     (Some p, Some i) \<Rightarrow> s\<lparr>p_trace := rev (map (\<lambda>n. StateChange n p i) (p_notifications s)) @ p_trace s\<rparr>
   | _ \<Rightarrow> s\<lparr>p_crashed := True\<rparr>)"

definition NotifyRepoSynced :: "core_error \<Rightarrow> (pkg, unit) state" where
  "NotifyRepoSynced status = modify (\<lambda>s. s\<lparr>p_isSyncing := False,
     p_trace := rev (map (\<lambda>n. RepositorySynchronize n status) (p_notifications s)) @ p_trace s\<rparr>)"

subsection \<open>The library's configuration\<close>

definition UpdateConfig :: "(pkg, unit) state" where
  "UpdateConfig = modify (\<lambda>s. s\<lparr>p_opkg :=
     (let c = (p_opkg s)\<lparr>conf_file := p_configFile s, tmp_dir := p_tempPath s, host_cache_dir := 1,
            cache_dir := p_cachePath s, opkg_verbosity := p_verbosity s, nodeps := p_noDeps s\<rparr>;
          c = (if p_volatileCache s then c\<lparr>volatile_cache := 1\<rparr> else c)
      in if p_skipSignatureChecking s then c\<lparr>check_pkg_signature := 0\<rparr>
         else c\<lparr>check_pkg_signature := 1, signature_type := Some ''provision''\<rparr>)\<rparr>)"

text \<open>The three calls of the new interface stop at the first that fails.\<close>

definition InitOPKG :: "pkg_env \<Rightarrow> (pkg, bool) state" where
  "InitOPKG E = do {
     UpdateConfig;
     if pe_new_api E then do {
       a \<leftarrow> pk_ask (pe_conf_init E);
       if a \<noteq> 0 then ret False
       else do {
         b \<leftarrow> pk_ask (pe_load_feeds E);
         if b \<noteq> 0 then ret False
         else do { c \<leftarrow> pk_ask (pe_load_status E); ret (c = 0) }
       }
     }
     else do { r \<leftarrow> pk_ask (pe_opkg_new E); ret (r = 0) }
   }"

definition FreeOPKG :: "(pkg, unit) state" where
  "FreeOPKG = do {
     initialized \<leftarrow> gets p_opkgInitialized;
     whenM initialized (do {
       pk_emit OpkgFreed;
       modify (p_opkgInitialized_update (\<lambda>_. False))
     })
   }"

subsection \<open>The local repository\<close>

datatype repo_sync_mode = FORCED | SETUP

text \<open>The directory loop stops at the first entry that counts.\<close>

definition dir_contains_files :: "string \<Rightarrow> string list \<Rightarrow> bool" where
  "dir_contains_files dirPath names =
     list_ex (\<lambda>n. n \<noteq> ''.'' \<and> n \<noteq> ''..'' \<and> n \<noteq> dirPath) names"

definition BlockingSetupLocalRepoNoLock :: "pkg_env \<Rightarrow> repo_sync_mode \<Rightarrow> (pkg, unit) state" where
  "BlockingSetupLocalRepoNoLock E mode = do {
     dirPath \<leftarrow> gets (\<lambda>s. lists_dir (p_opkg s));
     always \<leftarrow> gets p_alwaysUpdateFirst;
     containFiles \<leftarrow> (if mode = SETUP \<and> \<not> always
       then do { names \<leftarrow> pk_ask (\<lambda>n. pe_dir E n dirPath); ret (dir_contains_files dirPath names) }
       else ret False);
     whenM (\<not> containFiles) (do {
       failed \<leftarrow> (if pe_new_api E then do {
           found \<leftarrow> pk_ask (\<lambda>n. pe_cmd_find E n ''update'');
           if \<not> found then ret True
           else do { r \<leftarrow> pk_ask (\<lambda>n. pe_cmd_exec E n ''update'' []); ret (r \<noteq> 0) }
         }
         else do { r \<leftarrow> pk_ask (pe_update_lists E); ret (r \<noteq> 0) });
       NotifyRepoSynced (if failed then ERROR_GENERAL else ERROR_NONE)
     })
   }"

subsection \<open>The plugin of a package\<close>

definition GetMetadataFile :: "string \<Rightarrow> string \<Rightarrow> string" where
  "GetMetadataFile dnld_loc appName =
     dnld_loc @ ''/'' @ appName @ ''/etc/apps/'' @ appName @ ''_package.json''"

definition GetInstallationPath :: "string \<Rightarrow> string \<Rightarrow> string" where
  "GetInstallationPath dnld_loc appname = dnld_loc @ ''/'' @ appname"

text \<open>The parsed metadata: \<open>None\<close> where the file is not opened or not parsed.\<close>

definition callsign_of :: "json_obj option \<Rightarrow> string" where
  "callsign_of parameters = (case parameters of None \<Rightarrow> []
   | Some ps \<Rightarrow> if ps ''type'' \<noteq> None \<and> json_string ps ''type'' = ''plugin'' \<and> ps ''callsign'' \<noteq> None
       then json_string ps ''callsign'' else [])"

definition GetCallsign :: "pkg_env \<Rightarrow> string \<Rightarrow> (pkg, string) state" where
  "GetCallsign E mfilename = do {
     parameters \<leftarrow> pk_ask (\<lambda>n. pe_metadata E n mfilename);
     ret (callsign_of parameters)
   }"

definition UpdateConfiguration :: "pkg_env \<Rightarrow> string \<Rightarrow> string \<Rightarrow> (pkg, core_error) state" where
  "UpdateConfiguration E callsign installPath = do {
     shell \<leftarrow> pk_ask (\<lambda>n. pe_shell E n callsign);
     (case shell of None \<Rightarrow> ret ERROR_GENERAL
      | Some _ \<Rightarrow> do {
          r \<leftarrow> pk_ask (\<lambda>n. pe_set_root E n callsign installPath);
          if r \<noteq> ERROR_NONE then ret ERROR_GENERAL
          else do {
            pk_emit (SystemRootPath callsign installPath);
            controller \<leftarrow> pk_ask (pe_controller E);
            if \<not> controller then ret ERROR_GENERAL
            else do {
              stored \<leftarrow> pk_ask (pe_persist E);
              ret (if stored = ERROR_NONE then ERROR_NONE else ERROR_GENERAL)
            }
          }
        })
   }"

definition DeactivatePlugin :: "pkg_env \<Rightarrow> string \<Rightarrow> string \<Rightarrow> (pkg, unit) state" where
  "DeactivatePlugin E callsign appName = do {
     dlPlugin \<leftarrow> pk_ask (\<lambda>n. pe_shell E n callsign);
     (case dlPlugin of None \<Rightarrow> ret ()
      | Some currentState \<Rightarrow>
          if currentState \<noteq> SHELL_UNAVAILABLE then ret ()
          else do {
            result \<leftarrow> pk_ask (\<lambda>n. pe_deactivate E n callsign);
            whenM (result = ERROR_NONE) (do {
              pk_emit (PluginDeactivated callsign);
              dnld_loc \<leftarrow> gets (\<lambda>s. cache_dir (p_opkg s));
              _ \<leftarrow> UpdateConfiguration E callsign (GetInstallationPath dnld_loc appName);
              ret ()
            })
          })
   }"

subsection \<open>Progress reports\<close>

text \<open>The switch over the action: whether the state has changed.\<close>

definition progress_switch :: "opkg_action \<Rightarrow> (pkg, bool) state" where
  "progress_switch act = do {
     st \<leftarrow> gets install_state_of;
     (case act of
        OPKG_DOWNLOAD \<Rightarrow> if st \<noteq> DOWNLOADING then do { SetState DOWNLOADING; ret True } else ret False
      | OPKG_INSTALL \<Rightarrow> if st \<noteq> INSTALLING then do { SetState INSTALLING; ret True } else ret False
      | OPKG_other _ \<Rightarrow> ret False)
   }"

definition installation_complete :: "pkg_env \<Rightarrow> string \<Rightarrow> (pkg, unit) state" where
  "installation_complete E path = do {
     SetState INSTALLED;
     NotifyStateChange;
     SetAppName E path;
     appName \<leftarrow> gets (\<lambda>s. case p_Install s of None \<Rightarrow> [] | Some i \<Rightarrow> ii_appname i);
     dnld_loc \<leftarrow> gets (\<lambda>s. cache_dir (p_opkg s));
     callsign \<leftarrow> GetCallsign E (GetMetadataFile dnld_loc appName);
     whenM (callsign \<noteq> []) (DeactivatePlugin E callsign appName)
   }"

definition InstallationProgessNoLock :: "pkg_env \<Rightarrow> progress_data \<Rightarrow> (pkg, unit) state" where
  "InstallationProgessNoLock E progress = do {
     SetProgress (percentage progress);
     st \<leftarrow> gets install_state_of;
     whenM (action progress = OPKG_INSTALL \<and> st = DOWNLOADING) (do {
       SetState DOWNLOADED;
       NotifyStateChange
     });
     stateChanged \<leftarrow> progress_switch (action progress);
     whenM stateChanged NotifyStateChange;
     whenM (percentage progress = 100) (installation_complete E (local_filename progress))
   }"

subsection \<open>The installation\<close>

text \<open>The callback of \<open>opkg_list_upgradable_packages\<close>, folded over the packages it lists.\<close>

definition check_upgrade :: "pkg_env \<Rightarrow> package_info \<Rightarrow> bool \<Rightarrow> string \<times> string \<Rightarrow> bool" where
  "check_upgrade E info isUpgrade p =
     (if \<not> isUpgrade then
        (if pi_name info = fst p
         then (if pi_version info \<noteq> [] then pe_compare E (snd p) (pi_version info) < 0 else True)
         else False)
      else isUpgrade)"

text \<open>
  \<open>BlockingInstallUntilCompletionNoLock\<close>. With the old interface it ends with the call of the
  library's install function, whose reports and result are the next points of the worker.
\<close>

definition install_new_api :: "pkg_env \<Rightarrow> package_info \<Rightarrow> (pkg, unit) state" where
  "install_new_api E info = do {
     found \<leftarrow> pk_ask (\<lambda>n. pe_cmd_find E n ''install'');
     if found then do {
       SetState INSTALLING;
       NotifyStateChange;
       r \<leftarrow> pk_ask (\<lambda>n. pe_cmd_exec E n ''install'' [pi_name info]);
       (if r = 0 then do { SetProgress 100; SetState INSTALLED } else SetError ERROR_GENERAL);
       NotifyStateChange
     }
     else do { SetError ERROR_GENERAL; NotifyStateChange }
   }"

definition BlockingInstallUntilCompletionNoLock :: "pkg_env \<Rightarrow> (pkg, worker_pc) state" where
  "BlockingInstallUntilCompletionNoLock E = do {
     package \<leftarrow> gets p_Package;
     (case package of None \<Rightarrow> do { modify (p_crashed_update (\<lambda>_. True)); ret W_Clear }
      | Some info \<Rightarrow>
          if pe_new_api E then do { install_new_api E info; ret W_Clear }
          else do {
            ps \<leftarrow> pk_ask (pe_upgradable E);
            let upgrade = foldl (check_upgrade E info) False ps;
            modify (p_isUpgrade_update (\<lambda>_. False));
            r \<leftarrow> pk_ask (\<lambda>n. pe_install E n upgrade (pi_name info));
            ret (W_Progress (fst r) (snd r))
          })
   }"

definition install_returned :: "int \<Rightarrow> (pkg, unit) state" where
  "install_returned r = whenM (r \<noteq> 0) (do { SetError ERROR_GENERAL; NotifyStateChange })"

end
