(* ===== verification/PkgMachine.thy ===== *)
theory PkgMachine
  imports PkgInstall
begin

text \<open>
  The methods of \<open>PackagerImplementation\<close>, the loop of its worker thread as steps, and the
  plugin class \<open>Packager\<close> that forwards requests to it. A method holds \<open>_adminLock\<close>
  from its first to its last access to the state, so it is one step.
\<close>

subsection \<open>Configuration\<close>

definition text_or :: "string option \<Rightarrow> (string \<Rightarrow> string) \<Rightarrow> string \<Rightarrow> string" where
  "text_or v f other = (case v of Some t \<Rightarrow> if t \<noteq> [] then f t else other | None \<Rightarrow> other)"

definition Configure :: "pkg_env \<Rightarrow> (pkg, core_error) state" where
  "Configure E = do {
     modify (p_servicePI_update (\<lambda>_. True));
     let c = pe_config E;
     modify (\<lambda>s. s\<lparr>
       p_configFile := text_or (cf_config c) id (pe_data_path E @ ''opkg.conf''),
       p_tempPath := text_or (cf_temppath c) (pe_normalize E) (pe_volatile_path E @ pe_callsign E),
       p_cachePath := text_or (cf_cachepath c) (pe_normalize E) (pe_persistent_path E @ pe_callsign E),
       p_verbosity := (case cf_verbosity c of Some v \<Rightarrow> uint v | None \<Rightarrow> p_verbosity s),
       p_noDeps := (case cf_nodeps c of Some b \<Rightarrow> b | None \<Rightarrow> p_noDeps s),
       p_skipSignatureChecking :=
         (case cf_nosignaturecheck c of Some b \<Rightarrow> b | None \<Rightarrow> p_skipSignatureChecking s),
       p_alwaysUpdateFirst :=
         (case cf_alwaysupdatefirst c of Some b \<Rightarrow> b | None \<Rightarrow> p_alwaysUpdateFirst s),
       p_volatileCache := (case cf_volatilecache c of Some b \<Rightarrow> b | None \<Rightarrow> p_volatileCache s)\<rparr>);
     configFile \<leftarrow> gets p_configFile;
     there \<leftarrow> pk_ask (\<lambda>n. pe_exists E n configFile);
     if \<not> there then ret ERROR_GENERAL
     else do {
       tempPath \<leftarrow> gets p_tempPath;
       made \<leftarrow> pk_ask (\<lambda>n. pe_create_path E n tempPath);
       if \<not> made then ret ERROR_GENERAL
       else do {
         cachePath \<leftarrow> gets p_cachePath;
         made \<leftarrow> pk_ask (\<lambda>n. pe_create_path E n cachePath);
         ret (if \<not> made then ERROR_GENERAL else ERROR_NONE)
       }
     }
   }"

subsection \<open>Observers\<close>

definition Register :: "nat \<Rightarrow> (pkg, unit) state" where
  "Register n = do {
     modify (\<lambda>s. s\<lparr>p_refs := (p_refs s)(n := Suc (p_refs s n)), p_notifications := p_notifications s @ [n]\<rparr>);
     modify (\<lambda>s. case p_Install s of None \<Rightarrow> s
       | Some i \<Rightarrow> (case p_Package s of None \<Rightarrow> s\<lparr>p_crashed := True\<rparr>
           | Some p \<Rightarrow> s\<lparr>p_trace := StateChange n p i # p_trace s\<rparr>))
   }"

text \<open>An observer that is not registered makes the source dereference \<open>end()\<close>.\<close>

definition Unregister :: "nat \<Rightarrow> (pkg, unit) state" where
  "Unregister n = modify (\<lambda>s.
     if n \<notin> set (p_notifications s) then s\<lparr>p_crashed := True\<rparr>
     else s\<lparr>p_refs := (p_refs s)(n := p_refs s n - 1), p_notifications := remove1 n (p_notifications s)\<rparr>)"

subsection \<open>Requests\<close>

definition busy :: "pkg \<Rightarrow> bool" where
  "busy s \<longleftrightarrow> p_Install s \<noteq> None \<or> p_isSyncing s"

text \<open>The job: \<open>None\<close> for the three null pointers of \<open>SynchronizeRepository\<close>.\<close>

definition DoWork :: "pkg_env \<Rightarrow> package_info option \<Rightarrow> (pkg, core_error) state" where
  "DoWork E job = do {
     occupied \<leftarrow> gets busy;
     if occupied then ret ERROR_INPROGRESS
     else do {
       initialized \<leftarrow> gets p_opkgInitialized;
       whenM initialized FreeOPKG;
       ok \<leftarrow> InitOPKG E;
       modify (p_opkgInitialized_update (\<lambda>_. ok));
       if ok then do {
         (case job of
            Some info \<Rightarrow> modify (\<lambda>s. s\<lparr>p_Package := Some info, p_Install := Some InstallInfo\<rparr>)
          | None \<Rightarrow> modify (p_isSyncing_update (\<lambda>_. True)));
         modify (p_thread_update (th_run (pe_thread E)));
         ret ERROR_NONE
       }
       else ret ERROR_GENERAL
     }
   }"

definition Install :: "pkg_env \<Rightarrow> string \<Rightarrow> string \<Rightarrow> string \<Rightarrow> (pkg, core_error) state" where
  "Install E name version arch = DoWork E (Some \<lparr>pi_name = name, pi_version = version, pi_arch = arch\<rparr>)"

definition SynchronizeRepository :: "pkg_env \<Rightarrow> (pkg, core_error) state" where
  "SynchronizeRepository E = DoWork E None"

definition destroy_packager :: "(pkg, unit) state" where
  "destroy_packager = do {
     FreeOPKG;
     modify (\<lambda>s. if p_servicePI s then s\<lparr>p_servicePI := False\<rparr> else s\<lparr>p_crashed := True\<rparr>)
   }"

subsection \<open>The worker\<close>

definition wgoto :: "worker_pc \<Rightarrow> (pkg, unit) state" where
  "wgoto pc = modify (p_worker_update (\<lambda>_. pc))"

lemma run_wgoto [simp]: "run_state (wgoto pc) s = ((), s\<lparr>p_worker := pc\<rparr>)"
  by (simp add: wgoto_def)

definition clear_job :: "(pkg, unit) state" where
  "clear_job = modify (\<lambda>s. s\<lparr>p_crashed := (p_crashed s \<or> p_Install s = None \<or> p_Package s = None),
     p_Install := None, p_Package := None\<rparr>)"

definition worker_action :: "pkg_env \<Rightarrow> worker_pc \<Rightarrow> (pkg, unit) state" where
  "worker_action E pc = (case pc of
     W_Head \<Rightarrow> do { isInstall \<leftarrow> gets (\<lambda>s. p_Install s \<noteq> None); wgoto (W_Setup isInstall) }
   | W_Setup isInstall \<Rightarrow> do {
       BlockingSetupLocalRepoNoLock E (if isInstall then SETUP else FORCED);
       wgoto (if isInstall then W_Install else W_Block)
     }
   | W_Install \<Rightarrow> do { next_pc \<leftarrow> BlockingInstallUntilCompletionNoLock E; wgoto next_pc }
   | W_Progress ps r \<Rightarrow>
       (case ps of
          [] \<Rightarrow> do { install_returned r; wgoto W_Clear }
        | p # rest \<Rightarrow> do { InstallationProgessNoLock E p; wgoto (W_Progress rest r) })
   | W_Clear \<Rightarrow> do { clear_job; wgoto W_Block }
   | W_Block \<Rightarrow> do { modify (p_thread_update (th_block (pe_thread E))); wgoto W_Head })"

definition worker_step :: "pkg_env \<Rightarrow> pkg \<Rightarrow> pkg option" where
  "worker_step E s = (if p_thread s = TH_RUNNING then Some (after (worker_action E (p_worker s)) s) else None)"

subsection \<open>The machine\<close>

datatype pkg_event =
  PE_Configure
| PE_Register nat
| PE_Unregister nat
| PE_Work "package_info option"
| PE_Worker
| PE_Destroy

definition exec_pkg :: "pkg_env \<Rightarrow> pkg_event \<Rightarrow> pkg \<Rightarrow> pkg option" where
  "exec_pkg E e s =
     (if p_crashed s then None
      else (case e of
        PE_Configure \<Rightarrow> if p_servicePI s then None else Some (after (Configure E) s)
      | PE_Register n \<Rightarrow> Some (after (Register n) s)
      | PE_Unregister n \<Rightarrow> Some (after (Unregister n) s)
      | PE_Work job \<Rightarrow> if p_servicePI s then Some (after (do { r \<leftarrow> DoWork E job; pk_emit (Answered r) }) s) else None
      | PE_Worker \<Rightarrow> worker_step E s
      | PE_Destroy \<Rightarrow> if p_servicePI s then Some (after destroy_packager s) else None))"

text \<open>The constructor.\<close>

definition PackagerImplementation :: "opkg_conf \<Rightarrow> pkg" where
  "PackagerImplementation conf = \<lparr>p_configFile = [], p_tempPath = [], p_cachePath = [], p_verbosity = 0,
     p_noDeps = False, p_skipSignatureChecking = False, p_alwaysUpdateFirst = False,
     p_volatileCache = False, p_opkgInitialized = False, p_servicePI = False, p_notifications = [],
     p_refs = (\<lambda>_. 0), p_Package = None, p_Install = None, p_thread = TH_INITIALIZED,
     p_worker = W_Head, p_isUpgrade = False, p_isSyncing = False, p_opkg = conf, p_crashed = False,
     p_tick = 0, p_trace = []\<rparr>"

definition pkg_initial :: "pkg \<Rightarrow> bool" where
  "pkg_initial s \<longleftrightarrow> (\<exists>conf. s = PackagerImplementation conf)"

subsection \<open>The plugin class\<close>

datatype http_verb = HTTP_GET | HTTP_POST | HTTP_PUT | HTTP_other nat
datatype web_status = STATUS_OK | STATUS_BAD_REQUEST

record web_request =
  rq_verb :: http_verb
  rq_path :: string
  rq_query :: "string \<rightharpoonup> string"

record web_response =
  rs_code :: web_status
  rs_message :: string

text \<open>
  The framework's path segments (from the position given) and its decoding of an URL text
  into a buffer of the given size.
\<close>

record web_lib =
  segments :: "string \<Rightarrow> string list"
  url_decode :: "nat \<Rightarrow> string \<Rightarrow> string"

definition kMaxValueLength :: nat where "kMaxValueLength = 256"

definition option_value :: "web_lib \<Rightarrow> web_request \<Rightarrow> string \<Rightarrow> string" where
  "option_value L rq k = (case rq_query rq k of Some v \<Rightarrow> url_decode L kMaxValueLength v | None \<Rightarrow> [])"

definition Process :: "web_lib \<Rightarrow> pkg_env \<Rightarrow> 8 word \<Rightarrow> web_request \<Rightarrow> (pkg, web_response) state" where
  "Process L E skipURL rq =
     (let bad = \<lparr>rs_code = STATUS_BAD_REQUEST, rs_message = ''Invalid request to packager plugin.''\<rparr> in
      case segments L (drop (unat skipURL) (rq_path rq)) of
        _ # current # _ \<Rightarrow>
          if rq_verb rq = HTTP_POST \<or> rq_verb rq = HTTP_PUT then do {
            status \<leftarrow> (if current = ''Install'' then
                Install E (option_value L rq ''Package'') (option_value L rq ''Version'')
                  (option_value L rq ''Architecture'')
              else if current = ''SynchronizeRepository'' then SynchronizeRepository E
              else ret ERROR_UNAVAILABLE);
            ret (if status = ERROR_NONE then \<lparr>rs_code = STATUS_OK, rs_message = ''OK''\<rparr>
                 else if status = ERROR_INPROGRESS then
                   bad\<lparr>rs_message := ''Some operation already in progress. Only one at a time is allowed''\<rparr>
                 else bad)
          }
          else ret bad
      | _ \<Rightarrow> ret bad)"

text \<open>
  The two methods that the constructor registers. \<open>Params\<close> is a JSON container: a field that is not in
  the request has the empty text as its value.
\<close>

record rpc_params =
  par_package :: "string option"
  par_architecture :: "string option"
  par_version :: "string option"

definition par_value :: "string option \<Rightarrow> string" where
  "par_value p = (case p of Some v \<Rightarrow> v | None \<Rightarrow> [])"

definition packager_methods :: "pkg_env \<Rightarrow> (string \<times> (rpc_params \<Rightarrow> (pkg, core_error) state)) list" where
  "packager_methods E =
     [(''install'', \<lambda>p. Install E (par_value (par_package p)) (par_value (par_version p)) (par_value (par_architecture p))),
      (''synchronize'', \<lambda>_. SynchronizeRepository E)]"

text \<open>
  The members of the class; \<open>pl_registered\<close> counts the registrations of its notification
  sink. \<open>Root\<close> gives the implementation or null, and the identifier of its process.
\<close>

record packager =
  pl_service :: bool
  pl_skipURL :: "8 word"
  pl_connectionId :: nat
  pl_implementation :: bool
  pl_registered :: int

definition Packager_Initialize :: "nat \<Rightarrow> bool \<times> nat \<Rightarrow> core_error \<Rightarrow> packager \<Rightarrow> string \<times> packager" where
  "Packager_Initialize prefix_length root configured pl =
     (let pl = pl\<lparr>pl_service := True, pl_skipURL := of_nat prefix_length,
            pl_registered := pl_registered pl + 1, pl_implementation := fst root,
            pl_connectionId := snd root\<rparr>
      in if \<not> fst root then (''Couldn't create package instance'', pl\<lparr>pl_registered := pl_registered pl - 1\<rparr>)
         else if configured \<noteq> ERROR_NONE
           then (''Couldn't initialize package instance'', pl\<lparr>pl_registered := pl_registered pl - 1\<rparr>)
         else ([], pl))"

text \<open>\<open>None\<close> is the release of the null implementation.\<close>

definition Packager_Deinitialize :: "packager \<Rightarrow> packager option" where
  "Packager_Deinitialize pl =
     (if \<not> pl_implementation pl then None
      else Some (pl\<lparr>pl_registered := pl_registered pl - 1, pl_service := False, pl_implementation := False\<rparr>))"

text \<open>Whether the plugin submits its own deactivation when a process ends.\<close>

definition Packager_Deactivated :: "packager \<Rightarrow> nat \<Rightarrow> bool" where
  "Packager_Deactivated pl connection_id \<longleftrightarrow> connection_id = pl_connectionId pl"

subsection \<open>A device on which everything works\<close>

definition sample_thread :: thread_lib where
  "sample_thread = \<lparr>th_run = (\<lambda>_. TH_RUNNING), th_block = (\<lambda>t. if t = TH_RUNNING then TH_BLOCKED else t)\<rparr>"

lemma sample_thread_ok: "thread_lib_ok sample_thread"
  by (simp add: thread_lib_ok_def sample_thread_def)

definition sample_pkg_env :: pkg_env where
  "sample_pkg_env = \<lparr>pe_thread = sample_thread, pe_new_api = False,
     pe_config = \<lparr>cf_config = None, cf_temppath = None, cf_cachepath = None, cf_volatilecache = None,
       cf_verbosity = None, cf_nodeps = None, cf_nosignaturecheck = None, cf_alwaysupdatefirst = None\<rparr>,
     pe_data_path = ''/data/'', pe_volatile_path = ''/tmp/'', pe_persistent_path = ''/opt/'',
     pe_callsign = ''Packager'', pe_normalize = id, pe_exists = (\<lambda>n f. True),
     pe_create_path = (\<lambda>n f. True), pe_opkg_new = (\<lambda>n. 0), pe_conf_init = (\<lambda>n. 0),
     pe_load_feeds = (\<lambda>n. 0), pe_load_status = (\<lambda>n. 0), pe_cmd_find = (\<lambda>n c. True),
     pe_cmd_exec = (\<lambda>n c a. 0), pe_update_lists = (\<lambda>n. 0), pe_upgradable = (\<lambda>n. []),
     pe_compare = (\<lambda>a b. 0),
     pe_install = (\<lambda>n u p. ([\<lparr>percentage = 40, action = OPKG_DOWNLOAD, local_filename = []\<rparr>,
       \<lparr>percentage = 70, action = OPKG_INSTALL, local_filename = []\<rparr>], 0)),
     pe_dir = (\<lambda>n d. []), pe_PathName = id, pe_FileName = id, pe_metadata = (\<lambda>n f. None),
     pe_shell = (\<lambda>n c. None), pe_deactivate = (\<lambda>n c. ERROR_NONE),
     pe_set_root = (\<lambda>n c p. ERROR_NONE), pe_controller = (\<lambda>n. True), pe_persist = (\<lambda>n. ERROR_NONE)\<rparr>"

definition sample_opkg :: opkg_conf where
  "sample_opkg = \<lparr>conf_file = [], tmp_dir = [], host_cache_dir = 0, cache_dir = [], lists_dir = ''/var/opkg'',
     opkg_verbosity = 0, nodeps = False, volatile_cache = 0, check_pkg_signature = 0, signature_type = None\<rparr>"

definition sample_pkg_start :: pkg where
  "sample_pkg_start = PackagerImplementation sample_opkg"

lemma sample_pkg_initial: "pkg_initial sample_pkg_start" "thread_lib_ok (pe_thread sample_pkg_env)"
  by (auto simp: pkg_initial_def sample_pkg_start_def sample_pkg_env_def sample_thread_ok)

end
