(* ===== verification/PkgInvariant.thy ===== *)
theory PkgInvariant
  imports PkgMachine
begin

text \<open>
  What every event of the Packager keeps: the two halves of the job are there together, the
  worker is where the job wants it, the observers' reference counts agree with the list.
  The library's calls keep all of that (the frame), the installation keeps that there is
  a job.
\<close>

subsection \<open>Frames\<close>

definition job_frame :: "pkg \<Rightarrow> bool \<times> thread_state \<times> worker_pc \<times> nat list \<times> (nat \<Rightarrow> nat) \<times> bool \<times> bool" where
  "job_frame s = (p_isSyncing s, p_thread s, p_worker s, p_notifications s, p_refs s, p_crashed s, p_servicePI s)"

definition job_of :: "pkg \<Rightarrow> package_info option \<times> install_info option" where
  "job_of s = (p_Package s, p_Install s)"

definition still :: "pkg \<Rightarrow> pkg \<Rightarrow> bool" where
  "still s t \<longleftrightarrow> job_frame t = job_frame s \<and> job_of t = job_of s"

text \<open>There is a job, for the package of \<open>v\<close>, and the rest is as in \<open>v\<close>.\<close>

definition on_job :: "pkg \<Rightarrow> pkg \<Rightarrow> bool" where
  "on_job v s \<longleftrightarrow> job_frame s = job_frame v \<and> p_Package s = p_Package v \<and> p_Package v \<noteq> None
     \<and> p_Install s \<noteq> None"

named_theorems pk \<open>rules that show an operation of the Packager keeps a frame\<close>

lemma still_ask [pk]: "preserves (still v) (pk_ask f)"
  by (simp add: preserves_def still_def job_frame_def job_of_def)

lemma still_emit [pk]: "preserves (still v) (pk_emit e)"
  by (simp add: preserves_def still_def job_frame_def job_of_def)

lemma on_job_ask [pk]: "preserves (on_job v) (pk_ask f)"
  by (simp add: preserves_def on_job_def job_frame_def)

lemma on_job_emit [pk]: "preserves (on_job v) (pk_emit e)"
  by (simp add: preserves_def on_job_def job_frame_def)

lemma still_UpdateConfig [pk]: "preserves (still v) UpdateConfig"
  by (simp add: preserves_def still_def job_frame_def job_of_def UpdateConfig_def)

lemma still_initialized [pk]: "preserves (still v) (modify (p_opkgInitialized_update f))"
  by (simp add: preserves_def still_def job_frame_def job_of_def)

lemma still_InitOPKG [pk]: "preserves (still v) (InitOPKG E)"
  unfolding InitOPKG_def by (intro pres pk)

lemma still_FreeOPKG [pk]: "preserves (still v) FreeOPKG"
  unfolding FreeOPKG_def by (intro pres pk)

lemma on_job_UpdateConfiguration [pk]: "preserves (on_job v) (UpdateConfiguration E c p)"
  unfolding UpdateConfiguration_def by (intro pres pk)

lemma on_job_DeactivatePlugin [pk]: "preserves (on_job v) (DeactivatePlugin E c p)"
  unfolding DeactivatePlugin_def by (intro pres pk)

lemma on_job_GetCallsign [pk]: "preserves (on_job v) (GetCallsign E m)"
  unfolding GetCallsign_def by (intro pres pk)

lemma on_job_on_install [pk]: "preserves (on_job v) (on_install f)"
  by (auto simp: preserves_def on_job_def job_frame_def)

lemma on_job_setters [pk]:
  "preserves (on_job v) (SetState st)" "preserves (on_job v) (SetProgress p)"
  "preserves (on_job v) (SetError e)" "preserves (on_job v) (SetAppName E path)"
  unfolding SetState_def SetProgress_def SetError_def SetAppName_def
  by (rule on_job_on_install)+

lemma on_job_NotifyStateChange [pk]: "preserves (on_job v) NotifyStateChange"
  by (auto simp: preserves_def on_job_def job_frame_def NotifyStateChange_def)

lemma on_job_upgrade [pk]: "preserves (on_job v) (modify (p_isUpgrade_update f))"
  by (simp add: preserves_def on_job_def job_frame_def)

lemma on_job_progress_switch [pk]: "preserves (on_job v) (progress_switch act)"
  unfolding progress_switch_def by (cases act) (auto intro!: pres pk)

lemma on_job_installation_complete [pk]: "preserves (on_job v) (installation_complete E path)"
  unfolding installation_complete_def by (intro pres pk)

lemma on_job_InstallationProgess [pk]: "preserves (on_job v) (InstallationProgessNoLock E p)"
  unfolding InstallationProgessNoLock_def by (intro pres pk)

lemma on_job_install_new_api [pk]: "preserves (on_job v) (install_new_api E info)"
  unfolding install_new_api_def by (intro pres pk)

lemma on_job_install_returned [pk]: "preserves (on_job v) (install_returned r)"
  unfolding install_returned_def by (intro pres pk)

lemma stillD: "preserves (still s) m \<Longrightarrow> still s (after m s)"
  by (erule preservesD [of "still s"]) (simp add: still_def)

lemma on_jobD: "preserves (on_job s) m \<Longrightarrow> p_Package s \<noteq> None \<Longrightarrow> p_Install s \<noteq> None \<Longrightarrow> on_job s (after m s)"
  by (erule preservesD [of "on_job s"]) (simp add: on_job_def)

text \<open>The installation proper: it keeps the job, and says where the worker goes on.\<close>

lemma blocking_install:
  assumes "p_Package s \<noteq> None" and "p_Install s \<noteq> None"
  shows "on_job s (after (BlockingInstallUntilCompletionNoLock E) s)"
    and "\<exists>ps r. result_of (BlockingInstallUntilCompletionNoLock E) s \<in> {W_Clear, W_Progress ps r}"
proof -
  obtain info where info: "p_Package s = Some info" using assms by auto
  have "on_job s (after (install_new_api E info) s)"
    by (rule on_jobD [OF on_job_install_new_api assms])
  with info assms show "on_job s (after (BlockingInstallUntilCompletionNoLock E) s)"
    by (auto simp: BlockingInstallUntilCompletionNoLock_def split_beta Let_def)
      (auto simp: on_job_def job_frame_def)
  show "\<exists>ps r. result_of (BlockingInstallUntilCompletionNoLock E) s \<in> {W_Clear, W_Progress ps r}"
    using info by (auto simp: BlockingInstallUntilCompletionNoLock_def split_beta Let_def)
qed

text \<open>The set-up of the repository writes nothing but \<open>_isSyncing\<close>, and always that when forced.\<close>

definition setup_done :: "pkg \<Rightarrow> bool \<Rightarrow> pkg \<Rightarrow> bool" where
  "setup_done s syncing t \<longleftrightarrow> job_of t = job_of s \<and> p_isSyncing t = syncing
     \<and> p_thread t = p_thread s \<and> p_worker t = p_worker s \<and> p_notifications t = p_notifications s
     \<and> p_refs t = p_refs s \<and> p_crashed t = p_crashed s \<and> p_servicePI t = p_servicePI s"

lemma blocking_setup:
  "\<exists>b. setup_done s b (after (BlockingSetupLocalRepoNoLock E mode) s)
     \<and> (b \<longrightarrow> p_isSyncing s) \<and> \<not> (mode = FORCED \<and> b)"
  by (auto simp: BlockingSetupLocalRepoNoLock_def NotifyRepoSynced_def setup_done_def job_of_def split_beta)

subsection \<open>The invariant\<close>

text \<open>The points of the worker at which it has a job of its own.\<close>

definition installing_pc :: "worker_pc \<Rightarrow> bool" where
  "installing_pc pc = (case pc of W_Head \<Rightarrow> False | W_Setup b \<Rightarrow> b | W_Install \<Rightarrow> True
     | W_Progress ps r \<Rightarrow> True | W_Clear \<Rightarrow> True | W_Block \<Rightarrow> False)"

definition pkg_inv :: "pkg \<Rightarrow> bool" where
  "pkg_inv s \<longleftrightarrow>
     (p_Install s = None \<longleftrightarrow> p_Package s = None)
   \<and> \<not> (p_Install s \<noteq> None \<and> p_isSyncing s)
   \<and> (installing_pc (p_worker s) \<longrightarrow> p_Install s \<noteq> None)
   \<and> (p_worker s = W_Setup False \<longrightarrow> p_isSyncing s)
   \<and> (p_thread s \<noteq> TH_RUNNING \<longrightarrow> p_worker s = W_Head \<and> p_thread s \<in> {TH_INITIALIZED, TH_BLOCKED})
   \<and> (p_thread s = TH_RUNNING \<and> p_worker s = W_Head \<longrightarrow> busy s)
   \<and> (\<forall>n. p_refs s n = count_list (p_notifications s) n)"

lemma inv_initial: "pkg_initial s \<Longrightarrow> pkg_inv s \<and> \<not> p_crashed s"
  by (auto simp: pkg_initial_def PackagerImplementation_def pkg_inv_def installing_pc_def)

lemma inv_still: "pkg_inv s \<Longrightarrow> still s t \<Longrightarrow> pkg_inv t"
  by (auto simp: pkg_inv_def still_def job_frame_def job_of_def busy_def)

lemma still_fields:
  "still s t \<Longrightarrow> p_isSyncing t = p_isSyncing s \<and> p_thread t = p_thread s \<and> p_worker t = p_worker s
     \<and> p_notifications t = p_notifications s \<and> p_refs t = p_refs s \<and> p_crashed t = p_crashed s
     \<and> p_servicePI t = p_servicePI s \<and> p_Package t = p_Package s \<and> p_Install t = p_Install s"
  by (simp add: still_def job_frame_def job_of_def)

lemma on_job_fields:
  "on_job s t \<Longrightarrow> p_isSyncing t = p_isSyncing s \<and> p_thread t = p_thread s \<and> p_worker t = p_worker s
     \<and> p_notifications t = p_notifications s \<and> p_refs t = p_refs s \<and> p_crashed t = p_crashed s
     \<and> p_servicePI t = p_servicePI s \<and> p_Package t = p_Package s \<and> p_Package t \<noteq> None \<and> p_Install t \<noteq> None"
  by (simp add: on_job_def job_frame_def)

lemma setup_done_fields:
  "setup_done s b t \<Longrightarrow> p_isSyncing t = b \<and> p_thread t = p_thread s \<and> p_worker t = p_worker s
     \<and> p_notifications t = p_notifications s \<and> p_refs t = p_refs s \<and> p_crashed t = p_crashed s
     \<and> p_servicePI t = p_servicePI s \<and> p_Package t = p_Package s \<and> p_Install t = p_Install s"
  by (simp add: setup_done_def job_of_def)

text \<open>The worker, point by point.\<close>

lemma head_step: "run_state (worker_action E W_Head) s = ((), s\<lparr>p_worker := W_Setup (p_Install s \<noteq> None)\<rparr>)"
  by (simp add: worker_action_def)

lemma setup_step: "after (worker_action E (W_Setup b)) s =
    (after (BlockingSetupLocalRepoNoLock E (if b then SETUP else FORCED)) s)\<lparr>p_worker := if b then W_Install else W_Block\<rparr>"
  by (simp add: worker_action_def split_beta)

lemma install_step: "after (worker_action E W_Install) s =
    (after (BlockingInstallUntilCompletionNoLock E) s)
      \<lparr>p_worker := result_of (BlockingInstallUntilCompletionNoLock E) s\<rparr>"
  by (simp add: worker_action_def split_beta)

lemma progress_step: "after (worker_action E (W_Progress (p # ps) r)) s =
    (after (InstallationProgessNoLock E p) s)\<lparr>p_worker := W_Progress ps r\<rparr>"
  by (simp add: worker_action_def split_beta)

lemma returned_step: "after (worker_action E (W_Progress [] r)) s =
    (after (install_returned r) s)\<lparr>p_worker := W_Clear\<rparr>"
  by (simp add: worker_action_def split_beta)

lemma clear_step: "after (worker_action E W_Clear) s =
    s\<lparr>p_crashed := (p_crashed s \<or> p_Install s = None \<or> p_Package s = None), p_Install := None,
      p_Package := None, p_worker := W_Block\<rparr>"
  by (simp add: worker_action_def clear_job_def)

lemma block_step: "after (worker_action E W_Block) s =
    s\<lparr>p_thread := th_block (pe_thread E) (p_thread s), p_worker := W_Head\<rparr>"
  by (simp add: worker_action_def)

lemma worker_inv:
  assumes L: "thread_lib_ok (pe_thread E)" and inv: "pkg_inv s" and run: "p_thread s = TH_RUNNING"
    and t: "t = after (worker_action E (p_worker s)) s"
  shows "pkg_inv t \<and> (p_crashed t \<longrightarrow> p_crashed s)"
proof (cases "p_worker s")
  case W_Head
  with inv run show ?thesis
    by (auto simp: t head_step pkg_inv_def installing_pc_def busy_def)
next
  case (W_Setup b)
  from blocking_setup [of s E "if b then SETUP else FORCED"] obtain c
    where c: "setup_done s c (after (BlockingSetupLocalRepoNoLock E (if b then SETUP else FORCED)) s)"
      "c \<longrightarrow> p_isSyncing s" by blast
  show ?thesis
    using inv run W_Setup c(2) setup_done_fields [OF c(1)]
    by (cases b) (auto simp: t setup_step pkg_inv_def installing_pc_def busy_def)
next
  case W_Install
  with inv have there: "p_Package s \<noteq> None" "p_Install s \<noteq> None"
    by (auto simp: pkg_inv_def installing_pc_def)
  from blocking_install [OF there, of E] obtain ps r
    where o: "on_job s (after (BlockingInstallUntilCompletionNoLock E) s)"
      and pc: "result_of (BlockingInstallUntilCompletionNoLock E) s \<in> {W_Clear, W_Progress ps r}"
    by blast
  show ?thesis
    using inv run W_Install there pc on_job_fields [OF o]
    by (auto simp: t install_step pkg_inv_def installing_pc_def busy_def)
next
  case (W_Progress ps r)
  with inv have there: "p_Package s \<noteq> None" "p_Install s \<noteq> None"
    by (auto simp: pkg_inv_def installing_pc_def)
  show ?thesis
  proof (cases ps)
    case Nil
    show ?thesis
      using inv run W_Progress Nil there on_job_fields [OF on_jobD [OF on_job_install_returned there, of r]]
      by (auto simp: t returned_step pkg_inv_def installing_pc_def busy_def)
  next
    case (Cons p rest)
    show ?thesis
      using inv run W_Progress Cons there on_job_fields [OF on_jobD [OF on_job_InstallationProgess there, of E p]]
      by (auto simp: t progress_step pkg_inv_def installing_pc_def busy_def)
  qed
next
  case W_Clear
  with inv run show ?thesis
    by (auto simp: t clear_step pkg_inv_def installing_pc_def busy_def)
next
  case W_Block
  with inv run L show ?thesis
    by (auto simp: t block_step pkg_inv_def installing_pc_def busy_def thread_lib_ok_def)
qed

text \<open>A request, by what becomes of it.\<close>

lemma DoWork_busy: "busy s \<Longrightarrow> run_state (DoWork E job) s = (ERROR_INPROGRESS, s)"
  by (simp add: DoWork_def)

definition reinit :: "pkg_env \<Rightarrow> pkg \<Rightarrow> bool \<times> pkg" where
  "reinit E s = run_state (do { initialized \<leftarrow> gets p_opkgInitialized; whenM initialized FreeOPKG; InitOPKG E }) s"

lemma reinit_still: "still s (snd (reinit E s))"
  unfolding reinit_def by (rule stillD) (intro pres pk)

lemma DoWork_idle:
  assumes "\<not> busy s"
  shows "run_state (DoWork E job) s =
    (let (ok, u) = reinit E s; v = u\<lparr>p_opkgInitialized := ok\<rparr> in
     if ok then (ERROR_NONE,
       (case job of
          Some info \<Rightarrow> v\<lparr>p_Package := Some info, p_Install := Some InstallInfo\<rparr>
        | None \<Rightarrow> v\<lparr>p_isSyncing := True\<rparr>)\<lparr>p_thread := th_run (pe_thread E) (p_thread v)\<rparr>)
     else (ERROR_GENERAL, v))"
  using assms by (auto simp: DoWork_def reinit_def split_beta Let_def split: option.split)

lemma DoWork_inv:
  assumes L: "thread_lib_ok (pe_thread E)" and inv: "pkg_inv s"
  shows "pkg_inv (after (DoWork E job) s) \<and> p_crashed (after (DoWork E job) s) = p_crashed s"
proof (cases "busy s")
  case True
  then show ?thesis using inv by (simp add: DoWork_busy)
next
  case False
  note f = still_fields [OF reinit_still [of s E]]
  show ?thesis
    using False inv f L unfolding DoWork_idle [OF False]
    by (cases job)
      (auto simp: split_beta Let_def pkg_inv_def installing_pc_def busy_def thread_lib_ok_def)
qed

end
