(* ===== verification/PkgProps.thy ===== *)
theory PkgProps
  imports PkgInvariant
begin

text \<open>
  The properties of the Packager: its assertions hold and its pointers are not null, every
  job that the worker takes up is brought to an end, a job accepted at the wrong moment is
  never executed, and what the progress reports, the version check and the requests do.
\<close>

subsection \<open>The invariant in every run\<close>

lemma count_list_remove1: "count_list (remove1 x xs) y = (if x = y then count_list xs y - 1 else count_list xs y)"
  by (induction xs) (auto simp: count_list_0_iff)

lemma Configure_inv: "preserves (\<lambda>s. pkg_inv s \<and> p_crashed s = c) (Configure E)"
  unfolding Configure_def Let_def
  by (intro pres preserves_modify) (auto simp: pkg_inv_def busy_def preserves_def)

lemma Register_inv: "pkg_inv s \<Longrightarrow> pkg_inv (after (Register n) s) \<and> p_crashed (after (Register n) s) = p_crashed s"
  by (auto simp: Register_def pkg_inv_def busy_def split: option.split)

lemma Unregister_inv:
  assumes "pkg_inv s"
  shows "pkg_inv (after (Unregister n) s) \<and> p_crashed (after (Unregister n) s)
    = (p_crashed s \<or> n \<notin> set (p_notifications s))"
  using assms by (auto simp: Unregister_def pkg_inv_def busy_def count_list_remove1)

lemma destroy_inv:
  assumes "pkg_inv s" and "p_servicePI s"
  shows "pkg_inv (after destroy_packager s) \<and> p_crashed (after destroy_packager s) = p_crashed s"
proof -
  have f: "still s (after FreeOPKG s)" by (rule stillD) (rule pk)
  from inv_still [OF assms(1) f] still_fields [OF f] assms(2) show ?thesis
    by (auto simp: destroy_packager_def split_beta pkg_inv_def busy_def)
qed

text \<open>Each event when it is enabled.\<close>

lemma exec_pkgD:
  "exec_pkg E PE_Configure s = Some t \<Longrightarrow> \<not> p_crashed s \<and> t = after (Configure E) s"
  "exec_pkg E (PE_Register n) s = Some t \<Longrightarrow> \<not> p_crashed s \<and> t = after (Register n) s"
  "exec_pkg E (PE_Unregister n) s = Some t \<Longrightarrow> \<not> p_crashed s \<and> t = after (Unregister n) s"
  "exec_pkg E (PE_Work j) s = Some t \<Longrightarrow> \<not> p_crashed s \<and> p_servicePI s
     \<and> t = (after (DoWork E j) s)\<lparr>p_trace := Answered (result_of (DoWork E j) s) # p_trace (after (DoWork E j) s)\<rparr>"
  "exec_pkg E PE_Worker s = Some t \<Longrightarrow> \<not> p_crashed s \<and> p_thread s = TH_RUNNING
     \<and> t = after (worker_action E (p_worker s)) s"
  "exec_pkg E PE_Destroy s = Some t \<Longrightarrow> \<not> p_crashed s \<and> p_servicePI s \<and> t = after destroy_packager s"
  by (simp_all add: exec_pkg_def worker_step_def split_beta split: if_splits)

lemma pkg_inv_trace: "pkg_inv (s\<lparr>p_trace := x\<rparr>) = pkg_inv s"
  by (simp add: pkg_inv_def busy_def)

text \<open>One event: what it keeps, and the only one that can crash the plugin.\<close>

lemma pkg_event_inv:
  assumes L: "thread_lib_ok (pe_thread E)" and inv: "pkg_inv s" and e: "exec_pkg E e s = Some t"
  shows "pkg_inv t \<and> \<not> (p_crashed t \<and> \<not> (\<exists>n. e = PE_Unregister n \<and> n \<notin> set (p_notifications s)))"
proof (cases e)
  case PE_Configure
  note d = exec_pkgD(1) [OF e [unfolded PE_Configure]]
  from preservesD [OF Configure_inv [of False E], of s] inv d show ?thesis by simp
next
  case (PE_Register n)
  note d = exec_pkgD(2) [OF e [unfolded PE_Register]]
  from Register_inv [OF inv, of n] d show ?thesis by simp
next
  case (PE_Unregister n)
  note d = exec_pkgD(3) [OF e [unfolded PE_Unregister]]
  from Unregister_inv [OF inv, of n] d PE_Unregister show ?thesis by simp
next
  case (PE_Work j)
  note d = exec_pkgD(4) [OF e [unfolded PE_Work]]
  from DoWork_inv [OF L inv, of j] d show ?thesis by (simp add: pkg_inv_trace)
next
  case PE_Worker
  note d = exec_pkgD(5) [OF e [unfolded PE_Worker]]
  from worker_inv [OF L inv, of t] d show ?thesis by simp
next
  case PE_Destroy
  note d = exec_pkgD(6) [OF e [unfolded PE_Destroy]]
  from destroy_inv [OF inv] d show ?thesis by simp
qed

interpretation pk: transition_system pkg_initial "exec_pkg E" "\<lambda>s. \<not> (thread_lib_ok (pe_thread E) \<and> \<not> pkg_inv s)"
  for E
  by unfold_locales (use inv_initial pkg_event_inv in blast)+


subsection \<open>The worker ends its job\<close>

definition finishes :: "pkg_env \<Rightarrow> pkg \<Rightarrow> bool" where
  "finishes E s \<longleftrightarrow> (\<exists>k t. run_events (exec_pkg E) (replicate k PE_Worker) s = Some t
     \<and> p_thread t = TH_BLOCKED \<and> \<not> busy t \<and> \<not> p_crashed t)"

lemma finishesI: "run_events (exec_pkg E) (replicate k PE_Worker) s = Some t \<Longrightarrow> p_thread t = TH_BLOCKED
    \<Longrightarrow> \<not> busy t \<Longrightarrow> \<not> p_crashed t \<Longrightarrow> finishes E s"
  unfolding finishes_def by blast

lemma finishes_step: "exec_pkg E PE_Worker s = Some u \<Longrightarrow> finishes E u \<Longrightarrow> finishes E s"
  unfolding finishes_def by (metis replicate_Suc run_events_step)

text \<open>The running worker in a state of the invariant, and its next state.\<close>

definition at_work :: "pkg \<Rightarrow> bool" where
  "at_work s \<longleftrightarrow> pkg_inv s \<and> \<not> p_crashed s \<and> p_thread s = TH_RUNNING"

lemma at_work_next:
  assumes "thread_lib_ok (pe_thread E)" and "at_work s"
    and "u = after (worker_action E (p_worker s)) s" and "p_thread u = TH_RUNNING"
  shows "exec_pkg E PE_Worker s = Some u \<and> at_work u"
  using worker_inv [OF assms(1) _ _ assms(3)] assms
  by (auto simp: at_work_def exec_pkg_def worker_step_def)

lemma finishes_at_block:
  assumes "thread_lib_ok (pe_thread E)" and "at_work s" and "p_worker s = W_Block" and "\<not> busy s"
  shows "finishes E s"
proof -
  have "exec_pkg E PE_Worker s = Some (s\<lparr>p_thread := TH_BLOCKED, p_worker := W_Head\<rparr>)"
    using assms by (simp add: exec_pkg_def worker_step_def block_step at_work_def thread_lib_ok_def)
  then have "run_events (exec_pkg E) (replicate 1 PE_Worker) s = Some (s\<lparr>p_thread := TH_BLOCKED, p_worker := W_Head\<rparr>)"
    by simp
  then show ?thesis
    by (rule finishesI) (use assms in \<open>auto simp: busy_def at_work_def\<close>)
qed

lemma finishes_at_clear:
  assumes L: "thread_lib_ok (pe_thread E)" and s: "at_work s" "p_worker s = W_Clear"
  shows "finishes E s"
proof -
  let ?u = "after (worker_action E (p_worker s)) s"
  have u: "p_thread ?u = TH_RUNNING" "p_worker ?u = W_Block" "\<not> busy ?u"
    using s by (auto simp: clear_step at_work_def busy_def pkg_inv_def installing_pc_def)
  from at_work_next [OF L s(1) refl u(1)] finishes_step finishes_at_block [OF L _ u(2,3)]
  show ?thesis by blast
qed

lemma job_there: "at_work s \<Longrightarrow> installing_pc (p_worker s) \<Longrightarrow> p_Package s \<noteq> None \<and> p_Install s \<noteq> None"
  by (auto simp: at_work_def pkg_inv_def)

lemma finishes_at_progress:
  assumes L: "thread_lib_ok (pe_thread E)"
  shows "at_work s \<Longrightarrow> p_worker s = W_Progress ps r \<Longrightarrow> finishes E s"
proof (induction ps arbitrary: s)
  case Nil
  then have there: "p_Package s \<noteq> None" "p_Install s \<noteq> None"
    using job_there [of s] by (simp_all add: installing_pc_def)
  let ?u = "after (worker_action E (p_worker s)) s"
  have u: "p_thread ?u = TH_RUNNING" "p_worker ?u = W_Clear"
    using Nil on_job_fields [OF on_jobD [OF on_job_install_returned there, of r]]
    by (simp_all add: returned_step at_work_def)
  from at_work_next [OF L Nil(1) refl u(1)] finishes_step finishes_at_clear [OF L _ u(2)]
  show ?case by blast
next
  case (Cons p ps)
  then have there: "p_Package s \<noteq> None" "p_Install s \<noteq> None"
    using job_there [of s] by (simp_all add: installing_pc_def)
  let ?u = "after (worker_action E (p_worker s)) s"
  have u: "p_thread ?u = TH_RUNNING" "p_worker ?u = W_Progress ps r"
    using Cons(2,3) on_job_fields [OF on_jobD [OF on_job_InstallationProgess there, of E p]]
    by (simp_all add: progress_step at_work_def)
  from at_work_next [OF L Cons(2) refl u(1)] finishes_step Cons.IH [OF _ u(2)]
  show ?case by blast
qed

lemma finishes_at_install:
  assumes L: "thread_lib_ok (pe_thread E)" and s: "at_work s" "p_worker s = W_Install"
  shows "finishes E s"
proof -
  have there: "p_Package s \<noteq> None" "p_Install s \<noteq> None"
    using job_there [OF s(1)] s(2) by (simp_all add: installing_pc_def)
  let ?u = "after (worker_action E (p_worker s)) s"
  from blocking_install [OF there, of E] obtain ps r
    where o: "on_job s (after (BlockingInstallUntilCompletionNoLock E) s)"
      and pc: "result_of (BlockingInstallUntilCompletionNoLock E) s \<in> {W_Clear, W_Progress ps r}"
    by blast
  have u: "p_thread ?u = TH_RUNNING" "p_worker ?u = W_Clear \<or> p_worker ?u = W_Progress ps r"
    using s pc on_job_fields [OF o] by (auto simp: install_step at_work_def)
  from at_work_next [OF L s(1) refl u(1)] finishes_step u(2)
    finishes_at_clear [OF L] finishes_at_progress [OF L]
  show ?thesis by blast
qed

lemma finishes_at_setup:
  assumes L: "thread_lib_ok (pe_thread E)" and s: "at_work s" "p_worker s = W_Setup b"
  shows "finishes E s"
proof -
  let ?u = "after (worker_action E (p_worker s)) s"
  from blocking_setup [of s E "if b then SETUP else FORCED"] obtain c
    where c: "setup_done s c (after (BlockingSetupLocalRepoNoLock E (if b then SETUP else FORCED)) s)"
      and forced: "\<not> ((if b then SETUP else FORCED) = FORCED \<and> c)" by blast
  have u: "p_thread ?u = TH_RUNNING" "p_worker ?u = (if b then W_Install else W_Block)"
    "b \<or> \<not> busy ?u"
    using s forced setup_done_fields [OF c]
    by (auto simp: setup_step at_work_def busy_def pkg_inv_def)
  note n = at_work_next [OF L s(1) refl u(1)]
  show ?thesis
  proof (cases b)
    case True
    with n finishes_step finishes_at_install [OF L] u(2) show ?thesis by auto
  next
    case False
    with n finishes_step finishes_at_block [OF L] u(2,3) show ?thesis by auto
  qed
qed

lemma finishes_at_head:
  assumes L: "thread_lib_ok (pe_thread E)" and s: "at_work s" "p_worker s = W_Head"
  shows "finishes E s"
proof -
  let ?u = "after (worker_action E (p_worker s)) s"
  have u: "p_thread ?u = TH_RUNNING" "p_worker ?u = W_Setup (p_Install s \<noteq> None)"
    using s by (simp_all add: head_step at_work_def)
  from at_work_next [OF L s(1) refl u(1)] finishes_step finishes_at_setup [OF L _ u(2)]
  show ?thesis by blast
qed

text \<open>
  C20: The worker brings every job it has taken up to an end. In every run, whenever the
  worker thread runs and is not just before \<open>Block()\<close>, some number of its own steps leads to
  the blocked thread with no job left and no crash: however many progress reports the library
  makes, whatever it answers, and for installations as for synchronisations.
\<close>

theorem worker_ends_its_job:
  assumes L: "thread_lib_ok (pe_thread E)" and "pkg_initial s" and "run_events (exec_pkg E) es s = Some t"
    and "\<not> p_crashed t" and "p_thread t = TH_RUNNING" and "p_worker t \<noteq> W_Block"
  shows "\<exists>k u. run_events (exec_pkg E) (replicate k PE_Worker) t = Some u
    \<and> p_thread u = TH_BLOCKED \<and> p_Install u = None \<and> \<not> p_isSyncing u \<and> \<not> p_crashed u"
proof -
  have "pkg_inv t" using pk.reached_invariant [OF assms(2,3)] L by blast
  with assms have w: "at_work t" by (simp add: at_work_def)
  have "finishes E t"
  proof (cases "p_worker t")
    case W_Head then show ?thesis by (rule finishes_at_head [OF L w])
  next
    case W_Setup then show ?thesis by (rule finishes_at_setup [OF L w])
  next
    case W_Install then show ?thesis by (rule finishes_at_install [OF L w])
  next
    case W_Progress then show ?thesis by (rule finishes_at_progress [OF L w])
  next
    case W_Clear then show ?thesis by (rule finishes_at_clear [OF L w])
  next
    case W_Block with assms show ?thesis by simp
  qed
  then show ?thesis by (auto simp: finishes_def busy_def)
qed

subsection \<open>A job accepted at the wrong moment\<close>

definition stuck :: "pkg \<Rightarrow> bool" where
  "stuck s \<longleftrightarrow> p_thread s = TH_BLOCKED \<and> busy s"

lemma stuck_Configure: "preserves stuck (Configure E)"
  unfolding Configure_def Let_def
  by (intro pres preserves_modify) (auto simp: stuck_def busy_def preserves_def)

lemma stuck_destroy: "preserves stuck destroy_packager"
proof (rule preservesI)
  fix s assume "stuck s"
  moreover have "still s (after FreeOPKG s)" by (rule stillD) (rule pk)
  ultimately show "stuck (after destroy_packager s)"
    using still_fields [of s "after FreeOPKG s"]
    by (auto simp: destroy_packager_def split_beta stuck_def busy_def)
qed

lemma stuck_closed: "stuck s \<Longrightarrow> exec_pkg E e s = Some t \<Longrightarrow> stuck t"
proof (cases e)
  case PE_Configure
  assume "stuck s" "exec_pkg E e s = Some t"
  with PE_Configure preservesD [OF stuck_Configure] exec_pkgD(1) show "stuck t" by blast
next
  case (PE_Register n)
  assume "stuck s" "exec_pkg E e s = Some t"
  with PE_Register exec_pkgD(2) [of E n s t] show "stuck t"
    by (auto simp: Register_def stuck_def busy_def split: option.split)
next
  case (PE_Unregister n)
  assume "stuck s" "exec_pkg E e s = Some t"
  with PE_Unregister exec_pkgD(3) [of E n s t] show "stuck t"
    by (auto simp: Unregister_def stuck_def busy_def)
next
  case (PE_Work j)
  assume "stuck s" "exec_pkg E e s = Some t"
  with PE_Work exec_pkgD(4) [of E j s t] DoWork_busy [of s E j] show "stuck t"
    by (auto simp: stuck_def busy_def)
next
  case PE_Worker
  assume "stuck s" "exec_pkg E e s = Some t"
  with PE_Worker exec_pkgD(5) [of E s t] show "stuck t" by (simp add: stuck_def)
next
  case PE_Destroy
  assume "stuck s" "exec_pkg E e s = Some t"
  with PE_Destroy preservesD [OF stuck_destroy] exec_pkgD(6) show "stuck t" by blast
qed

text \<open>
  C21: A job that is accepted after the worker has finished the last one and before it blocks
  is never executed. This is what happens to an \<open>Install\<close> that a client issues from the
  notification that the repository is synchronised: it is answered with success, the
  worker blocks without looking at it, and whatever happens afterwards the thread stays
  blocked, the job stays in progress and every further request is refused.
\<close>

theorem late_job_is_lost:
  assumes L: "thread_lib_ok (pe_thread E)"
    and "p_thread s = TH_RUNNING" "p_worker s = W_Block"
    and "result_of (DoWork E j) s = ERROR_NONE"
    and "run_events (exec_pkg E) (PE_Work j # PE_Worker # es) s = Some t"
  shows "p_thread t = TH_BLOCKED \<and> (p_Install t \<noteq> None \<or> p_isSyncing t)
    \<and> result_of (DoWork E j') t = ERROR_INPROGRESS"
proof -
  from assms(5) obtain u v where u: "exec_pkg E (PE_Work j) s = Some u" "exec_pkg E PE_Worker u = Some v"
    "run_events (exec_pkg E) es v = Some t" by (auto split: option.splits)
  have idle: "\<not> busy s" using assms(4) DoWork_busy by fastforce
  note f = still_fields [OF reinit_still [of s E]]
  note d = exec_pkgD(4) [OF u(1)]
  have "p_thread u = TH_RUNNING \<and> p_worker u = W_Block \<and> busy u"
    using d f assms(1-4) unfolding DoWork_idle [OF idle]
    by (cases j) (auto simp: split_beta Let_def thread_lib_ok_def busy_def split: if_splits)
  with exec_pkgD(5) [OF u(2)] L have "stuck v"
    by (auto simp: block_step stuck_def busy_def thread_lib_ok_def)
  from run_events_closed [of stuck "exec_pkg E", OF _ this u(3)] stuck_closed
  have "stuck t" by blast
  then show ?thesis using DoWork_busy [of t E j'] by (auto simp: stuck_def busy_def)
qed

subsection \<open>Progress reports\<close>

lemma run_setters [simp]:
  "p_Install s = Some i \<Longrightarrow> run_state (SetState st) s = ((), s\<lparr>p_Install := Some (i\<lparr>ii_state := st\<rparr>)\<rparr>)"
  "p_Install s = Some i \<Longrightarrow> run_state (SetProgress n) s = ((), s\<lparr>p_Install := Some (i\<lparr>ii_progress := word_of_int n\<rparr>)\<rparr>)"
  by (simp_all add: SetState_def SetProgress_def)

lemma run_NotifyStateChange [simp]:
  "p_Package s = Some p \<Longrightarrow> p_Install s = Some i \<Longrightarrow> run_state NotifyStateChange s =
     ((), s\<lparr>p_trace := rev (map (\<lambda>n. StateChange n p i) (p_notifications s)) @ p_trace s\<rparr>)"
  by (simp add: NotifyStateChange_def)

text \<open>What an observer is told by one report below 100 percent: the states, in order.\<close>

definition told :: "install_state \<Rightarrow> opkg_action \<Rightarrow> install_state list" where
  "told st act = (case act of
     OPKG_DOWNLOAD \<Rightarrow> if st = DOWNLOADING then [] else [DOWNLOADING]
   | OPKG_INSTALL \<Rightarrow> if st = DOWNLOADING then [DOWNLOADED, INSTALLING]
       else if st = INSTALLING then [] else [INSTALLING]
   | OPKG_other _ \<Rightarrow> [])"

text \<open>The messages for a list of states, newest first, as the trace has them.\<close>

fun messages :: "nat list \<Rightarrow> package_info \<Rightarrow> install_info \<Rightarrow> install_state list \<Rightarrow> pkg_effect list" where
  "messages ns p i [] = []"
| "messages ns p i (st # sts) = messages ns p i sts @ rev (map (\<lambda>n. StateChange n p (i\<lparr>ii_state := st\<rparr>)) ns)"

text \<open>
  What a progress report below 100 percent does, for every state of the installation: the
  percentage is stored as a byte, the state follows the action, and each observer is told
  exactly the states that are new, in order: the end of a download is announced before the
  installation begins, and a report that changes nothing is not announced.
\<close>

theorem progress_report:
  assumes "p_Package s = Some info" and "p_Install s = Some i" and "percentage p \<noteq> 100"
  shows "run_state (InstallationProgessNoLock E p) s =
    (let j = i\<lparr>ii_progress := word_of_int (percentage p)\<rparr>; sts = told (ii_state i) (action p)
     in ((), s\<lparr>p_Install := Some (j\<lparr>ii_state := last (ii_state i # sts)\<rparr>),
               p_trace := messages (p_notifications s) info j sts @ p_trace s\<rparr>))"
  using assms
  by (cases "action p"; cases "ii_state i")
    (simp_all add: InstallationProgessNoLock_def progress_switch_def install_state_of_def told_def Let_def)

theorem progress_report_witness:
  "ii_state (the (p_Install (after (InstallationProgessNoLock sample_pkg_env \<lparr>percentage = 40, action = OPKG_INSTALL, local_filename = []\<rparr>)
     (sample_pkg_start\<lparr>p_Package := Some \<lparr>pi_name = ''a'', pi_version = [], pi_arch = []\<rparr>,
       p_Install := Some (InstallInfo\<lparr>ii_state := DOWNLOADING\<rparr>)\<rparr>)))) = INSTALLING"
  by (subst progress_report) (auto simp: Let_def told_def)

subsection \<open>Install or upgrade\<close>

text \<open>
  Whether the package is upgraded or installed. The callback over the upgradable packages
  ends with true exactly when some package of the list has the requested name and, where
  a version is requested, compares below it; the order of the list does not matter.
\<close>

theorem upgrade_decision:
  "foldl (check_upgrade E info) False ps \<longleftrightarrow>
     list_ex (\<lambda>(name, version). name = pi_name info
       \<and> (pi_version info = [] \<or> pe_compare E version (pi_version info) < 0)) ps"
proof -
  let ?P = "\<lambda>p. check_upgrade E info False p"
  have t: "foldl (check_upgrade E info) True qs" for qs
    by (induction qs) (simp_all add: check_upgrade_def)
  have "foldl (check_upgrade E info) False ps \<longleftrightarrow> list_ex ?P ps"
  proof (induction ps)
    case (Cons p ps)
    then show ?case using t [of ps] by (cases "?P p") simp_all
  qed simp
  also have "?P = (\<lambda>(name, version). name = pi_name info
      \<and> (pi_version info = [] \<or> pe_compare E version (pi_version info) < 0))"
    by (auto simp: check_upgrade_def fun_eq_iff)
  finally show ?thesis .
qed

subsection \<open>Requests over HTTP\<close>

text \<open>The job a request asks for: none, a synchronisation, or the installation of a package.\<close>

definition web_job :: "web_lib \<Rightarrow> 8 word \<Rightarrow> web_request \<Rightarrow> package_info option option" where
  "web_job L skipURL rq =
     (case segments L (drop (unat skipURL) (rq_path rq)) of
        _ # current # _ \<Rightarrow>
          if \<not> (rq_verb rq = HTTP_POST \<or> rq_verb rq = HTTP_PUT) then None
          else if current = ''Install'' then
            Some (Some \<lparr>pi_name = option_value L rq ''Package'', pi_version = option_value L rq ''Version'',
              pi_arch = option_value L rq ''Architecture''\<rparr>)
          else if current = ''SynchronizeRepository'' then Some None else None
      | _ \<Rightarrow> None)"

lemma Process_job:
  "\<exists>msg. run_state (Process L E skip rq) s =
     (case web_job L skip rq of
        None \<Rightarrow> (\<lparr>rs_code = STATUS_BAD_REQUEST, rs_message = msg\<rparr>, s)
      | Some j \<Rightarrow> (\<lparr>rs_code = (if result_of (DoWork E j) s = ERROR_NONE then STATUS_OK else STATUS_BAD_REQUEST),
           rs_message = msg\<rparr>, after (DoWork E j) s))"
proof (cases "segments L (drop (unat skip) (rq_path rq))")
  case Nil
  then show ?thesis by (simp add: Process_def web_job_def Let_def)
next
  case (Cons a xs)
  then show ?thesis
    by (cases xs) (simp_all add: Process_def web_job_def Let_def split_beta Install_def SynchronizeRepository_def)
qed

lemma DoWork_refused:
  "result_of (DoWork E j) s \<noteq> ERROR_NONE \<Longrightarrow> p_Install (after (DoWork E j) s) = p_Install s
     \<and> p_isSyncing (after (DoWork E j) s) = p_isSyncing s \<and> p_thread (after (DoWork E j) s) = p_thread s"
proof (cases "busy s")
  case False
  assume "result_of (DoWork E j) s \<noteq> ERROR_NONE"
  then show ?thesis using still_fields [OF reinit_still [of s E]]
    unfolding DoWork_idle [OF False] by (auto simp: split_beta Let_def split: if_splits)
qed (simp add: DoWork_busy)

text \<open>
  What a web request does. It is answered with OK exactly when it is a POST or PUT whose
  first path segment is one of the two commands and the job has been accepted; a request
  that is not understood, one that fails and one that comes while a job is in progress are
  bad requests, and none of these changes the job or wakes the worker.
\<close>

theorem web_request_outcome:
  "(rs_code (result_of (Process L E skip rq) s) = STATUS_OK \<longleftrightarrow>
      (\<exists>j. web_job L skip rq = Some j \<and> result_of (DoWork E j) s = ERROR_NONE))
   \<and> \<not> (rs_code (result_of (Process L E skip rq) s) = STATUS_BAD_REQUEST
        \<and> (p_Install (after (Process L E skip rq) s), p_isSyncing (after (Process L E skip rq) s),
            p_thread (after (Process L E skip rq) s)) \<noteq> (p_Install s, p_isSyncing s, p_thread s))"
proof -
  obtain msg where m: "run_state (Process L E skip rq) s =
     (case web_job L skip rq of
        None \<Rightarrow> (\<lparr>rs_code = STATUS_BAD_REQUEST, rs_message = msg\<rparr>, s)
      | Some j \<Rightarrow> (\<lparr>rs_code = (if result_of (DoWork E j) s = ERROR_NONE then STATUS_OK else STATUS_BAD_REQUEST),
           rs_message = msg\<rparr>, after (DoWork E j) s))"
    using Process_job [of L E skip rq s] by blast
  show ?thesis
  proof (cases "web_job L skip rq")
    case (Some j)
    with m DoWork_refused [of E j s] show ?thesis by simp
  qed (simp add: m)
qed

text \<open>
  Both ways in lead to the same job. A web request that asks for a job does what a call of a
  JSON-RPC method does, and is answered with OK where that call succeeds.
\<close>

theorem web_request_is_method_call:
  assumes "web_job L skip rq = Some j"
  shows "\<exists>name m p. map_of (packager_methods E) name = Some m
    \<and> after (Process L E skip rq) s = after (m p) s
    \<and> (rs_code (result_of (Process L E skip rq) s) = STATUS_OK \<longleftrightarrow> result_of (m p) s = ERROR_NONE)"
proof -
  obtain msg where r: "run_state (Process L E skip rq) s =
      (\<lparr>rs_code = (if result_of (DoWork E j) s = ERROR_NONE then STATUS_OK else STATUS_BAD_REQUEST), rs_message = msg\<rparr>,
       after (DoWork E j) s)"
    using Process_job [of L E skip rq s] assms by auto
  have "\<exists>name p m. map_of (packager_methods E) name = Some m \<and> m p = DoWork E j"
  proof (cases j)
    case None
    then show ?thesis
      by (intro exI [of _ "''synchronize''"]) (simp add: packager_methods_def SynchronizeRepository_def)
  next
    case (Some info)
    obtain n v a where info: "info = \<lparr>pi_name = n, pi_version = v, pi_arch = a\<rparr>" by (cases info)
    show ?thesis
      by (rule exI [of _ "''install''"],
          rule exI [of _ "\<lparr>par_package = Some n, par_architecture = Some a, par_version = Some v\<rparr>"])
        (simp add: packager_methods_def Install_def par_value_def Some info)
  qed
  then obtain name p m where "map_of (packager_methods E) name = Some m" "m p = DoWork E j" by blast
  with r show ?thesis by (intro exI [of _ name] exI [of _ m] exI [of _ p]) simp
qed

subsection \<open>Concrete runs\<close>

definition sample_job :: package_info where
  "sample_job = \<lparr>pi_name = ''app'', pi_version = [], pi_arch = []\<rparr>"

lemma sample_installing:
  "case run_events (exec_pkg sample_pkg_env) [PE_Configure, PE_Register 1, PE_Work (Some sample_job)] sample_pkg_start of
     None \<Rightarrow> False
   | Some t \<Rightarrow> p_thread t = TH_RUNNING \<and> p_worker t = W_Head \<and> \<not> p_crashed t"
  by code_simp

lemma sample_synchronised:
  "case run_events (exec_pkg sample_pkg_env) [PE_Configure, PE_Work None, PE_Worker, PE_Worker] sample_pkg_start of
     None \<Rightarrow> False
   | Some t \<Rightarrow> p_thread t = TH_RUNNING \<and> p_worker t = W_Block
       \<and> result_of (DoWork sample_pkg_env (Some sample_job)) t = ERROR_NONE
       \<and> run_events (exec_pkg sample_pkg_env) [PE_Work (Some sample_job), PE_Worker, PE_Work None] t \<noteq> None"
  by code_simp


theorem worker_ends_its_job_witness:
  "\<exists>t k u. run_events (exec_pkg sample_pkg_env) [PE_Configure, PE_Register 1, PE_Work (Some sample_job)] sample_pkg_start = Some t
     \<and> run_events (exec_pkg sample_pkg_env) (replicate k PE_Worker) t = Some u \<and> p_Install u = None"
proof -
  obtain t where t: "run_events (exec_pkg sample_pkg_env) [PE_Configure, PE_Register 1, PE_Work (Some sample_job)] sample_pkg_start = Some t"
    and s: "p_thread t = TH_RUNNING" "p_worker t = W_Head" "\<not> p_crashed t"
    using sample_installing by (auto split: option.splits)
  from worker_ends_its_job [OF sample_pkg_initial(2,1) t s(3,1)] s(2) t show ?thesis by auto
qed

theorem late_job_is_lost_witness:
  "\<exists>s t. run_events (exec_pkg sample_pkg_env) [PE_Configure, PE_Work None, PE_Worker, PE_Worker] sample_pkg_start = Some s
     \<and> run_events (exec_pkg sample_pkg_env) [PE_Work (Some sample_job), PE_Worker, PE_Work None] s = Some t
     \<and> p_thread t = TH_BLOCKED \<and> result_of (DoWork sample_pkg_env None) t = ERROR_INPROGRESS"
proof -
  obtain s where s: "run_events (exec_pkg sample_pkg_env) [PE_Configure, PE_Work None, PE_Worker, PE_Worker] sample_pkg_start = Some s"
    and c: "p_thread s = TH_RUNNING" "p_worker s = W_Block"
      "result_of (DoWork sample_pkg_env (Some sample_job)) s = ERROR_NONE"
      "run_events (exec_pkg sample_pkg_env) [PE_Work (Some sample_job), PE_Worker, PE_Work None] s \<noteq> None"
    using sample_synchronised by (auto split: option.splits simp del: run_events.simps)
  from c(4) obtain t where t: "run_events (exec_pkg sample_pkg_env) [PE_Work (Some sample_job), PE_Worker, PE_Work None] s = Some t"
    by blast
  from late_job_is_lost [OF sample_pkg_initial(2) c(1-3) t, of None] s t show ?thesis by blast
qed

end
