(* ===== verification/PkgRefine.thy ===== *)
theory PkgRefine
  imports PkgProps
begin

text \<open>
  The Packager refines a slot for one job: what its clients are answered and when a job ends
  is a run of the slot.
\<close>

subsection \<open>The slot\<close>

datatype slot = Slot_Free | Slot_Installing package_info | Slot_Synchronising

text \<open>A job is accepted, refused because of another one, or refused because of an error; the job ends.\<close>

datatype slot_label =
  Accepted "package_info option"
| Refused "package_info option"
| Failed "package_info option"
| Ended

fun slot_step :: "slot_label \<Rightarrow> slot \<Rightarrow> slot option" where
  "slot_step (Accepted j) sl =
     (if sl \<noteq> Slot_Free then None
      else Some (case j of Some info \<Rightarrow> Slot_Installing info | None \<Rightarrow> Slot_Synchronising))"
| "slot_step (Refused j) sl = (if sl = Slot_Free then None else Some sl)"
| "slot_step (Failed j) sl = (if sl = Slot_Free then Some sl else None)"
| "slot_step Ended sl = (if sl = Slot_Free then None else Some Slot_Free)"

definition slot_of :: "pkg \<Rightarrow> slot" where
  "slot_of s = (case p_Package s of Some info \<Rightarrow> Slot_Installing info
     | None \<Rightarrow> if p_isSyncing s then Slot_Synchronising else Slot_Free)"

text \<open>What a client sees of an event: the answer to its request, or the end of the job.\<close>

definition slot_shown :: "pkg_event \<Rightarrow> pkg \<Rightarrow> pkg \<Rightarrow> slot_label list" where
  "slot_shown e s t =
     (case e of
        PE_Work j \<Rightarrow> (case p_trace t of
            Answered r # _ \<Rightarrow> [if r = ERROR_NONE then Accepted j
              else if r = ERROR_INPROGRESS then Refused j else Failed j]
          | _ \<Rightarrow> [])
      | PE_Worker \<Rightarrow> if slot_of s \<noteq> Slot_Free \<and> slot_of t = Slot_Free then [Ended] else []
      | _ \<Rightarrow> [])"

subsection \<open>The simulation\<close>

lemma slot_of_busy: "pkg_inv s \<Longrightarrow> busy s \<longleftrightarrow> slot_of s \<noteq> Slot_Free"
  by (auto simp: slot_of_def busy_def pkg_inv_def split: option.splits)

lemma slot_worker:
  assumes inv: "pkg_inv s" and run: "p_thread s = TH_RUNNING"
    and t: "t = after (worker_action E (p_worker s)) s"
  shows "slot_of t = slot_of s \<or> (slot_of s \<noteq> Slot_Free \<and> slot_of t = Slot_Free)"
proof (cases "p_worker s")
  case W_Head
  then show ?thesis by (simp add: t head_step slot_of_def)
next
  case (W_Setup b)
  from blocking_setup [of s E "if b then SETUP else FORCED"] obtain c
    where c: "setup_done s c (after (BlockingSetupLocalRepoNoLock E (if b then SETUP else FORCED)) s)"
      "c \<longrightarrow> p_isSyncing s" by blast
  show ?thesis
    using inv W_Setup c(2) setup_done_fields [OF c(1)]
    by (auto simp: t setup_step slot_of_def split: option.split)
next
  case W_Install
  with inv have there: "p_Package s \<noteq> None" "p_Install s \<noteq> None"
    by (auto simp: pkg_inv_def installing_pc_def)
  show ?thesis
    using W_Install there on_job_fields [OF blocking_install(1) [OF there, of E]]
    by (auto simp: t install_step slot_of_def)
next
  case (W_Progress ps r)
  with inv have there: "p_Package s \<noteq> None" "p_Install s \<noteq> None"
    by (auto simp: pkg_inv_def installing_pc_def)
  show ?thesis
  proof (cases ps)
    case Nil
    show ?thesis
      using W_Progress Nil there on_job_fields [OF on_jobD [OF on_job_install_returned there, of r]]
      by (auto simp: t returned_step slot_of_def)
  next
    case (Cons p rest)
    show ?thesis
      using W_Progress Cons there on_job_fields [OF on_jobD [OF on_job_InstallationProgess there, of E p]]
      by (auto simp: t progress_step slot_of_def)
  qed
next
  case W_Clear
  with inv show ?thesis
    by (auto simp: t clear_step slot_of_def pkg_inv_def installing_pc_def)
next
  case W_Block
  then show ?thesis by (simp add: t block_step slot_of_def)
qed

lemma slot_request:
  assumes inv: "pkg_inv s"
  shows "slot_step (let r = result_of (DoWork E j) s in if r = ERROR_NONE then Accepted j
      else if r = ERROR_INPROGRESS then Refused j else Failed j) (slot_of s)
    = Some (slot_of (after (DoWork E j) s))"
proof (cases "busy s")
  case True
  with slot_of_busy [OF inv] show ?thesis by (simp add: DoWork_busy)
next
  case False
  note f = still_fields [OF reinit_still [of s E]]
  have free: "slot_of s = Slot_Free" using False slot_of_busy [OF inv] by blast
  then have "p_Package s = None" "\<not> p_isSyncing s" by (auto simp: slot_of_def split: option.splits if_splits)
  with free f show ?thesis
    unfolding DoWork_idle [OF False] by (auto simp: split_beta Let_def slot_of_def split: option.split)
qed

lemma slot_others:
  "slot_of (after (Configure E) s) = slot_of s" "slot_of (after (Register n) s) = slot_of s"
  "slot_of (after (Unregister n) s) = slot_of s" "slot_of (after destroy_packager s) = slot_of s"
proof -
  have "preserves (\<lambda>u. (p_Package u, p_isSyncing u) = (p_Package s, p_isSyncing s)) (Configure E)"
    unfolding Configure_def Let_def
    by (intro pres preserves_modify) (auto simp: preserves_def)
  from preservesD [OF this, of s] show "slot_of (after (Configure E) s) = slot_of s"
    by (simp add: slot_of_def)
  show "slot_of (after (Register n) s) = slot_of s" "slot_of (after (Unregister n) s) = slot_of s"
    by (auto simp: Register_def Unregister_def slot_of_def split: option.split)
  have "still s (after FreeOPKG s)" by (rule stillD) (rule pk)
  from still_fields [OF this] show "slot_of (after destroy_packager s) = slot_of s"
    by (simp add: destroy_packager_def split_beta slot_of_def)
qed

lemma slot_trace: "slot_of (s\<lparr>p_trace := x\<rparr>) = slot_of s"
  by (simp add: slot_of_def)

lemma slot_event:
  assumes inv: "pkg_inv s" and e: "exec_pkg E e s = Some t"
  shows "run_events slot_step (slot_shown e s t) (slot_of s) = Some (slot_of t)"
proof (cases e)
  case PE_Configure
  with exec_pkgD(1) [OF e [unfolded PE_Configure]] show ?thesis by (simp add: slot_shown_def slot_others)
next
  case (PE_Register n)
  with exec_pkgD(2) [OF e [unfolded PE_Register]] show ?thesis by (simp add: slot_shown_def slot_others)
next
  case (PE_Unregister n)
  with exec_pkgD(3) [OF e [unfolded PE_Unregister]] show ?thesis by (simp add: slot_shown_def slot_others)
next
  case (PE_Work j)
  with exec_pkgD(4) [OF e [unfolded PE_Work]] slot_request [OF inv, of E j] show ?thesis
    by (simp add: slot_shown_def slot_trace Let_def split: if_splits option.splits)
next
  case PE_Worker
  with exec_pkgD(5) [OF e [unfolded PE_Worker]] slot_worker [OF inv, of t E] show ?thesis
    by (auto simp: slot_shown_def)
next
  case PE_Destroy
  with exec_pkgD(6) [OF e [unfolded PE_Destroy]] show ?thesis by (simp add: slot_shown_def slot_others)
qed

text \<open>The library's thread behaves as documented, or nothing happens.\<close>

definition sound_pkg :: "pkg_env \<Rightarrow> pkg_event \<Rightarrow> pkg \<Rightarrow> pkg option" where
  "sound_pkg E e s = (if thread_lib_ok (pe_thread E) then exec_pkg E e s else None)"

lemma sound_pkg_same: "thread_lib_ok (pe_thread E) \<Longrightarrow> sound_pkg E = exec_pkg E"
  by (simp add: sound_pkg_def fun_eq_iff)

interpretation sl: refinement pkg_initial "sound_pkg E" pkg_inv slot_step slot_of slot_shown for E
proof
  show "pkg_inv s" if "pkg_initial s" for s using inv_initial [OF that] by simp
  show "pkg_inv t" if "pkg_inv s" "sound_pkg E e s = Some t" for s e t
    using that pkg_event_inv [of E s e t] by (auto simp: sound_pkg_def split: if_splits)
  show "run_events slot_step (slot_shown e s t) (slot_of s) = Some (slot_of t)"
    if "pkg_inv s" "sound_pkg E e s = Some t" for s e t
    using that slot_event by (auto simp: sound_pkg_def split: if_splits)
qed

subsection \<open>Every accepted job ends once\<close>

definition accepted :: "slot_label list \<Rightarrow> nat" where
  "accepted ls = length (filter (\<lambda>l. case l of Accepted j \<Rightarrow> True | _ \<Rightarrow> False) ls)"

lemma slot_balance:
  "run_events slot_step ls sl = Some sl' \<Longrightarrow>
     accepted ls + (if sl = Slot_Free then 0 else 1) = count_list ls Ended + (if sl' = Slot_Free then 0 else 1)"
proof (induction ls arbitrary: sl)
  case Nil
  then show ?case by (simp add: accepted_def)
next
  case (Cons l ls)
  then obtain u where u: "slot_step l sl = Some u" "run_events slot_step ls u = Some sl'"
    by (auto split: option.splits)
  from Cons.IH [OF u(2)] u(1) show ?case
    by (cases l) (auto simp: accepted_def split: if_splits option.splits)
qed

text \<open>
  C18: To its clients the Packager is a slot for one job. In every run the answers to the requests
  and the ends of the jobs are a run of the slot: a request is accepted only when no job is
  there, refused as in progress exactly when one is, and fails with another error only when none
  is; the job in the slot is the one accepted last; and every accepted job ends once, except for
  the one that is still there.
\<close>

theorem packager_is_one_slot:
  assumes "thread_lib_ok (pe_thread E)" and "pkg_initial s" and "run_events (exec_pkg E) es s = Some t"
  shows "(let ls = shown_run (exec_pkg E) slot_shown es s
    in run_events slot_step ls Slot_Free = Some (slot_of t)
     \<and> accepted ls = count_list ls Ended + (if slot_of t = Slot_Free then 0 else 1))"
proof -
  have "slot_of s = Slot_Free"
    using assms(2) by (auto simp: pkg_initial_def PackagerImplementation_def slot_of_def)
  with sl.refines [of s E es t] assms have
    "run_events slot_step (shown_run (exec_pkg E) slot_shown es s) Slot_Free = Some (slot_of t)"
    by (simp add: sound_pkg_same)
  with slot_balance [OF this] show ?thesis by (simp add: Let_def)
qed

lemma sample_slot_run:
  "case run_events (exec_pkg sample_pkg_env) ([PE_Configure, PE_Work (Some sample_job), PE_Work None] @ replicate 7 PE_Worker) sample_pkg_start of
     None \<Rightarrow> False | Some t \<Rightarrow> slot_of t = Slot_Free"
  "shown_run (exec_pkg sample_pkg_env) slot_shown
     ([PE_Configure, PE_Work (Some sample_job), PE_Work None] @ replicate 7 PE_Worker) sample_pkg_start
   = [Accepted (Some sample_job), Refused None, Ended]"
  by code_simp+

theorem packager_is_one_slot_witness:
  "run_events slot_step [Accepted (Some sample_job), Refused None, Ended] Slot_Free = Some Slot_Free"
proof -
  obtain t where t: "run_events (exec_pkg sample_pkg_env)
      ([PE_Configure, PE_Work (Some sample_job), PE_Work None] @ replicate 7 PE_Worker) sample_pkg_start = Some t"
    and "slot_of t = Slot_Free"
    using sample_slot_run(1) by (auto split: option.splits)
  with packager_is_one_slot [OF sample_pkg_initial(2,1) t] show ?thesis
    unfolding sample_slot_run(2) by (simp add: Let_def)
qed

end
