(* ===== verification/JsonValues.thy ===== *)
theory JsonValues
  imports CxxStrings
begin

text \<open>
  The values of the JSON library that the helpers handle, and the macros of
  \<open>helpers/UtilsJsonRpc.h\<close> that read parameters of a request. The text of a value
  (\<open>Variant::String\<close>) is a parameter. In a macro, a number goes to a variable of 32 bits.
\<close>

datatype json = JNull | JNumber int | JBool bool | JString string | JArray "json list"
  | JObject "(string \<times> json) list"

type_synonym json_map = "(string \<times> json) list"

definition json_has :: "json_map \<Rightarrow> string \<Rightarrow> bool" where
  "json_has m k \<longleftrightarrow> map_of m k \<noteq> None"

definition json_get :: "json_map \<Rightarrow> string \<Rightarrow> json" where
  "json_get m k = (case map_of m k of Some v \<Rightarrow> v | None \<Rightarrow> JNull)"

definition json_array :: "json \<Rightarrow> json list" where
  "json_array j = (case j of JArray xs \<Rightarrow> xs | _ \<Rightarrow> [])"

definition json_object :: "json \<Rightarrow> json_map" where
  "json_object j = (case j of JObject m \<Rightarrow> m | _ \<Rightarrow> [])"

definition is_number :: "json \<Rightarrow> bool" where
  "is_number j = (case j of JNumber _ \<Rightarrow> True | _ \<Rightarrow> False)"

text \<open>\<open>getNumberParameter\<close>, before the value goes to an \<open>int\<close> or an \<open>unsigned int\<close>.\<close>

definition number_or_text :: "(json \<Rightarrow> string) \<Rightarrow> json_map \<Rightarrow> string \<Rightarrow> int" where
  "number_or_text txt m k =
     (case json_get m k of
        JNumber n \<Rightarrow> n
      | j \<Rightarrow> (case stoi (txt j) of Some i \<Rightarrow> i | None \<Rightarrow> 0))"

definition int_parameter :: "(json \<Rightarrow> string) \<Rightarrow> json_map \<Rightarrow> string \<Rightarrow> int" where
  "int_parameter txt m k = sint (word_of_int (number_or_text txt m k) :: 32 word)"

definition uint_parameter :: "(json \<Rightarrow> string) \<Rightarrow> json_map \<Rightarrow> string \<Rightarrow> 32 word" where
  "uint_parameter txt m k = word_of_int (number_or_text txt m k)"

definition getBoolParameter :: "(json \<Rightarrow> string) \<Rightarrow> json_map \<Rightarrow> string \<Rightarrow> bool" where
  "getBoolParameter txt m k =
     (case json_get m k of JBool b \<Rightarrow> b | j \<Rightarrow> txt j = ''true'' \<or> txt j = ''1'')"

text \<open>\<open>getStringParameter\<close> leaves the variable alone where the value is not a string.\<close>

definition getStringParameter :: "(json \<Rightarrow> string) \<Rightarrow> json_map \<Rightarrow> string \<Rightarrow> string \<Rightarrow> string" where
  "getStringParameter txt m k var = (case json_get m k of JString s \<Rightarrow> txt (JString s) | _ \<Rightarrow> var)"

text \<open>The macros with a default.\<close>

definition getDefaultNumberParameter :: "(json \<Rightarrow> string) \<Rightarrow> json_map \<Rightarrow> string \<Rightarrow> int \<Rightarrow> int" where
  "getDefaultNumberParameter txt m k d =
     (if json_has m k
      then (case json_get m k of
              JNumber n \<Rightarrow> sint (word_of_int n :: 32 word)
            | j \<Rightarrow> (case stoi (txt j) of Some i \<Rightarrow> i | None \<Rightarrow> d))
      else d)"

definition getDefaultStringParameter :: "(json \<Rightarrow> string) \<Rightarrow> json_map \<Rightarrow> string \<Rightarrow> string \<Rightarrow> string" where
  "getDefaultStringParameter txt m k d =
     (if json_has m k then (case json_get m k of JString s \<Rightarrow> txt (JString s) | _ \<Rightarrow> d) else d)"

definition getDefaultBoolParameter :: "(json \<Rightarrow> string) \<Rightarrow> json_map \<Rightarrow> string \<Rightarrow> bool \<Rightarrow> bool" where
  "getDefaultBoolParameter txt m k d = (if json_has m k then getBoolParameter txt m k else d)"

text \<open>
  The macros that end a method whose parameter is missing or of another type: whether the
  method goes on.
\<close>

definition param_found :: "json_map \<Rightarrow> string \<Rightarrow> bool" where
  "param_found m k = json_has m k"

definition string_param_found :: "json_map \<Rightarrow> string \<Rightarrow> bool" where
  "string_param_found m k = (json_has m k \<and> (case json_get m k of JString _ \<Rightarrow> True | _ \<Rightarrow> False))"

definition bool_param_found :: "json_map \<Rightarrow> string \<Rightarrow> bool" where
  "bool_param_found m k = (json_has m k \<and> (case json_get m k of JBool _ \<Rightarrow> True | _ \<Rightarrow> False))"

definition number_param_found :: "json_map \<Rightarrow> string \<Rightarrow> bool" where
  "number_param_found m k = (json_has m k \<and> is_number (json_get m k))"

text \<open>
  Parameters of a request. A number of 32 bits is read as it is, a larger one modulo
  2 to the 32; a text is read as a number where it is one that fits, else as zero; and a
  parameter that is not there gives the default where there is one.
\<close>

theorem parameters_read:
  "int_parameter txt [(k, JNumber n)] k = signed_take_bit 31 n
   \<and> uint_parameter txt [(k, JNumber n)] k = word_of_int n
   \<and> int_parameter txt [(k, JString s)] k = (case stoi (txt (JString s)) of Some i \<Rightarrow> i | None \<Rightarrow> 0)
   \<and> getDefaultNumberParameter txt [] k d = d \<and> getDefaultStringParameter txt [] k v = v
   \<and> getDefaultBoolParameter txt [] k b = b"
proof -
  have "sint (word_of_int i :: 32 word) = i" if "stoi t = Some i" for t i
    using that by (auto simp: stoi_def signed_of_int signed_take_bit_int_eq_self split: option.splits if_splits)
  then show ?thesis
    by (simp add: int_parameter_def uint_parameter_def number_or_text_def json_get_def signed_of_int
      getDefaultNumberParameter_def getDefaultStringParameter_def getDefaultBoolParameter_def json_has_def
      split: option.split)
qed

end
