(* ===== verification/FrontPanel.thy ===== *)
theory FrontPanel
  imports JsonValues
begin

text \<open>
  \<open>helpers/frontpanel.cpp\<close> and \<open>.h\<close>: the class \<open>CFrontPanel\<close>, which sets the lights of the
  front panel and blinks them with a timer. Its static variables and its members are the
  record \<open>fp\<close>. The device library, the power manager and the JSON library are the
  parameter \<open>fp_env\<close>: a call of the device library is written to a trace, newest first, with
  whether it returned or threw, and is answered by a function of the number of calls so far.
  The build has the device library (\<open>USE_DS\<close>); \<open>CLOCK_BRIGHTNESS_ENABLED\<close> is a parameter.
\<close>

unbundle bit_operations_syntax

subsection \<open>The environment\<close>

text \<open>
  The device library: whether its \<open>n\<close>th call throws, the brightness and the indicators it
  then answers. \<open>fe_text\<close> is the text of a JSON value, \<open>fe_power_on\<close> whether the power manager is
  there and reports the state on, \<open>fe_store\<close> and \<open>fe_load\<close> writing and reading the file of
  preferences.
\<close>

record 'f fp_env =
  fe_throws :: "nat \<Rightarrow> bool"
  fe_brightness :: "nat \<Rightarrow> int"
  fe_indicators :: "nat \<Rightarrow> string list"
  fe_format24 :: "nat \<Rightarrow> bool"
  fe_text :: "json \<Rightarrow> string"
  fe_power_on :: bool
  fe_clock :: bool
  fe_store :: "json_map \<Rightarrow> 'f \<Rightarrow> 'f"
  fe_load :: "'f \<Rightarrow> json_map"

definition rgb :: "32 word \<Rightarrow> 32 word \<Rightarrow> 32 word \<Rightarrow> 32 word" where
  "rgb red green blue = push_bit 16 red OR push_bit 8 green OR blue"

subsection \<open>State\<close>

datatype indicator = INDICATOR_CLOCK | INDICATOR_MESSAGE | INDICATOR_POWER | INDICATOR_RECORD
  | INDICATOR_REMOTE | INDICATOR_RFBYPASS | INDICATOR_ALL

text \<open>A call of the device library; an optional flag is the argument that says whether to store the value.\<close>

datatype dev_call = GetIndicators | GetBrightness string | SetBrightness string int "bool option"
  | SetState string bool | SetColorValue string "32 word" "bool option"
  | SetColorName string string "bool option" | GetTextBrightness | SetTextBrightness int
  | GetTimeFormat | SetTimeFormat bool

record blink_info =
  bi_led :: string
  bi_color_name :: string
  bi_color_value :: "32 word"
  bi_brightness :: int
  bi_duration :: int
  bi_color_mode :: int

record fp =
  globalLedBrightness :: int
  clockBrightness :: int
  initDone :: bool
  isMessageLedOn :: bool
  isRecordLedOn :: bool
  isClockOn :: bool
  powerStatus :: bool
  started :: bool
  m_numberOfBlinks :: int
  m_maxNumberOfBlinkRepeats :: int
  m_currentBlinkListIndex :: int
  m_lights :: "string list"
  fpIndicators :: "string list"
  m_preferencesHash :: json_map
  m_isBlinking :: bool
  m_blinkList :: "blink_info list"
  observers :: "nat list"
  blinkTimer :: "int list"
  fp_calls :: "(dev_call \<times> bool) list"
  fp_escaped :: bool

text \<open>
  \<open>blinkTimer\<close> holds the delays of what is scheduled. \<open>fp_escaped\<close> marks an exception that
  leaves the timer's thread. The static variables before the first use:
\<close>

definition fp_start :: fp where
  "fp_start = \<lparr>globalLedBrightness = 100, clockBrightness = 100, initDone = False,
     isMessageLedOn = False, isRecordLedOn = False, isClockOn = False, powerStatus = False,
     started = False, m_numberOfBlinks = 0, m_maxNumberOfBlinkRepeats = 0,
     m_currentBlinkListIndex = 0, m_lights = [], fpIndicators = [], m_preferencesHash = [],
     m_isBlinking = False, m_blinkList = [], observers = [], blinkTimer = [],
     fp_calls = [], fp_escaped = False\<rparr>"

subsection \<open>Calls of the device library\<close>

text \<open>A call returns (\<open>True\<close>) or throws (\<open>False\<close>); \<open>also_then\<close> goes on only after a return.\<close>

definition dev :: "'f fp_env \<Rightarrow> dev_call \<Rightarrow> (fp, bool) state" where
  "dev E c = State (\<lambda>s. let ok = (\<not> fe_throws E (length (fp_calls s)))
                      in (ok, s\<lparr>fp_calls := (c, ok) # fp_calls s\<rparr>))"

definition dev_answer :: "(nat \<Rightarrow> 'a) \<Rightarrow> (fp, 'a) state" where
  "dev_answer f = gets (\<lambda>s. f (length (fp_calls s) - 1))"

definition also_then :: "(fp, bool) state \<Rightarrow> (fp, bool) state \<Rightarrow> (fp, bool) state" where
  "also_then m n = do { ok \<leftarrow> m; if ok then n else ret False }"

definition done_ok :: "(fp \<Rightarrow> fp) \<Rightarrow> (fp, bool) state" where
  "done_ok f = do { modify f; ret True }"

fun each_light :: "(string \<Rightarrow> (fp, bool) state) \<Rightarrow> string list \<Rightarrow> (fp, bool) state" where
  "each_light f [] = ret True"
| "each_light f (n # ns) = also_then (f n) (each_light f ns)"

text \<open>The value that a getter returns goes to the state, where it returned.\<close>

definition dev_get :: "'f fp_env \<Rightarrow> dev_call \<Rightarrow> (nat \<Rightarrow> 'a) \<Rightarrow> ('a \<Rightarrow> fp \<Rightarrow> fp) \<Rightarrow> (fp, bool) state" where
  "dev_get E c answer store = do {
     ok \<leftarrow> dev E c;
     v \<leftarrow> dev_answer answer;
     whenM ok (modify (store v));
     ret ok
   }"

definition svc2iarm :: "string \<Rightarrow> string" where
  "svc2iarm name =
     (case map_of [(''record_led'', ''Record''), (''data_led'', ''Message''), (''power_led'', ''Power'')] name of
        Some n \<Rightarrow> n | None \<Rightarrow> name)"

definition add_light :: "string \<Rightarrow> fp \<Rightarrow> fp" where
  "add_light n s = (if n \<in> set (m_lights s) then s else s\<lparr>m_lights := m_lights s @ [n]\<rparr>)"

subsection \<open>Initialisation\<close>

definition init_lights :: "'f fp_env \<Rightarrow> (fp, bool) state" where
  "init_lights E =
     also_then (dev_get E GetIndicators (fe_indicators E) (\<lambda>v s. fold add_light v (s\<lparr>fpIndicators := v\<rparr>)))
    (also_then (done_ok (\<lambda>s. if fe_power_on E then s\<lparr>powerStatus := True\<rparr> else s))
    (also_then (if fe_clock E
       then also_then (dev_get E GetTextBrightness (fe_brightness E) (\<lambda>v s. s\<lparr>clockBrightness := v\<rparr>))
              (do { b \<leftarrow> gets clockBrightness; dev E (SetTextBrightness b) })
       else ret True)
    (also_then (dev_get E (GetBrightness ''Power'') (fe_brightness E) (\<lambda>v s. s\<lparr>globalLedBrightness := v\<rparr>))
    (do {
       ls \<leftarrow> gets fpIndicators;
       b \<leftarrow> gets globalLedBrightness;
       on \<leftarrow> gets powerStatus;
       also_then (each_light (\<lambda>n. also_then (if on then dev E (SetBrightness n b None) else ret True)
                                            (dev E (SetState n False))) ls)
         (if on then dev E (SetState ''Power'' True) else ret True)
     }))))"

definition instance_of :: "'f fp_env \<Rightarrow> (fp, unit) state" where
  "instance_of E = do {
     d \<leftarrow> gets initDone;
     if d then ret ()
     else do { ok \<leftarrow> init_lights E; modify (\<lambda>s. s\<lparr>initDone := True\<rparr>) }
   }"

definition start :: "'f fp_env \<Rightarrow> (fp, bool) state" where
  "start E = do {
     on \<leftarrow> gets powerStatus;
     ok \<leftarrow> also_then (if on then dev E (SetState ''Power'' True) else ret True)
            (dev_get E GetIndicators (fe_indicators E) (\<lambda>v. fold add_light v));
     modify (\<lambda>s. if started s then s
       else s\<lparr>m_numberOfBlinks := 0, m_maxNumberOfBlinkRepeats := 0, m_currentBlinkListIndex := 0, started := True\<rparr>);
     ret True
   }"

subsection \<open>The lights\<close>

definition stopBlinkTimer :: "(fp, unit) state" where
  "stopBlinkTimer = modify (\<lambda>s. s\<lparr>m_isBlinking := False, blinkTimer := []\<rparr>)"

definition stop :: "(fp, bool) state" where
  "stop = do { stopBlinkTimer; ret True }"

definition setPowerStatus :: "bool \<Rightarrow> (fp, unit) state" where
  "setPowerStatus b = modify (\<lambda>s. s\<lparr>powerStatus := b\<rparr>)"

definition addEventObserver :: "nat \<Rightarrow> (fp, unit) state" where
  "addEventObserver n = modify (\<lambda>s. if n \<in> set (observers s) then s else s\<lparr>observers := observers s @ [n]\<rparr>)"

definition removeEventObserver :: "nat \<Rightarrow> (fp, unit) state" where
  "removeEventObserver n = modify (\<lambda>s. s\<lparr>observers := filter (\<lambda>m. m \<noteq> n) (observers s)\<rparr>)"

definition power_on_calls :: "'f fp_env \<Rightarrow> indicator \<Rightarrow> (fp, bool) state" where
  "power_on_calls E i =
     (case i of
        INDICATOR_CLOCK \<Rightarrow>
          (if fe_clock E
           then do { modify (\<lambda>s. s\<lparr>isClockOn := True\<rparr>); b \<leftarrow> gets clockBrightness; dev E (SetTextBrightness b) }
           else ret True)
      | INDICATOR_MESSAGE \<Rightarrow> do { modify (\<lambda>s. s\<lparr>isMessageLedOn := True\<rparr>); dev E (SetState ''Message'' True) }
      | INDICATOR_RECORD \<Rightarrow> do { modify (\<lambda>s. s\<lparr>isRecordLedOn := True\<rparr>); dev E (SetState ''Record'' True) }
      | INDICATOR_REMOTE \<Rightarrow> dev E (SetState ''Remote'' True)
      | INDICATOR_RFBYPASS \<Rightarrow> dev E (SetState ''RfByPass'' True)
      | INDICATOR_ALL \<Rightarrow> do {
          msg \<leftarrow> gets isMessageLedOn;
          rec \<leftarrow> gets isRecordLedOn;
          also_then (if msg then dev E (SetState ''Message'' True) else ret True)
         (also_then (if rec then dev E (SetState ''Record'' True) else ret True)
                    (dev E (SetState ''Power'' True))) }
      | INDICATOR_POWER \<Rightarrow> dev E (SetState ''Power'' True))"

definition powerOnLed :: "'f fp_env \<Rightarrow> indicator \<Rightarrow> (fp, bool) state" where
  "powerOnLed E i = do {
     stopBlinkTimer;
     on \<leftarrow> gets powerStatus;
     if on then power_on_calls E i else ret True
   }"

definition power_off_calls :: "'f fp_env \<Rightarrow> indicator \<Rightarrow> (fp, bool) state" where
  "power_off_calls E i =
     (case i of
        INDICATOR_CLOCK \<Rightarrow>
          (if fe_clock E
           then do { modify (\<lambda>s. s\<lparr>isClockOn := False\<rparr>); dev E (SetTextBrightness 0) }
           else ret True)
      | INDICATOR_MESSAGE \<Rightarrow> do { modify (\<lambda>s. s\<lparr>isMessageLedOn := False\<rparr>); dev E (SetState ''Message'' False) }
      | INDICATOR_RECORD \<Rightarrow> do { modify (\<lambda>s. s\<lparr>isRecordLedOn := False\<rparr>); dev E (SetState ''Record'' False) }
      | INDICATOR_REMOTE \<Rightarrow> dev E (SetState ''Remote'' False)
      | INDICATOR_RFBYPASS \<Rightarrow> dev E (SetState ''RfByPass'' False)
      | INDICATOR_ALL \<Rightarrow> do { ls \<leftarrow> gets fpIndicators; each_light (\<lambda>n. dev E (SetState n False)) ls }
      | INDICATOR_POWER \<Rightarrow> dev E (SetState ''Power'' False))"

definition powerOffLed :: "'f fp_env \<Rightarrow> indicator \<Rightarrow> (fp, bool) state" where
  "powerOffLed E i = do { stopBlinkTimer; power_off_calls E i }"

definition powerOffAllLed :: "'f fp_env \<Rightarrow> (fp, bool) state" where
  "powerOffAllLed E = do { r \<leftarrow> powerOffLed E INDICATOR_ALL; ret True }"

definition powerOnAllLed :: "'f fp_env \<Rightarrow> (fp, bool) state" where
  "powerOnAllLed E = do { r \<leftarrow> powerOnLed E INDICATOR_ALL; ret True }"

definition setBrightness :: "'f fp_env \<Rightarrow> int \<Rightarrow> (fp, bool) state" where
  "setBrightness E b = do {
     stopBlinkTimer;
     modify (\<lambda>s. s\<lparr>globalLedBrightness := b\<rparr>);
     ls \<leftarrow> gets fpIndicators;
     ok \<leftarrow> each_light (\<lambda>n. dev E (SetBrightness n b None)) ls;
     r \<leftarrow> powerOnLed E INDICATOR_ALL;
     ret True
   }"

definition getBrightness :: "'f fp_env \<Rightarrow> (fp, int) state" where
  "getBrightness E = do {
     ok \<leftarrow> dev_get E (GetBrightness ''Power'') (fe_brightness E) (\<lambda>v s. s\<lparr>globalLedBrightness := v\<rparr>);
     gets globalLedBrightness
   }"

definition setClockBrightness :: "'f fp_env \<Rightarrow> int \<Rightarrow> (fp, bool) state" where
  "setClockBrightness E b = do {
     modify (\<lambda>s. s\<lparr>clockBrightness := b\<rparr>);
     r \<leftarrow> powerOnLed E INDICATOR_CLOCK;
     ret True
   }"

definition getClockBrightness :: "'f fp_env \<Rightarrow> (fp, int) state" where
  "getClockBrightness E = do {
     ok \<leftarrow> dev_get E GetTextBrightness (fe_brightness E) (\<lambda>v s. s\<lparr>clockBrightness := v\<rparr>);
     gets clockBrightness
   }"

text \<open>The end of \<open>setLED\<close> and of \<open>setBlinkLed\<close>: the brightness given, the present one where it is -1.\<close>

definition show_brightness :: "'f fp_env \<Rightarrow> string \<Rightarrow> int \<Rightarrow> (fp, bool) state" where
  "show_brightness E led b =
     (if b = - 1
      then do {
        ok \<leftarrow> dev E (GetBrightness led);
        v \<leftarrow> dev_answer (fe_brightness E);
        if ok then dev E (SetBrightness led v (Some False)) else ret False }
      else dev E (SetBrightness led b (Some False)))"

definition set_led_calls :: "'f fp_env \<Rightarrow> json_map \<Rightarrow> (fp, bool) state" where
  "set_led_calls E p = do {
     let led = svc2iarm (fe_text E (json_get p ''ledIndicator''));
     let brightness = (if json_has p ''brightness'' then int_parameter (fe_text E) p ''brightness'' else - 1);
     success \<leftarrow>
       (if json_has p ''color'' then dev E (SetColorName led (fe_text E (json_get p ''color'')) (Some False))
        else if json_has p ''red''
        then dev E (SetColorValue led (rgb (uint_parameter (fe_text E) p ''red'') (uint_parameter (fe_text E) p ''green'')
                                           (uint_parameter (fe_text E) p ''blue'')) None)
        else ret False);
     show_brightness E led brightness
   }"

definition setLED :: "'f fp_env \<Rightarrow> json_map \<Rightarrow> (fp, bool) state" where
  "setLED E p = do { stopBlinkTimer; set_led_calls E p }"

subsection \<open>Blinking\<close>

definition setBlinkLed :: "'f fp_env \<Rightarrow> blink_info \<Rightarrow> (fp, unit) state" where
  "setBlinkLed E b = do {
     ok \<leftarrow> (if bi_color_mode b = 1 then dev E (SetColorValue (bi_led b) (bi_color_value b) (Some False))
           else if bi_color_mode b = 2 then dev E (SetColorName (bi_led b) (bi_color_name b) (Some False))
           else ret True);
     ok \<leftarrow> show_brightness E (bi_led b) (bi_brightness b);
     ret ()
   }"

text \<open>An element of the list by its index, where \<open>at\<close> does not throw.\<close>

definition blink_at :: "fp \<Rightarrow> blink_info option" where
  "blink_at s = (if 0 \<le> m_currentBlinkListIndex s \<and> nat (m_currentBlinkListIndex s) < length (m_blinkList s)
                 then Some (m_blinkList s ! nat (m_currentBlinkListIndex s)) else None)"

text \<open>Show a step of the pattern, and schedule the next one for when it has lasted long enough.\<close>

definition show_and_schedule :: "'f fp_env \<Rightarrow> (fp, unit) state" where
  "show_and_schedule E = do {
     info \<leftarrow> gets blink_at;
     case info of
       None \<Rightarrow> modify (\<lambda>s. s\<lparr>fp_escaped := True\<rparr>)
     | Some b \<Rightarrow> do {
         setBlinkLed E b;
         modify (\<lambda>s. if m_isBlinking s then s\<lparr>blinkTimer := blinkTimer s @ [bi_duration b]\<rparr> else s) }
   }"

definition startBlinkTimer :: "'f fp_env \<Rightarrow> int \<Rightarrow> (fp, unit) state" where
  "startBlinkTimer E repeats = do {
     stopBlinkTimer;
     modify (\<lambda>s. s\<lparr>m_numberOfBlinks := 0, m_isBlinking := True, m_maxNumberOfBlinkRepeats := repeats,
                   m_currentBlinkListIndex := 0\<rparr>);
     some \<leftarrow> gets (\<lambda>s. m_blinkList s \<noteq> []);
     whenM some (show_and_schedule E)
   }"

definition blink_info_of :: "'f fp_env \<Rightarrow> string \<Rightarrow> json_map \<Rightarrow> blink_info" where
  "blink_info_of E led h =
     \<lparr>bi_led = led,
      bi_color_name = (if json_has h ''color'' then fe_text E (json_get h ''color'') else []),
      bi_color_value =
        (if json_has h ''color'' then 0
         else if json_has h ''red'' then rgb (uint_parameter (fe_text E) h ''red'') (uint_parameter (fe_text E) h ''green'')
                                             (uint_parameter (fe_text E) h ''blue'')
         else 0),
      bi_brightness = (if json_has h ''brightness'' then int_parameter (fe_text E) h ''brightness'' else - 1),
      bi_duration = int_parameter (fe_text E) h ''duration'',
      bi_color_mode = (if json_has h ''color'' then 2 else if json_has h ''red'' then 1 else 0)\<rparr>"

definition blink_list_of :: "'f fp_env \<Rightarrow> json_map \<Rightarrow> blink_info list" where
  "blink_list_of E p =
     map (\<lambda>j. blink_info_of E (svc2iarm (fe_text E (json_get p ''ledIndicator''))) (json_object j))
       (json_array (json_get p ''pattern''))"

definition setBlink :: "'f fp_env \<Rightarrow> json_map \<Rightarrow> (fp, unit) state" where
  "setBlink E p = do {
     stopBlinkTimer;
     modify (\<lambda>s. s\<lparr>m_blinkList := blink_list_of E p\<rparr>);
     startBlinkTimer E (int_parameter (fe_text E) p ''iterations'')
   }"

text \<open>\<open>BlinkInfo::Timed\<close>, which the timer calls, only calls \<open>onBlinkTimer\<close>.\<close>

definition onBlinkTimer :: "'f fp_env \<Rightarrow> (fp, unit) state" where
  "onBlinkTimer E = do {
     modify (\<lambda>s. s\<lparr>m_currentBlinkListIndex := m_currentBlinkListIndex s + 1\<rparr>);
     past \<leftarrow> gets (\<lambda>s. int (length (m_blinkList s)) \<le> m_currentBlinkListIndex s);
     blinkAgain \<leftarrow>
       (if past then do {
          modify (\<lambda>s. s\<lparr>m_currentBlinkListIndex := 0, m_numberOfBlinks := m_numberOfBlinks s + 1\<rparr>);
          gets (\<lambda>s. m_maxNumberOfBlinkRepeats s < 0 \<or> m_numberOfBlinks s \<le> m_maxNumberOfBlinkRepeats s) }
        else ret True);
     whenM blinkAgain (show_and_schedule E)
   }"

subsection \<open>Preferences and the clock\<close>

definition setPreferences :: "'f fp_env \<Rightarrow> json_map \<Rightarrow> 'f \<Rightarrow> fp \<Rightarrow> 'f \<times> fp" where
  "setPreferences E p file s = (fe_store E p file, s\<lparr>m_preferencesHash := p\<rparr>)"

definition loadPreferences :: "'f fp_env \<Rightarrow> 'f \<Rightarrow> fp \<Rightarrow> fp" where
  "loadPreferences E file s = s\<lparr>m_preferencesHash := fe_load E file\<rparr>"

definition getPreferences :: "fp \<Rightarrow> json_map" where
  "getPreferences s = m_preferencesHash s"

definition set24HourClock :: "'f fp_env \<Rightarrow> bool \<Rightarrow> (fp, bool) state" where
  "set24HourClock E b =
     also_then (dev E GetTimeFormat) (also_then (dev E (SetTimeFormat b)) (dev E GetTimeFormat))"

definition is24HourClock :: "'f fp_env \<Rightarrow> (fp, bool) state" where
  "is24HourClock E = do {
     ok \<leftarrow> dev E GetTimeFormat;
     v \<leftarrow> dev_answer (fe_format24 E);
     ret (ok \<and> v)
   }"

subsection \<open>The events of the front panel\<close>

datatype fp_event = F_Instance | F_Start | F_Stop | F_Power bool | F_SetBrightness int | F_GetBrightness
  | F_SetClock int | F_GetClock | F_On indicator | F_Off indicator | F_OffAll | F_OnAll
  | F_LED json_map | F_Blink json_map | F_Timer | F_24 bool | F_Is24 | F_Add nat | F_Remove nat

text \<open>The timer fires only what is scheduled.\<close>

fun fp_op :: "'f fp_env \<Rightarrow> fp_event \<Rightarrow> (fp, unit) state" where
  "fp_op E F_Instance = instance_of E"
| "fp_op E F_Start = do { start E; ret () }"
| "fp_op E F_Stop = do { stop; ret () }"
| "fp_op E (F_Power b) = setPowerStatus b"
| "fp_op E (F_SetBrightness b) = do { setBrightness E b; ret () }"
| "fp_op E F_GetBrightness = do { getBrightness E; ret () }"
| "fp_op E (F_SetClock b) = do { setClockBrightness E b; ret () }"
| "fp_op E F_GetClock = do { getClockBrightness E; ret () }"
| "fp_op E (F_On i) = do { powerOnLed E i; ret () }"
| "fp_op E (F_Off i) = do { powerOffLed E i; ret () }"
| "fp_op E F_OffAll = do { powerOffAllLed E; ret () }"
| "fp_op E F_OnAll = do { powerOnAllLed E; ret () }"
| "fp_op E (F_LED p) = do { setLED E p; ret () }"
| "fp_op E (F_Blink p) = setBlink E p"
| "fp_op E F_Timer = do { modify (\<lambda>s. s\<lparr>blinkTimer := tl (blinkTimer s)\<rparr>); onBlinkTimer E }"
| "fp_op E (F_24 b) = do { set24HourClock E b; ret () }"
| "fp_op E F_Is24 = do { is24HourClock E; ret () }"
| "fp_op E (F_Add n) = addEventObserver n"
| "fp_op E (F_Remove n) = removeEventObserver n"

definition fp_step :: "'f fp_env \<Rightarrow> fp_event \<Rightarrow> fp \<Rightarrow> fp option" where
  "fp_step E e s = (if e = F_Timer \<and> blinkTimer s = [] then None else Some (after (fp_op E e) s))"

end
