(* ===== verification/FrontProps.thy ===== *)
theory FrontProps
  imports FrontPanel
begin

text \<open>
  Properties of the front panel: which lights are set when, the run of a blink pattern, and
  that the timer never reads past the pattern.
\<close>

subsection \<open>What a device call changes\<close>

lemma run_also_then [simp]:
  "run_state (also_then m n) s = (if result_of m s then run_state n (after m s) else (False, after m s))"
  by (simp add: also_then_def split: prod.split)

lemma run_done_ok [simp]: "run_state (done_ok f) s = (True, f s)"
  by (simp add: done_ok_def)

lemma run_dev [simp]:
  "run_state (dev E c) s = (\<not> fe_throws E (length (fp_calls s)),
     s\<lparr>fp_calls := (c, \<not> fe_throws E (length (fp_calls s))) # fp_calls s\<rparr>)"
  by (simp add: dev_def Let_def)

lemma run_dev_answer [simp]: "run_state (dev_answer f) s = (f (length (fp_calls s) - 1), s)"
  by (simp add: dev_answer_def)

lemma preserves_also_then [pres]: "preserves I m \<Longrightarrow> preserves I n \<Longrightarrow> preserves I (also_then m n)"
  by (simp add: preserves_def)

lemma preserves_each_light [pres]: "(\<And>n. preserves I (f n)) \<Longrightarrow> preserves I (each_light f ns)"
  by (induction ns) (auto intro: pres)

lemma preserves_done_ok: "(\<And>s. I s \<Longrightarrow> I (f s)) \<Longrightarrow> preserves I (done_ok f)"
  by (simp add: preserves_def)

lemma preserves_case_indicator [pres]:
  "preserves I a \<Longrightarrow> preserves I b \<Longrightarrow> preserves I c \<Longrightarrow> preserves I d \<Longrightarrow> preserves I e
   \<Longrightarrow> preserves I f \<Longrightarrow> preserves I g
   \<Longrightarrow> preserves I (case i of INDICATOR_CLOCK \<Rightarrow> a | INDICATOR_MESSAGE \<Rightarrow> b | INDICATOR_POWER \<Rightarrow> c
      | INDICATOR_RECORD \<Rightarrow> d | INDICATOR_REMOTE \<Rightarrow> e | INDICATOR_RFBYPASS \<Rightarrow> f | INDICATOR_ALL \<Rightarrow> g)"
  by (cases i) auto

subsection \<open>The timer\<close>

text \<open>
  At most one step of a pattern is scheduled; while one is, the panel is blinking and the
  index is inside the pattern, so that \<open>at\<close> does not throw in the timer's thread.
\<close>

definition blink_inv :: "fp \<Rightarrow> bool" where
  "blink_inv s \<longleftrightarrow> length (blinkTimer s) \<le> 1 \<and> \<not> fp_escaped s
     \<and> (blinkTimer s \<noteq> [] \<longrightarrow> m_isBlinking s \<and> blink_at s \<noteq> None)"

text \<open>The rest of the state does not matter to the timer.\<close>

definition blink_part :: "fp \<Rightarrow> int list \<times> bool \<times> bool \<times> int \<times> blink_info list" where
  "blink_part s = (blinkTimer s, fp_escaped s, m_isBlinking s, m_currentBlinkListIndex s, m_blinkList s)"

lemma blink_inv_part: "blink_part s = blink_part t \<Longrightarrow> blink_inv s = blink_inv t"
  by (simp add: blink_inv_def blink_part_def blink_at_def)

lemma blink_part_update [simp]:
  "blink_part (s\<lparr>fp_calls := c\<rparr>) = blink_part s"
  "blink_part (s\<lparr>globalLedBrightness := i\<rparr>) = blink_part s"
  "blink_part (s\<lparr>clockBrightness := i\<rparr>) = blink_part s"
  "blink_part (s\<lparr>isMessageLedOn := b\<rparr>) = blink_part s"
  "blink_part (s\<lparr>isRecordLedOn := b\<rparr>) = blink_part s"
  "blink_part (s\<lparr>isClockOn := b\<rparr>) = blink_part s"
  "blink_part (s\<lparr>powerStatus := b\<rparr>) = blink_part s"
  "blink_part (s\<lparr>initDone := b\<rparr>) = blink_part s"
  "blink_part (s\<lparr>m_lights := l\<rparr>) = blink_part s"
  "blink_part (s\<lparr>fpIndicators := l\<rparr>) = blink_part s"
  "blink_part (s\<lparr>observers := o'\<rparr>) = blink_part s"
  by (simp_all add: blink_part_def)

lemma blink_inv_frame:
  assumes "\<And>s. blink_part (f s) = blink_part s"
  shows "preserves blink_inv (modify f)"
  by (rule preserves_modify) (use blink_inv_part [OF assms] in blast)

lemma blink_part_add_lights [simp]: "blink_part (fold add_light v s) = blink_part s"
  by (induction v arbitrary: s) (auto simp: add_light_def)

lemma blink_inv_dev [pres]: "preserves blink_inv (dev E c)"
  by (rule preservesI) (simp add: blink_inv_part [of "_\<lparr>fp_calls := _\<rparr>"])

lemma blink_inv_dev_get [pres]:
  assumes "\<And>v s. blink_part (f v s) = blink_part s"
  shows "preserves blink_inv (dev_get E c a f)"
  unfolding dev_get_def dev_answer_def by (intro pres blink_inv_frame assms)

lemma blink_inv_done_ok [pres]:
  assumes "\<And>s. blink_part (f s) = blink_part s"
  shows "preserves blink_inv (done_ok f)"
  unfolding done_ok_def by (intro pres blink_inv_frame assms)

lemma blink_inv_stop [pres]: "preserves blink_inv stopBlinkTimer"
  unfolding stopBlinkTimer_def by (rule preserves_modify) (simp add: blink_inv_def)

lemma blink_inv_show [pres]: "preserves blink_inv (show_brightness E l b)"
  unfolding show_brightness_def dev_answer_def by (intro pres)

lemma blink_inv_power [pres]: "preserves blink_inv (power_on_calls E i)" "preserves blink_inv (power_off_calls E i)"
  unfolding power_on_calls_def power_off_calls_def by (intro pres blink_inv_frame; simp)+

lemma blink_inv_ops [pres]:
  "preserves blink_inv (powerOnLed E i)" "preserves blink_inv (powerOffLed E i)"
  unfolding powerOnLed_def powerOffLed_def by (intro pres)+

text \<open>Showing a step of the pattern changes only the trace; the trace is this function of the earlier one.\<close>

definition frame_calls :: "'f fp_env \<Rightarrow> blink_info \<Rightarrow> (dev_call \<times> bool) list \<Rightarrow> (dev_call \<times> bool) list" where
  "frame_calls E b cs = fp_calls (after (setBlinkLed E b) (fp_start\<lparr>fp_calls := cs\<rparr>))"

lemma run_setBlinkLed [simp]: "run_state (setBlinkLed E b) s = ((), s\<lparr>fp_calls := frame_calls E b (fp_calls s)\<rparr>)"
  by (simp add: frame_calls_def setBlinkLed_def show_brightness_def split: prod.split)

lemma after_show_and_schedule:
  "after (show_and_schedule E) s =
     (case blink_at s of None \<Rightarrow> s\<lparr>fp_escaped := True\<rparr>
      | Some b \<Rightarrow> s\<lparr>fp_calls := frame_calls E b (fp_calls s),
                    blinkTimer := (if m_isBlinking s then blinkTimer s @ [bi_duration b] else blinkTimer s)\<rparr>)"
  by (cases "blink_at s") (auto simp: show_and_schedule_def)

lemma blink_inv_startBlinkTimer:
  "\<not> fp_escaped s \<Longrightarrow> blink_inv (after (startBlinkTimer E n) s)"
  by (auto simp: startBlinkTimer_def stopBlinkTimer_def after_show_and_schedule blink_at_def blink_inv_def)

lemma blink_inv_setBlink [pres]: "preserves blink_inv (setBlink E p)"
proof (rule preservesI)
  fix s assume "blink_inv s"
  then have "\<not> fp_escaped (s\<lparr>m_isBlinking := False, blinkTimer := [], m_blinkList := blink_list_of E p\<rparr>)"
    by (simp add: blink_inv_def)
  from blink_inv_startBlinkTimer [OF this] show "blink_inv (after (setBlink E p) s)"
    by (simp add: setBlink_def stopBlinkTimer_def)
qed

lemma blink_inv_init [pres]: "preserves blink_inv (init_lights E)"
  unfolding init_lights_def by (intro pres; simp)

lemma blink_inv_instance [pres]: "preserves blink_inv (instance_of E)"
  unfolding instance_of_def by (intro pres blink_inv_frame; simp)

lemma blink_inv_started [pres]: "preserves blink_inv (start E)"
proof -
  have "preserves blink_inv (modify (\<lambda>s. if started s then s
      else s\<lparr>m_numberOfBlinks := 0, m_maxNumberOfBlinkRepeats := 0, m_currentBlinkListIndex := 0, started := True\<rparr>))"
    by (rule preserves_modify) (auto simp: blink_inv_def blink_at_def split: if_splits)
  then show ?thesis unfolding start_def by (intro pres; simp)
qed

lemma blink_inv_others [pres]:
  "preserves blink_inv stop" "preserves blink_inv (setPowerStatus b)"
  "preserves blink_inv (addEventObserver n)" "preserves blink_inv (removeEventObserver n)"
  "preserves blink_inv (setBrightness E i)" "preserves blink_inv (getBrightness E)"
  "preserves blink_inv (setClockBrightness E i)" "preserves blink_inv (getClockBrightness E)"
  "preserves blink_inv (powerOffAllLed E)" "preserves blink_inv (powerOnAllLed E)"
  "preserves blink_inv (setLED E p)" "preserves blink_inv (set24HourClock E b)"
  "preserves blink_inv (is24HourClock E)"
  unfolding stop_def setPowerStatus_def addEventObserver_def removeEventObserver_def setBrightness_def
    getBrightness_def setClockBrightness_def getClockBrightness_def powerOffAllLed_def powerOnAllLed_def
    setLED_def set_led_calls_def set24HourClock_def is24HourClock_def dev_answer_def
  by (intro pres blink_inv_frame; simp)+

lemma blink_inv_timer:
  assumes "blink_inv s" and "blinkTimer s \<noteq> []"
  shows "blink_inv (after (fp_op E F_Timer) s)"
proof -
  have t: "tl (blinkTimer s) = []" using assms by (cases "blinkTimer s") (auto simp: blink_inv_def)
  have i: "0 \<le> m_currentBlinkListIndex s" "m_blinkList s \<noteq> []" "m_isBlinking s" "\<not> fp_escaped s"
    using assms by (auto simp: blink_inv_def blink_at_def split: if_splits)
  then show ?thesis
    by (auto simp: onBlinkTimer_def t after_show_and_schedule blink_at_def blink_inv_def)
qed

lemma blink_inv_step:
  assumes "blink_inv s" and "fp_step E e s = Some t"
  shows "blink_inv t"
proof (cases "e = F_Timer")
  case True
  with assms blink_inv_timer [OF assms(1), of E] show ?thesis by (auto simp: fp_step_def split: if_splits)
next
  case False
  then have "preserves blink_inv (fp_op E e)" by (cases e; simp; intro pres)
  with assms False show ?thesis by (auto simp: fp_step_def dest: preservesD)
qed

interpretation fpl: transition_system "\<lambda>s. s = fp_start" "fp_step E" blink_inv for E :: "'f fp_env"
proof
  show "blink_inv s" if "s = fp_start" for s using that by (simp add: blink_inv_def fp_start_def)
qed (rule blink_inv_step)

text \<open>An environment for the examples: no call throws, and every brightness is 50.\<close>

definition sample_fp :: "unit fp_env" where
  "sample_fp = \<lparr>fe_throws = (\<lambda>n. False), fe_brightness = (\<lambda>n. 50), fe_indicators = (\<lambda>n. [''Power'', ''Message'']),
     fe_format24 = (\<lambda>n. True), fe_text = (\<lambda>j. case j of JString s \<Rightarrow> s | _ \<Rightarrow> []), fe_power_on = True,
     fe_clock = False, fe_store = (\<lambda>p f. f), fe_load = (\<lambda>f. [])\<rparr>"

text \<open>A pattern of two steps, once and again.\<close>

definition sample_blink :: json_map where
  "sample_blink = [(''ledIndicator'', JString ''power_led''), (''iterations'', JNumber 1),
     (''pattern'', JArray [JObject [(''brightness'', JNumber 10), (''duration'', JNumber 100)],
                           JObject [(''brightness'', JNumber 90), (''duration'', JNumber 200)]])]"

text \<open>
  Whatever is asked of the front panel and whenever the timer fires, its handler never reads
  past the blink pattern, and never are two steps of a pattern scheduled at a time.
\<close>

theorem blink_timer_in_range:
  assumes "run_events (fp_step E) es fp_start = Some s"
  shows "\<not> fp_escaped s \<and> length (blinkTimer s) \<le> 1"
  using fpl.reached_invariant [OF refl assms] by (simp add: blink_inv_def)

subsection \<open>The run of a blink pattern\<close>

text \<open>The state after the request and \<open>k\<close> firings of the timer, while the pattern runs.\<close>

definition blink_state :: "'f fp_env \<Rightarrow> blink_info list \<Rightarrow> int \<Rightarrow> fp \<Rightarrow> nat \<Rightarrow> fp" where
  "blink_state E bl n s k = s\<lparr>m_blinkList := bl, m_isBlinking := True, m_maxNumberOfBlinkRepeats := n,
     m_currentBlinkListIndex := int (k mod length bl), m_numberOfBlinks := int (k div length bl),
     blinkTimer := [bi_duration (bl ! (k mod length bl))],
     fp_calls := fold (frame_calls E) (map (\<lambda>i. bl ! (i mod length bl)) [0..<Suc k]) (fp_calls s)\<rparr>"

lemma setBlink_state:
  assumes "blink_list_of E p = bl" and "bl \<noteq> []"
  shows "after (setBlink E p) s = blink_state E bl (int_parameter (fe_text E) p ''iterations'') s 0"
  using assms
  by (simp add: setBlink_def startBlinkTimer_def stopBlinkTimer_def after_show_and_schedule blink_at_def blink_state_def)

text \<open>The last step has been shown when the pattern has run once more than it is to be repeated.\<close>

definition pattern_runs :: "blink_info list \<Rightarrow> int \<Rightarrow> nat \<Rightarrow> bool" where
  "pattern_runs bl n k \<longleftrightarrow> n < 0 \<or> int k < (n + 1) * int (length bl)"

lemma blink_state_step:
  assumes "bl \<noteq> []"
  shows "after (fp_op E F_Timer) (blink_state E bl n s k) =
    (if pattern_runs bl n (Suc k) \<or> Suc k mod length bl \<noteq> 0 then blink_state E bl n s (Suc k)
     else (blink_state E bl n s k)\<lparr>blinkTimer := [], m_currentBlinkListIndex := 0,
            m_numberOfBlinks := m_numberOfBlinks (blink_state E bl n s k) + 1\<rparr>)"
proof -
  let ?L = "length bl"
  have L: "0 < ?L" using assms by simp
  show ?thesis
  proof (cases "Suc (k mod ?L) = ?L")
    case False
    then have m: "Suc k mod ?L = Suc (k mod ?L)" and d: "Suc k div ?L = k div ?L"
      by (simp_all add: mod_Suc div_Suc)
    have "Suc (k mod ?L) < ?L" using False L mod_less_divisor [OF L, of k] by linarith
    with m d show ?thesis
      by (simp add: blink_state_def onBlinkTimer_def after_show_and_schedule blink_at_def nat_add_distrib)
  next
    case True
    then have m: "Suc k mod ?L = 0" and d: "Suc k div ?L = Suc (k div ?L)"
      by (simp_all add: mod_Suc div_Suc)
    from m have "int (Suc k) = int (Suc k div ?L) * int ?L"
      by (metis mult.commute mult_div_mod_eq add.right_neutral of_nat_mult)
    then have "int (Suc k) < (n + 1) * int ?L \<longleftrightarrow> int (Suc (k div ?L)) < n + 1"
      using L by (simp only: d) simp
    then have "pattern_runs bl n (Suc k) \<longleftrightarrow> n < 0 \<or> int (k div ?L) + 1 \<le> n"
      by (simp add: pattern_runs_def) linarith
    with True m d L show ?thesis
      by (simp add: blink_state_def onBlinkTimer_def after_show_and_schedule blink_at_def)
  qed
qed

lemma cycle_concat: "map (\<lambda>i. xs ! (i mod length xs)) [0..<m * length xs] = concat (replicate m xs)"
proof (induction m)
  case (Suc m)
  have "[0..<m * length xs + length xs] = [0..<m * length xs] @ [m * length xs..<m * length xs + length xs]"
    by (rule upt_add_eq_append) simp
  also have "[m * length xs..<m * length xs + length xs] = map (\<lambda>i. i + m * length xs) [0..<length xs]"
    by (simp only: map_add_upt add_0 add.commute)
  finally have split: "[0..<Suc m * length xs] = [0..<m * length xs] @ map (\<lambda>i. i + m * length xs) [0..<length xs]"
    by (simp add: add.commute)
  have last: "map (\<lambda>i. xs ! ((i + m * length xs) mod length xs)) [0..<length xs] = xs"
    by (rule nth_equalityI) auto
  have "concat (replicate (Suc m) xs) = concat (replicate m xs) @ xs"
    by (simp flip: replicate_append_same)
  with Suc last show ?case unfolding split map_append map_map comp_def by (simp only:)
qed simp

lemma replicate_Suc_end: "replicate (Suc k) x = replicate k x @ [x]"
  by (simp add: replicate_append_same)

lemma blink_run:
  assumes "bl \<noteq> []" and "pattern_runs bl n k"
  shows "run_events (fp_step E) (replicate k F_Timer) (blink_state E bl n s 0) = Some (blink_state E bl n s k)"
  using assms(2)
proof (induction k)
  case (Suc k)
  then have "pattern_runs bl n k" by (auto simp: pattern_runs_def)
  note IH = Suc.IH [OF this]
  have "fp_step E F_Timer (blink_state E bl n s k) = Some (blink_state E bl n s (Suc k))"
    using blink_state_step [OF assms(1), of E n s k] Suc.prems by (simp add: fp_step_def blink_state_def)
  then show ?case unfolding replicate_Suc_end by (simp add: run_events_then [OF IH])
qed simp

text \<open>
  C28: A blink pattern. After a request with a pattern that is not empty, each firing of the timer
  shows the next step of the pattern, from the first to the last and around again, and
  schedules the next firing for when the step has lasted its duration; so for ever where the
  number of repetitions is negative. Otherwise the pattern runs once more than it is to be
  repeated; then the timer fires a last time, shows nothing, and is not scheduled again: the
  light stays on the last step.
\<close>

theorem blink_pattern_shown:
  assumes "blink_list_of E p = bl" and "bl \<noteq> []" and "int_parameter (fe_text E) p ''iterations'' = n"
  shows "(pattern_runs bl n k \<longrightarrow>
      (\<exists>t. run_events (fp_step E) (F_Blink p # replicate k F_Timer) s = Some t
         \<and> blinkTimer t = [bi_duration (bl ! (k mod length bl))]
         \<and> fp_calls t = fold (frame_calls E) (map (\<lambda>i. bl ! (i mod length bl)) [0..<Suc k]) (fp_calls s)))
    \<and> (0 \<le> n \<and> int k = (n + 1) * int (length bl) \<longrightarrow>
      (\<exists>t. run_events (fp_step E) (F_Blink p # replicate k F_Timer) s = Some t
         \<and> fp_step E F_Timer t = None
         \<and> fp_calls t = fold (frame_calls E) (concat (replicate (Suc (nat n)) bl)) (fp_calls s)))"
proof (intro conjI impI)
  have first: "fp_step E (F_Blink p) s = Some (blink_state E bl n s 0)"
    using setBlink_state [OF assms(1,2)] assms(3) by (simp add: fp_step_def)
  note step = run_events_step [of "fp_step E", OF first]
  show "\<exists>t. run_events (fp_step E) (F_Blink p # replicate k F_Timer) s = Some t
         \<and> blinkTimer t = [bi_duration (bl ! (k mod length bl))]
         \<and> fp_calls t = fold (frame_calls E) (map (\<lambda>i. bl ! (i mod length bl)) [0..<Suc k]) (fp_calls s)"
    if "pattern_runs bl n k"
  proof (intro exI conjI)
    show "run_events (fp_step E) (F_Blink p # replicate k F_Timer) s = Some (blink_state E bl n s k)"
      unfolding step by (rule blink_run [OF assms(2) that])
  qed (simp_all add: blink_state_def)
  assume end_: "0 \<le> n \<and> int k = (n + 1) * int (length bl)"
  then have "0 < int k" using assms(2) by simp
  then obtain j where k: "k = Suc j" by (cases k) auto
  with end_ have j: "pattern_runs bl n j" "\<not> pattern_runs bl n (Suc j)" by (auto simp: pattern_runs_def)
  have "int k = int (Suc (nat n) * length bl)" using end_ by (simp add: algebra_simps)
  then have nk: "k = Suc (nat n) * length bl" by (simp only: of_nat_eq_iff)
  then have "Suc j mod length bl = 0" using k by simp
  with blink_state_step [OF assms(2), of E n s j] j
  have "fp_step E F_Timer (blink_state E bl n s j) = Some ((blink_state E bl n s j)\<lparr>blinkTimer := [],
      m_currentBlinkListIndex := 0, m_numberOfBlinks := m_numberOfBlinks (blink_state E bl n s j) + 1\<rparr>)"
    by (simp add: fp_step_def blink_state_def)
  then have "run_events (fp_step E) (F_Blink p # replicate k F_Timer) s = Some ((blink_state E bl n s j)\<lparr>blinkTimer := [],
      m_currentBlinkListIndex := 0, m_numberOfBlinks := m_numberOfBlinks (blink_state E bl n s j) + 1\<rparr>)"
    unfolding step k replicate_Suc_end run_events_then [OF blink_run [OF assms(2) j(1)]] by simp
  moreover have "fp_calls (blink_state E bl n s j) = fold (frame_calls E) (map (\<lambda>i. bl ! (i mod length bl)) [0..<Suc j]) (fp_calls s)"
    by (simp add: blink_state_def)
  moreover have "map (\<lambda>i. bl ! (i mod length bl)) [0..<Suc j] = concat (replicate (Suc (nat n)) bl)"
    unfolding k [symmetric] nk by (rule cycle_concat)
  ultimately show "\<exists>t. run_events (fp_step E) (F_Blink p # replicate k F_Timer) s = Some t
         \<and> fp_step E F_Timer t = None
         \<and> fp_calls t = fold (frame_calls E) (concat (replicate (Suc (nat n)) bl)) (fp_calls s)"
    by (auto simp: fp_step_def simp del: upt_Suc replicate_Suc)
qed

lemma sample_blink_list: "blink_list_of sample_fp sample_blink =
    [\<lparr>bi_led = ''Power'', bi_color_name = [], bi_color_value = 0, bi_brightness = 10, bi_duration = 100, bi_color_mode = 0\<rparr>,
     \<lparr>bi_led = ''Power'', bi_color_name = [], bi_color_value = 0, bi_brightness = 90, bi_duration = 200, bi_color_mode = 0\<rparr>]"
  by (simp add: blink_list_of_def blink_info_of_def sample_blink_def sample_fp_def json_get_def json_array_def
    json_object_def json_has_def svc2iarm_def int_parameter_def number_or_text_def)

lemma sample_blink_iterations: "int_parameter (fe_text sample_fp) sample_blink ''iterations'' = 1"
  by (simp add: int_parameter_def number_or_text_def sample_blink_def json_get_def)

lemma three_mod: "3 mod Suc (Suc 0) = Suc 0"
  by presburger

theorem blink_pattern_shown_witness:
  "(\<exists>t. run_events (fp_step sample_fp) (F_Blink sample_blink # replicate 3 F_Timer) fp_start = Some t
      \<and> blinkTimer t = [200])
   \<and> (\<exists>t. run_events (fp_step sample_fp) (F_Blink sample_blink # replicate 4 F_Timer) fp_start = Some t
      \<and> fp_step sample_fp F_Timer t = None)"
  using blink_pattern_shown [OF sample_blink_list _ sample_blink_iterations, of 3 fp_start]
    blink_pattern_shown [OF sample_blink_list _ sample_blink_iterations, of 4 fp_start]
  by (auto simp: pattern_runs_def three_mod)

theorem blink_timer_in_range_witness:
  "\<exists>s. run_events (fp_step sample_fp) [F_Blink sample_blink, F_Power True, F_Timer] fp_start = Some s
     \<and> \<not> fp_escaped s \<and> length (blinkTimer s) \<le> 1"
proof -
  have "fp_step sample_fp (F_Blink sample_blink) fp_start =
      Some (blink_state sample_fp (blink_list_of sample_fp sample_blink) 1 fp_start 0)"
    using setBlink_state [OF refl, of sample_fp sample_blink fp_start]
    by (simp add: fp_step_def sample_blink_list sample_blink_iterations)
  then obtain s where "run_events (fp_step sample_fp) [F_Blink sample_blink, F_Power True, F_Timer] fp_start = Some s"
    by (simp add: fp_step_def blink_state_def setPowerStatus_def)
  with blink_timer_in_range [OF this] show ?thesis by blast
qed

subsection \<open>Lights and power\<close>

fun lights_up :: "dev_call \<Rightarrow> bool" where
  "lights_up (SetState n b) = b"
| "lights_up _ = False"

text \<open>No light is switched on without power; the power status is off.\<close>

definition dark :: "fp \<Rightarrow> bool" where
  "dark s \<longleftrightarrow> \<not> powerStatus s \<and> list_all (\<lambda>c. \<not> lights_up (fst c)) (fp_calls s)"

lemma dark_dev [pres]: "\<not> lights_up c \<Longrightarrow> preserves dark (dev E c)"
  by (rule preservesI) (simp add: dark_def)

lemma dark_frame: "(\<And>s. dark s \<Longrightarrow> dark (f s)) \<Longrightarrow> preserves dark (modify f)"
  by (rule preserves_modify)

lemma dark_dev_get [pres]:
  assumes "\<And>v s. powerStatus (f v s) = powerStatus s" and "\<And>v s. fp_calls (f v s) = fp_calls s" and "\<not> lights_up c"
  shows "preserves dark (dev_get E c a f)"
  unfolding dev_get_def dev_answer_def by (intro pres preserves_modify) (simp_all add: dark_def assms)

lemma dark_answer [pres]: "preserves dark (dev_answer f)"
  unfolding dev_answer_def by (intro pres)

text \<open>With the power off, a test of the power status takes the other branch.\<close>

lemma dark_power [pres]: "preserves dark (n False) \<Longrightarrow> preserves dark (do { on \<leftarrow> gets powerStatus; n on })"
  by (simp add: preserves_def dark_def)

lemma fold_add_light_keeps [simp]:
  "powerStatus (fold add_light v s) = powerStatus s" "fp_calls (fold add_light v s) = fp_calls s"
  by (induction v arbitrary: s) (auto simp: add_light_def)

lemma dark_stop [pres]: "preserves dark stopBlinkTimer"
  unfolding stopBlinkTimer_def by (rule preserves_modify) (simp add: dark_def)

lemma dark_show_brightness [pres]: "preserves dark (show_brightness E l b)"
  unfolding show_brightness_def by (intro pres) simp_all

lemma dark_setBlinkLed [pres]: "preserves dark (setBlinkLed E b)"
  unfolding setBlinkLed_def by (intro pres) simp_all

lemma dark_show_and_schedule [pres]: "preserves dark (show_and_schedule E)"
  unfolding show_and_schedule_def by (intro pres preserves_modify) (simp_all add: dark_def)

lemma dark_power_off [pres]: "preserves dark (powerOffLed E i)"
  unfolding powerOffLed_def power_off_calls_def by (intro pres preserves_modify) (simp_all add: dark_def)

lemma dark_power_on [pres]: "preserves dark (powerOnLed E i)"
  unfolding powerOnLed_def by (intro pres) simp

lemma dark_init: "\<not> fe_power_on E \<Longrightarrow> preserves dark (init_lights E)"
  unfolding init_lights_def done_ok_def by (intro pres preserves_modify) (simp_all add: dark_def)

lemma dark_instance: "\<not> fe_power_on E \<Longrightarrow> preserves dark (instance_of E)"
  unfolding instance_of_def by (intro pres preserves_modify dark_init) (simp_all add: dark_def)

lemma dark_ops [pres]:
  "preserves dark (start E)" "preserves dark stop"
  "preserves dark (addEventObserver n)" "preserves dark (removeEventObserver n)"
  "preserves dark (setBrightness E i)" "preserves dark (getBrightness E)"
  "preserves dark (setClockBrightness E i)" "preserves dark (getClockBrightness E)"
  "preserves dark (powerOffAllLed E)" "preserves dark (powerOnAllLed E)"
  "preserves dark (setLED E p)" "preserves dark (set24HourClock E b)"
  "preserves dark (is24HourClock E)" "preserves dark (setBlink E p)" "preserves dark (onBlinkTimer E)"
  unfolding start_def stop_def addEventObserver_def removeEventObserver_def setBrightness_def
    getBrightness_def setClockBrightness_def getClockBrightness_def powerOffAllLed_def powerOnAllLed_def
    setLED_def set_led_calls_def set24HourClock_def is24HourClock_def setBlink_def startBlinkTimer_def onBlinkTimer_def
  by ((intro pres preserves_modify; simp add: dark_def)+)

lemma dark_step:
  assumes "\<not> fe_power_on E" and "e \<noteq> F_Power True" and "dark s" and "fp_step E e s = Some t"
  shows "dark t"
proof -
  have "preserves dark (fp_op E e)"
  proof (cases e)
    case (F_Power b)
    with assms(2) show ?thesis by (auto simp: setPowerStatus_def dark_def intro: preserves_modify)
  next
    case F_Timer
    then show ?thesis by simp (intro pres preserves_modify; simp add: dark_def)
  qed (use assms(1) in \<open>simp_all, (intro pres dark_instance; simp)+\<close>)
  with assms(3,4) show ?thesis by (auto simp: fp_step_def preserves_def split: if_splits)
qed



text \<open>
  The result of \<open>setLED\<close>. With a brightness in the request it is whether the last call, which sets the
  brightness, returned; so a colour that could not be set is reported as success.
\<close>

theorem setLED_reports_brightness_only:
  assumes "json_has p ''brightness''" and "int_parameter (fe_text E) p ''brightness'' \<noteq> - 1" and "json_has p ''color''"
  shows "run_state (setLED E p) s =
    (let led = svc2iarm (fe_text E (json_get p ''ledIndicator'')); n = length (fp_calls s)
     in (\<not> fe_throws E (Suc n),
         s\<lparr>m_isBlinking := False, blinkTimer := [],
           fp_calls := (SetBrightness led (int_parameter (fe_text E) p ''brightness'') (Some False), \<not> fe_throws E (Suc n))
             # (SetColorName led (fe_text E (json_get p ''color'')) (Some False), \<not> fe_throws E n) # fp_calls s\<rparr>))"
  using assms by (simp add: setLED_def set_led_calls_def stopBlinkTimer_def show_brightness_def Let_def)

theorem setLED_reports_brightness_only_witness:
  "result_of (setLED (sample_fp\<lparr>fe_throws := (\<lambda>n. n = 0)\<rparr>)
     [(''ledIndicator'', JString ''power_led''), (''color'', JString ''blue''), (''brightness'', JNumber 7)]) fp_start"
  by (subst setLED_reports_brightness_only)
    (simp_all add: json_has_def int_parameter_def number_or_text_def json_get_def Let_def fp_start_def)

text \<open>
  A colour from its parts. The bytes of the colour are the parts where these are bytes; a green
  of 256 and more changes the red byte.
\<close>

theorem rgb_bytes:
  "drop_bit 16 (rgb (take_bit 8 r) (take_bit 8 g) (take_bit 8 b)) = take_bit 8 r
   \<and> take_bit 8 (drop_bit 8 (rgb (take_bit 8 r) (take_bit 8 g) (take_bit 8 b))) = take_bit 8 g
   \<and> take_bit 8 (rgb (take_bit 8 r) (take_bit 8 g) (take_bit 8 b)) = take_bit 8 b
   \<and> rgb 0 256 0 = rgb 1 0 0"
proof (intro conjI)
  show "rgb 0 256 0 = rgb 1 0 0" by (simp add: rgb_def)
qed (rule bit_word_eqI, auto simp: rgb_def bit_simps)+

end
