(* ===== verification/FrontThreads.thy ===== *)
theory FrontThreads
  imports FrontProps
begin

text \<open>
  The front panel with its two threads. \<open>FrontPanel\<close> takes a request and a firing of the timer as
  one step each; here the thread of the timer, in which \<open>onBlinkTimer\<close> runs, and the thread that
  calls the methods of \<open>CFrontPanel\<close> share the members without a lock, as in the source. A step
  is a test or a write of a member that both use, or a group of calls of the device library. The
  steps can be interleaved in every order; a read or write of one member is not torn. The
  callers themselves are taken one after the other.
\<close>

subsection \<open>Revoking a timer\<close>

text \<open>
  \<open>stopBlinkTimer\<close> relies on \<open>Core::TimerType::Revoke\<close> of the framework, which takes what is
  scheduled out of the timer. How it treats a callback that runs at that moment is a parameter: it
  returns at once, it returns when the callback has ended, or it waits for the end of the callback
  and then takes out what is scheduled.
\<close>

datatype revoke_kind = Removes | Removes_then_waits | Waits_then_removes

subsection \<open>The threads\<close>

text \<open>
  The thread of the timer: outside of a callback, at the beginning of one, before it shows a step of
  the pattern (\<open>at\<close>), before it tests \<open>m_isBlinking\<close>, and before it schedules the next firing.
\<close>

datatype timer_point = B_Idle | B_Called | B_Show | B_Check int | B_Insert int

text \<open>
  What a caller still has to do. \<open>P_Calls\<close> is the rest of a request, after the stop of the timer.
\<close>

datatype panel_op = P_NotBlinking | P_Remove | P_Wait | P_WaitRemove | P_Clear | P_Push blink_info
  | P_Reset int | P_First | P_Schedule int | P_Brightness int | P_Calls fp_event

record fp_threads =
  ft_panel :: fp
  ft_timer :: timer_point
  ft_program :: "panel_op list"

definition ft_start :: fp_threads where
  "ft_start = \<lparr>ft_panel = fp_start, ft_timer = B_Idle, ft_program = []\<rparr>"

definition stop_ops :: "revoke_kind \<Rightarrow> panel_op list" where
  "stop_ops K = P_NotBlinking #
     (case K of Removes \<Rightarrow> [P_Remove] | Removes_then_waits \<Rightarrow> [P_Remove, P_Wait]
      | Waits_then_removes \<Rightarrow> [P_WaitRemove])"

definition start_ops :: "revoke_kind \<Rightarrow> int \<Rightarrow> panel_op list" where
  "start_ops K repeats = stop_ops K @ [P_Reset repeats, P_First]"

definition blink_ops :: "'f fp_env \<Rightarrow> revoke_kind \<Rightarrow> json_map \<Rightarrow> panel_op list" where
  "blink_ops E K p = stop_ops K @ P_Clear # map P_Push (blink_list_of E p)
     @ start_ops K (int_parameter (fe_text E) p ''iterations'')"

text \<open>The methods by the steps of the members they share with the timer.\<close>

fun program_of :: "'f fp_env \<Rightarrow> revoke_kind \<Rightarrow> fp_event \<Rightarrow> panel_op list" where
  "program_of E K F_Stop = stop_ops K"
| "program_of E K (F_SetBrightness b) = stop_ops K @ P_Brightness b # stop_ops K @ [P_Calls (F_On INDICATOR_ALL)]"
| "program_of E K (F_SetClock b) = P_Calls (F_SetClock b) # stop_ops K @ [P_Calls (F_On INDICATOR_CLOCK)]"
| "program_of E K (F_On i) = stop_ops K @ [P_Calls (F_On i)]"
| "program_of E K (F_Off i) = stop_ops K @ [P_Calls (F_Off i)]"
| "program_of E K F_OffAll = stop_ops K @ [P_Calls (F_Off INDICATOR_ALL)]"
| "program_of E K F_OnAll = stop_ops K @ [P_Calls (F_On INDICATOR_ALL)]"
| "program_of E K (F_LED p) = stop_ops K @ [P_Calls (F_LED p)]"
| "program_of E K (F_Blink p) = blink_ops E K p"
| "program_of E K e = [P_Calls e]"

fun panel_calls :: "'f fp_env \<Rightarrow> fp_event \<Rightarrow> (fp, unit) state" where
  "panel_calls E (F_On i) = do { on \<leftarrow> gets powerStatus; r \<leftarrow> (if on then power_on_calls E i else ret True); ret () }"
| "panel_calls E (F_Off i) = do { r \<leftarrow> power_off_calls E i; ret () }"
| "panel_calls E (F_LED p) = do { r \<leftarrow> set_led_calls E p; ret () }"
| "panel_calls E (F_SetClock b) = modify (\<lambda>s. s\<lparr>clockBrightness := b\<rparr>)"
| "panel_calls E e = fp_op E e"

definition panel_write :: "(fp \<Rightarrow> fp) \<Rightarrow> fp_threads \<Rightarrow> fp_threads" where
  "panel_write f t = t\<lparr>ft_panel := f (ft_panel t)\<rparr>"

text \<open>A step of the caller; \<open>None\<close> where it has to wait.\<close>

fun panel_step :: "'f fp_env \<Rightarrow> panel_op \<Rightarrow> fp_threads \<Rightarrow> fp_threads option" where
  "panel_step E P_NotBlinking t = Some (panel_write (\<lambda>s. s\<lparr>m_isBlinking := False\<rparr>) t)"
| "panel_step E P_Remove t = Some (panel_write (\<lambda>s. s\<lparr>blinkTimer := []\<rparr>) t)"
| "panel_step E P_Wait t = (if ft_timer t = B_Idle then Some t else None)"
| "panel_step E P_WaitRemove t =
     (if ft_timer t = B_Idle then Some (panel_write (\<lambda>s. s\<lparr>blinkTimer := []\<rparr>) t) else None)"
| "panel_step E P_Clear t = Some (panel_write (\<lambda>s. s\<lparr>m_blinkList := []\<rparr>) t)"
| "panel_step E (P_Push b) t = Some (panel_write (\<lambda>s. s\<lparr>m_blinkList := m_blinkList s @ [b]\<rparr>) t)"
| "panel_step E (P_Reset n) t = Some (panel_write (\<lambda>s. s\<lparr>m_numberOfBlinks := 0, m_isBlinking := True,
     m_maxNumberOfBlinkRepeats := n, m_currentBlinkListIndex := 0\<rparr>) t)"
| "panel_step E P_First t =
     (case m_blinkList (ft_panel t) of [] \<Rightarrow> Some t
      | b # bs \<Rightarrow> Some (panel_write (after (setBlinkLed E b)) (t\<lparr>ft_program := P_Schedule (bi_duration b) # ft_program t\<rparr>)))"
| "panel_step E (P_Schedule d) t =
     Some (panel_write (\<lambda>s. if m_isBlinking s then s\<lparr>blinkTimer := blinkTimer s @ [d]\<rparr> else s) t)"
| "panel_step E (P_Brightness b) t =
     Some (panel_write (\<lambda>s. after (each_light (\<lambda>n. dev E (SetBrightness n b None)) (fpIndicators s)) (s\<lparr>globalLedBrightness := b\<rparr>)) t)"
| "panel_step E (P_Calls e) t = Some (panel_write (after (panel_calls E e)) t)"

text \<open>The first part of \<open>onBlinkTimer\<close>: the next index, and whether to blink again.\<close>

definition advance_blink :: "fp \<Rightarrow> bool \<times> fp" where
  "advance_blink s =
     (let i = m_currentBlinkListIndex s + 1; n = m_numberOfBlinks s + 1
      in if int (length (m_blinkList s)) \<le> i
         then (m_maxNumberOfBlinkRepeats s < 0 \<or> n \<le> m_maxNumberOfBlinkRepeats s,
               s\<lparr>m_currentBlinkListIndex := 0, m_numberOfBlinks := n\<rparr>)
         else (True, s\<lparr>m_currentBlinkListIndex := i\<rparr>))"

text \<open>A step of the timer's thread inside a callback. An exception that leaves it ends the process.\<close>

fun timer_step :: "'f fp_env \<Rightarrow> fp_threads \<Rightarrow> fp_threads option" where
  "timer_step E t =
     (case ft_timer t of
        B_Idle \<Rightarrow> None
      | B_Called \<Rightarrow> (case advance_blink (ft_panel t) of (again, s) \<Rightarrow>
          Some (t\<lparr>ft_panel := s, ft_timer := (if again then B_Show else B_Idle)\<rparr>))
      | B_Show \<Rightarrow> (case blink_at (ft_panel t) of
          None \<Rightarrow> Some (panel_write (\<lambda>s. s\<lparr>fp_escaped := True\<rparr>) (t\<lparr>ft_timer := B_Idle\<rparr>))
        | Some b \<Rightarrow> Some (panel_write (after (setBlinkLed E b)) (t\<lparr>ft_timer := B_Check (bi_duration b)\<rparr>)))
      | B_Check d \<Rightarrow> Some (t\<lparr>ft_timer := (if m_isBlinking (ft_panel t) then B_Insert d else B_Idle)\<rparr>)
      | B_Insert d \<Rightarrow> Some (panel_write (\<lambda>s. s\<lparr>blinkTimer := blinkTimer s @ [d]\<rparr>) (t\<lparr>ft_timer := B_Idle\<rparr>)))"

text \<open>A request comes when the one before has been served; the timer's thread runs one callback at a time.\<close>

datatype thread_event = T_Request fp_event | T_Caller | T_Fire | T_Timer

fun ft_step :: "'f fp_env \<Rightarrow> revoke_kind \<Rightarrow> thread_event \<Rightarrow> fp_threads \<Rightarrow> fp_threads option" where
  "ft_step E K (T_Request e) t =
     (if fp_escaped (ft_panel t) \<or> ft_program t \<noteq> [] \<or> e = F_Timer then None
      else Some (t\<lparr>ft_program := program_of E K e\<rparr>))"
| "ft_step E K T_Caller t =
     (if fp_escaped (ft_panel t) then None
      else case ft_program t of [] \<Rightarrow> None | p # ps \<Rightarrow> panel_step E p (t\<lparr>ft_program := ps\<rparr>))"
| "ft_step E K T_Fire t =
     (if fp_escaped (ft_panel t) \<or> ft_timer t \<noteq> B_Idle \<or> blinkTimer (ft_panel t) = [] then None
      else Some (panel_write (\<lambda>s. s\<lparr>blinkTimer := tl (blinkTimer s)\<rparr>) (t\<lparr>ft_timer := B_Called\<rparr>)))"
| "ft_step E K T_Timer t = (if fp_escaped (ft_panel t) then None else timer_step E t)"

subsection \<open>Undisturbed requests\<close>

text \<open>A panel with both threads at rest.\<close>

definition at_rest :: "fp \<Rightarrow> fp_threads" where
  "at_rest s = \<lparr>ft_panel = s, ft_timer = B_Idle, ft_program = []\<rparr>"

text \<open>The caller alone, from one program to the next.\<close>

definition caller_run :: "'f fp_env \<Rightarrow> revoke_kind \<Rightarrow> panel_op list \<Rightarrow> fp \<Rightarrow> panel_op list \<Rightarrow> fp \<Rightarrow> bool" where
  "caller_run E K ps s qs t \<longleftrightarrow> (\<exists>n. run_events (ft_step E K) (replicate n T_Caller)
       \<lparr>ft_panel = s, ft_timer = B_Idle, ft_program = ps\<rparr>
     = Some \<lparr>ft_panel = t, ft_timer = B_Idle, ft_program = qs\<rparr>)"

lemma caller_run_refl [simp]: "caller_run E K ps s ps s"
  unfolding caller_run_def by (rule exI [of _ 0]) simp

lemma caller_run_trans: "caller_run E K ps s qs t \<Longrightarrow> caller_run E K qs t rs u \<Longrightarrow> caller_run E K ps s rs u"
  unfolding caller_run_def by (metis replicate_add run_events_then)

lemma caller_run_step:
  assumes "\<not> fp_escaped s"
    and "panel_step E p \<lparr>ft_panel = s, ft_timer = B_Idle, ft_program = ps\<rparr>
      = Some \<lparr>ft_panel = t, ft_timer = B_Idle, ft_program = qs\<rparr>"
    and "caller_run E K qs t rs u"
  shows "caller_run E K (p # ps) s rs u"
proof -
  have "caller_run E K (p # ps) s qs t"
    unfolding caller_run_def by (rule exI [of _ 1]) (use assms(1,2) in simp)
  with assms(3) show ?thesis by (rule caller_run_trans [rotated])
qed

lemma caller_run_stop:
  "\<not> fp_escaped s \<Longrightarrow> caller_run E K ps (after stopBlinkTimer s) rs u \<Longrightarrow> caller_run E K (stop_ops K @ ps) s rs u"
  by (cases K) (auto simp: stop_ops_def stopBlinkTimer_def panel_write_def intro!: caller_run_step)

lemma caller_run_push:
  "\<not> fp_escaped s \<Longrightarrow> caller_run E K ps (s\<lparr>m_blinkList := m_blinkList s @ bs\<rparr>) rs u
   \<Longrightarrow> caller_run E K (map P_Push bs @ ps) s rs u"
proof (induction bs arbitrary: s)
  case (Cons b bs)
  then show ?case by (auto simp: panel_write_def intro!: caller_run_step)
qed simp

text \<open>Calls of the device library do not write what the threads share.\<close>

definition calls_only :: "(fp, 'a) state \<Rightarrow> bool" where
  "calls_only m \<longleftrightarrow> (\<forall>c. preserves (\<lambda>s. blink_part s = c) m)"

lemma calls_only_after: "calls_only m \<Longrightarrow> blink_part (after m s) = blink_part s"
  unfolding calls_only_def preserves_def by blast

lemma calls_only_modify [pres]: "(\<And>s. blink_part (f s) = blink_part s) \<Longrightarrow> calls_only (modify f)"
  by (simp add: calls_only_def preserves_def)

lemma calls_only_basic [pres]: "calls_only (ret x)" "calls_only (gets g)" "calls_only (dev E c)" "calls_only (dev_answer a)"
  by (simp_all add: calls_only_def preserves_def)

lemma calls_only_bind [pres]: "calls_only m \<Longrightarrow> (\<And>x. calls_only (f x)) \<Longrightarrow> calls_only (State_Monad.bind m f)"
  by (simp add: calls_only_def preserves_bind)

lemma calls_only_if [pres]: "(b \<Longrightarrow> calls_only m) \<Longrightarrow> (\<not> b \<Longrightarrow> calls_only n) \<Longrightarrow> calls_only (if b then m else n)"
  by simp

lemma calls_only_let [pres]: "(\<And>y. calls_only (f y)) \<Longrightarrow> calls_only (let y = x in f y)"
  by simp

lemma calls_only_whenM [pres]: "calls_only m \<Longrightarrow> calls_only (whenM b m)"
  by (simp add: whenM_def calls_only_basic)

lemma calls_only_indicator [pres]:
  "calls_only a \<Longrightarrow> calls_only b \<Longrightarrow> calls_only c \<Longrightarrow> calls_only d \<Longrightarrow> calls_only e
   \<Longrightarrow> calls_only f \<Longrightarrow> calls_only g
   \<Longrightarrow> calls_only (case i of INDICATOR_CLOCK \<Rightarrow> a | INDICATOR_MESSAGE \<Rightarrow> b | INDICATOR_POWER \<Rightarrow> c
      | INDICATOR_RECORD \<Rightarrow> d | INDICATOR_REMOTE \<Rightarrow> e | INDICATOR_RFBYPASS \<Rightarrow> f | INDICATOR_ALL \<Rightarrow> g)"
  by (cases i) auto

lemma calls_only_also_then [pres]: "calls_only m \<Longrightarrow> calls_only n \<Longrightarrow> calls_only (also_then m n)"
  unfolding also_then_def by (intro pres)

lemma calls_only_each_light [pres]: "(\<And>n. calls_only (f n)) \<Longrightarrow> calls_only (each_light f ns)"
  by (induction ns) (auto intro: pres)

lemma calls_only_dev_get [pres]: "(\<And>v s. blink_part (f v s) = blink_part s) \<Longrightarrow> calls_only (dev_get E c a f)"
  unfolding dev_get_def by (intro pres)

lemma calls_only_power [pres]: "calls_only (power_on_calls E i)" "calls_only (power_off_calls E i)"
  unfolding power_on_calls_def power_off_calls_def by (intro pres; simp)+

lemma calls_only_led [pres]: "calls_only (set_led_calls E p)"
  unfolding set_led_calls_def show_brightness_def by (intro pres)

lemma calls_only_init [pres]: "calls_only (init_lights E)"
  unfolding init_lights_def done_ok_def by (intro pres; simp)

text \<open>What a caller does in one step beside the timer. \<open>start\<close> may also reset the index.\<close>

fun plain_request :: "fp_event \<Rightarrow> bool" where
  "plain_request F_Start = False"
| "plain_request F_Stop = False"
| "plain_request (F_SetBrightness b) = False"
| "plain_request F_OffAll = False"
| "plain_request F_OnAll = False"
| "plain_request (F_Blink p) = False"
| "plain_request F_Timer = False"
| "plain_request e = True"

lemma panel_calls_part: "plain_request e \<Longrightarrow> blink_part (after (panel_calls E e) s) = blink_part s"
  by (rule calls_only_after, cases e)
    (simp_all add: instance_of_def setPowerStatus_def getBrightness_def getClockBrightness_def set24HourClock_def
       is24HourClock_def addEventObserver_def removeEventObserver_def,
     (intro pres; simp)+)


lemma panel_calls_escaped: "plain_request e \<Longrightarrow> fp_escaped (after (panel_calls E e) s) = fp_escaped s"
  using panel_calls_part [of e E s] by (simp add: blink_part_def)

lemma brightness_part:
  "blink_part (after (each_light (\<lambda>n. dev E (SetBrightness n b None)) ls) s) = blink_part s"
  by (rule calls_only_after) (intro pres)

lemma caller_run_calls:
  "\<not> fp_escaped s \<Longrightarrow> caller_run E K ps (after (panel_calls E e) s) rs u \<Longrightarrow> caller_run E K (P_Calls e # ps) s rs u"
  by (rule caller_run_step) (simp_all add: panel_write_def)

lemma caller_run_brightness:
  assumes "\<not> fp_escaped s"
    and "caller_run E K ps (after (each_light (\<lambda>n. dev E (SetBrightness n b None)) (fpIndicators s)) (s\<lparr>globalLedBrightness := b\<rparr>)) rs u"
  shows "caller_run E K (P_Brightness b # ps) s rs u"
  by (rule caller_run_step [OF assms(1) _ assms(2)]) (simp add: panel_write_def)

lemma caller_run_first:
  assumes "\<not> fp_escaped s" and "m_currentBlinkListIndex s = 0"
  shows "caller_run E K [P_First] s [] (after (whenM (m_blinkList s \<noteq> []) (show_and_schedule E)) s)"
proof (cases "m_blinkList s")
  case Nil
  with assms show ?thesis by (auto intro!: caller_run_step)
next
  case (Cons b bs)
  with assms show ?thesis
    by (auto simp: panel_write_def after_show_and_schedule blink_at_def intro!: caller_run_step)
qed

lemma after_stop_escaped [simp]: "fp_escaped (after stopBlinkTimer s) = fp_escaped s"
  by (simp add: stopBlinkTimer_def)

lemma caller_run_start:
  assumes "\<not> fp_escaped s"
  shows "caller_run E K (start_ops K n) s [] (after (startBlinkTimer E n) s)"
proof -
  let ?s = "s\<lparr>blinkTimer := [], m_numberOfBlinks := 0, m_isBlinking := True,
    m_maxNumberOfBlinkRepeats := n, m_currentBlinkListIndex := 0\<rparr>"
  have "caller_run E K [P_First] ?s [] (after (startBlinkTimer E n) s)"
    using caller_run_first [of ?s E K] assms
    by (cases "m_blinkList s = []") (simp_all add: startBlinkTimer_def stopBlinkTimer_def)
  then have "caller_run E K [P_Reset n, P_First] (after stopBlinkTimer s) [] (after (startBlinkTimer E n) s)"
    by (rule caller_run_step [rotated 2]) (simp_all add: panel_write_def stopBlinkTimer_def assms)
  then show ?thesis unfolding start_ops_def by (rule caller_run_stop [OF assms])
qed

lemma caller_run_blink:
  assumes "\<not> fp_escaped s"
  shows "caller_run E K (blink_ops E K p) s [] (after (setBlink E p) s)"
proof -
  let ?n = "int_parameter (fe_text E) p ''iterations''"
  let ?s = "(after stopBlinkTimer s)\<lparr>m_blinkList := []\<rparr>"
  let ?u = "?s\<lparr>m_blinkList := blink_list_of E p\<rparr>"
  have "after (startBlinkTimer E ?n) ?u = after (setBlink E p) s"
    by (simp add: setBlink_def stopBlinkTimer_def)
  with caller_run_start [of ?u E K ?n] assms
  have "caller_run E K (map P_Push (blink_list_of E p) @ start_ops K ?n) ?s [] (after (setBlink E p) s)"
    by (intro caller_run_push) simp_all
  then have "caller_run E K (P_Clear # map P_Push (blink_list_of E p) @ start_ops K ?n) (after stopBlinkTimer s) []
      (after (setBlink E p) s)"
    by (rule caller_run_step [rotated 2]) (simp_all add: panel_write_def assms)
  then show ?thesis unfolding blink_ops_def by (rule caller_run_stop [OF assms])
qed

lemma powerOnLed_calls: "after (powerOnLed E i) s = after (panel_calls E (F_On i)) (after stopBlinkTimer s)"
  by (simp add: powerOnLed_def split: prod.split)

text \<open>A request that the timer does not disturb.\<close>

lemma caller_run_request:
  assumes "e \<noteq> F_Timer" and "\<not> fp_escaped s"
  shows "caller_run E K (program_of E K e) s [] (after (fp_op E e) s)"
proof -
  have calls: "caller_run E K [P_Calls f] u [] (after (panel_calls E f) u)" if "\<not> fp_escaped u" for f u
    using that by (rule caller_run_calls) simp
  have stop: "caller_run E K (stop_ops K @ [P_Calls f]) u [] (after (panel_calls E f) (after stopBlinkTimer u))"
    if "\<not> fp_escaped u" for f u
    using that by (intro caller_run_stop calls) simp_all
  have plain: ?thesis if "program_of E K e = [P_Calls e]" and "panel_calls E e = fp_op E e"
    using calls [OF assms(2), of e] that by simp
  have stopped: ?thesis if "program_of E K e = stop_ops K @ [P_Calls f]"
    and "after (fp_op E e) s = after (panel_calls E f) (after stopBlinkTimer s)" for f
    using stop [OF assms(2), of f] that by simp
  show ?thesis
  proof (cases e)
    case F_Stop
    then show ?thesis using caller_run_stop [of s E K "[]"] assms by (simp add: stop_def)
  next
    case (F_SetBrightness b)
    let ?v = "(after stopBlinkTimer s)\<lparr>globalLedBrightness := b\<rparr>"
    let ?u = "after (each_light (\<lambda>n. dev E (SetBrightness n b None)) (fpIndicators ?v)) ?v"
    have u: "\<not> fp_escaped ?u"
      using brightness_part [of E b "fpIndicators ?v" ?v] assms(2) by (simp add: blink_part_def)
    have eq: "after (powerOnLed E INDICATOR_ALL) ?u = after (fp_op E e) s"
      using F_SetBrightness by (simp add: setBrightness_def stopBlinkTimer_def split: prod.split)
    have "caller_run E K (stop_ops K @ [P_Calls (F_On INDICATOR_ALL)]) ?u [] (after (fp_op E e) s)"
      unfolding eq [symmetric] powerOnLed_calls by (rule stop [OF u])
    then have "caller_run E K (P_Brightness b # stop_ops K @ [P_Calls (F_On INDICATOR_ALL)]) (after stopBlinkTimer s)
        [] (after (fp_op E e) s)"
      by (intro caller_run_brightness) (simp_all add: assms(2) stopBlinkTimer_def)
    then show ?thesis using F_SetBrightness assms(2) by (simp add: caller_run_stop)
  next
    case (F_SetClock b)
    with stop [of "s\<lparr>clockBrightness := b\<rparr>" "F_On INDICATOR_CLOCK"] assms(2) show ?thesis
      by (auto simp: setClockBrightness_def powerOnLed_def stopBlinkTimer_def intro!: caller_run_calls)
  next
    case (F_Blink p)
    with caller_run_blink [OF assms(2)] show ?thesis by simp
  next
    case (F_On i)
    show ?thesis by (rule stopped [of "F_On i"]) (simp_all add: F_On powerOnLed_def split: prod.split)
  next
    case (F_Off i)
    show ?thesis by (rule stopped [of "F_Off i"]) (simp_all add: F_Off powerOffLed_def split: prod.split)
  next
    case F_OnAll
    show ?thesis
      by (rule stopped [of "F_On INDICATOR_ALL"]) (simp_all add: F_OnAll powerOnAllLed_def powerOnLed_def split: prod.split)
  next
    case F_OffAll
    show ?thesis
      by (rule stopped [of "F_Off INDICATOR_ALL"]) (simp_all add: F_OffAll powerOffAllLed_def powerOffLed_def split: prod.split)
  next
    case (F_LED p)
    show ?thesis by (rule stopped [of "F_LED p"]) (simp_all add: F_LED setLED_def split: prod.split)
  qed (rule plain; simp)+
qed

lemma request_run:
  assumes "e \<noteq> F_Timer" and "\<not> fp_escaped s"
  shows "\<exists>ts. run_events (ft_step E K) ts (at_rest s) = Some (at_rest (after (fp_op E e) s))"
proof -
  from caller_run_request [OF assms, of E K] obtain n where
    "run_events (ft_step E K) (T_Request e # replicate n T_Caller) (at_rest s) = Some (at_rest (after (fp_op E e) s))"
    using assms by (auto simp: caller_run_def at_rest_def)
  then show ?thesis by blast
qed

text \<open>A callback that no caller disturbs.\<close>

lemma onBlinkTimer_parts:
  "after (onBlinkTimer E) s = (case advance_blink s of (again, u) \<Rightarrow> after (whenM again (show_and_schedule E)) u)"
  by (auto simp: onBlinkTimer_def advance_blink_def Let_def)

lemma callback_run:
  assumes "\<not> fp_escaped s"
  shows "\<exists>ts. run_events (ft_step E K) ts \<lparr>ft_panel = s, ft_timer = B_Called, ft_program = []\<rparr>
    = Some (at_rest (after (onBlinkTimer E) s))"
proof -
  obtain again u where u: "advance_blink s = (again, u)" by fastforce
  with assms have e: "\<not> fp_escaped u" by (auto simp: advance_blink_def Let_def split: if_splits)
  show ?thesis
  proof (cases "again \<and> blink_at u \<noteq> None")
    case False
    with u e assms show ?thesis
      by (cases again; intro exI [of _ "if again then [T_Timer, T_Timer] else [T_Timer]"])
        (auto simp: onBlinkTimer_parts after_show_and_schedule at_rest_def panel_write_def)
  next
    case True
    with u e assms show ?thesis
      by (intro exI [of _ "[T_Timer, T_Timer, T_Timer] @ (if m_isBlinking u then [T_Timer] else [])"])
        (auto simp: onBlinkTimer_parts after_show_and_schedule at_rest_def panel_write_def)
  qed
qed



subsection \<open>A timer that waits, then removes\<close>

text \<open>
  The timer is quiet when nothing is scheduled and no callback runs. What a caller still has to do
  is in order when it writes the pattern and the counters only while the timer is quiet, and when
  after the end of blinking it waits for the timer.
\<close>

definition quiet :: "fp_threads \<Rightarrow> bool" where
  "quiet t \<longleftrightarrow> ft_timer t = B_Idle \<and> blinkTimer (ft_panel t) = []"

fun ordered :: "bool \<Rightarrow> bool \<Rightarrow> panel_op list \<Rightarrow> bool" where
  "ordered q n [] = True"
| "ordered q n (P_NotBlinking # ps) = (P_WaitRemove \<in> set ps \<and> ordered q False ps)"
| "ordered q n (P_Remove # ps) = False"
| "ordered q n (P_Wait # ps) = False"
| "ordered q n (P_WaitRemove # ps) = ordered True False ps"
| "ordered q n (P_First # ps) = (q \<and> ps = [])"
| "ordered q n (P_Schedule d # ps) = (q \<and> n \<and> ps = [])"
| "ordered q n (P_Clear # ps) = (q \<and> ordered q False ps)"
| "ordered q n (P_Push b # ps) = (q \<and> ordered q False ps)"
| "ordered q n (P_Reset k # ps) = (q \<and> ordered q False ps)"
| "ordered q n (P_Brightness b # ps) = ordered q False ps"
| "ordered q n (P_Calls e # ps) = ((plain_request e \<or> e = F_Start) \<and> ordered q False ps)"

definition threads_inv :: "fp_threads \<Rightarrow> bool" where
  "threads_inv t \<longleftrightarrow> (let s = ft_panel t in
     \<not> fp_escaped s \<and> 0 \<le> m_currentBlinkListIndex s
     \<and> length (blinkTimer s) + (if ft_timer t = B_Idle then 0 else 1) \<le> 1
     \<and> (\<not> quiet t \<longrightarrow> m_blinkList s \<noteq> [])
     \<and> (ft_timer t = B_Show \<longrightarrow> nat (m_currentBlinkListIndex s) < length (m_blinkList s))
     \<and> ordered (quiet t) (m_blinkList s \<noteq> []) (ft_program t)
     \<and> (\<not> m_isBlinking s \<and> \<not> quiet t \<longrightarrow> P_WaitRemove \<in> set (ft_program t)))"

lemma ordered_mono: "ordered q n ps \<Longrightarrow> (q \<Longrightarrow> r) \<Longrightarrow> (n \<Longrightarrow> m) \<Longrightarrow> ordered r m ps"
proof (induction q n ps arbitrary: r m rule: ordered.induct)
  case (5 q n ps)
  then show ?case by simp
qed auto

lemma ordered_push: "ordered True False ps \<Longrightarrow> ordered True n (map P_Push bs @ ps)"
  by (induction bs arbitrary: n) (auto intro: ordered_mono)

lemma ordered_program: "e \<noteq> F_Timer \<Longrightarrow> ordered q n (program_of E Waits_then_removes e)"
  by (cases e) (simp_all add: stop_ops_def blink_ops_def start_ops_def ordered_push)

lemma start_part: "\<exists>i \<in> {m_currentBlinkListIndex s, 0}.
   blink_part (after (start E) s) = blink_part (s\<lparr>m_currentBlinkListIndex := i\<rparr>)"
proof -
  let ?f = "\<lambda>s. if started s then s
      else s\<lparr>m_numberOfBlinks := 0, m_maxNumberOfBlinkRepeats := 0, m_currentBlinkListIndex := 0, started := True\<rparr>"
  define m where "m = do { on \<leftarrow> gets powerStatus;
     also_then (if on then dev E (SetState ''Power'' True) else ret True)
            (dev_get E GetIndicators (fe_indicators E) (\<lambda>v. fold add_light v)) }"
  have "calls_only m" unfolding m_def by (intro pres) simp
  then have m: "blink_part (after m s) = blink_part s" by (rule calls_only_after)
  have "after (start E) s = ?f (after m s)" by (simp add: start_def m_def split: prod.split)
  with m show ?thesis by (auto simp: blink_part_def)
qed

lemma panel_calls_index:
  assumes "plain_request e \<or> e = F_Start"
  shows "\<exists>i \<in> {m_currentBlinkListIndex s, 0}.
   blink_part (after (panel_calls E e) s) = blink_part (s\<lparr>m_currentBlinkListIndex := i\<rparr>)"
proof (cases "plain_request e")
  case True
  with panel_calls_part [OF True, of E s] show ?thesis by (auto simp: blink_part_def)
next
  case False
  with assms start_part [of s E] show ?thesis by (simp add: split_beta)
qed

lemma threads_inv_part:
  assumes "blink_part (ft_panel t) = blink_part (ft_panel u)" and "ft_timer t = ft_timer u" and "ft_program t = ft_program u"
  shows "threads_inv t = threads_inv u"
  using assms by (simp add: threads_inv_def quiet_def blink_part_def Let_def)

lemma threads_inv_calls:
  assumes "threads_inv t" and "ft_program t = p # ps" and "ordered (quiet t) False ps"
    and "p \<noteq> P_WaitRemove" and "i \<in> {m_currentBlinkListIndex (ft_panel t), 0}"
    and "blink_part s = blink_part ((ft_panel t)\<lparr>m_currentBlinkListIndex := i\<rparr>)"
  shows "threads_inv (t\<lparr>ft_program := ps, ft_panel := s\<rparr>)"
proof -
  let ?u = "t\<lparr>ft_program := ps, ft_panel := (ft_panel t)\<lparr>m_currentBlinkListIndex := i\<rparr>\<rparr>"
  have q: "quiet ?u = quiet t" by (simp add: quiet_def)
  have "threads_inv ?u"
    using assms(1-5) ordered_mono [OF assms(3)] unfolding threads_inv_def Let_def q by (auto simp: quiet_def)
  moreover have "threads_inv (t\<lparr>ft_program := ps, ft_panel := s\<rparr>) = threads_inv ?u"
    by (rule threads_inv_part) (simp_all add: assms(6))
  ultimately show ?thesis by simp
qed

lemma threads_inv_request:
  assumes "threads_inv t" and "ft_step E Waits_then_removes (T_Request e) t = Some u"
  shows "threads_inv u"
  using assms ordered_program [of e "quiet t" "m_blinkList (ft_panel t) \<noteq> []" E]
  by (auto simp: threads_inv_def quiet_def Let_def split: if_splits)

lemma threads_inv_fire:
  assumes "threads_inv t" and "ft_step E K T_Fire t = Some u"
  shows "threads_inv u"
proof -
  from assms have "tl (blinkTimer (ft_panel t)) = []" "\<not> quiet t" "\<not> quiet u"
    by (auto simp: threads_inv_def quiet_def panel_write_def Let_def neq_Nil_conv split: if_splits)
  with assms show ?thesis
    by (auto simp: threads_inv_def panel_write_def Let_def split: if_splits)
qed

lemma advance_blink_keeps:
  assumes "advance_blink s = (again, u)"
  shows "m_blinkList u = m_blinkList s" "blinkTimer u = blinkTimer s" "fp_escaped u = fp_escaped s"
    "m_isBlinking u = m_isBlinking s"
    "0 \<le> m_currentBlinkListIndex s \<Longrightarrow> 0 \<le> m_currentBlinkListIndex u"
    "0 \<le> m_currentBlinkListIndex s \<Longrightarrow> m_blinkList s \<noteq> [] \<Longrightarrow> nat (m_currentBlinkListIndex u) < length (m_blinkList s)"
  using assms by (auto simp: advance_blink_def Let_def split: if_splits)

lemma threads_inv_timer:
  assumes "threads_inv t" and "ft_step E K T_Timer t = Some u"
  shows "threads_inv u"
proof (cases "ft_timer t")
  case B_Idle
  with assms show ?thesis by (simp split: if_splits)
next
  case B_Called
  obtain again s where s: "advance_blink (ft_panel t) = (again, s)" by fastforce
  note keeps = advance_blink_keeps [OF s]
  from B_Called s assms have u: "u = t\<lparr>ft_panel := s, ft_timer := (if again then B_Show else B_Idle)\<rparr>"
    by (auto split: if_splits)
  from assms(1) B_Called keeps show ?thesis
    by (auto simp: u threads_inv_def quiet_def Let_def elim: ordered_mono split: if_splits)
next
  case B_Show
  then obtain b where "blink_at (ft_panel t) = Some b"
    using assms(1) by (auto simp: threads_inv_def blink_at_def Let_def)
  with assms B_Show show ?thesis
    by (auto simp: threads_inv_def quiet_def panel_write_def Let_def split: if_splits)
next
  case (B_Check d)
  with assms show ?thesis
    by (auto simp: threads_inv_def quiet_def Let_def elim: ordered_mono split: if_splits)
next
  case (B_Insert d)
  with assms show ?thesis
    by (auto simp: threads_inv_def quiet_def panel_write_def Let_def split: if_splits)
qed

lemma threads_inv_caller:
  assumes "threads_inv t" and "ft_step E K T_Caller t = Some u"
  shows "threads_inv u"
proof -
  obtain p ps where prog: "ft_program t = p # ps" and u: "panel_step E p (t\<lparr>ft_program := ps\<rparr>) = Some u"
    using assms(2) by (auto split: if_splits list.splits)
  from assms(1) prog have o: "ordered (quiet t) (m_blinkList (ft_panel t) \<noteq> []) (p # ps)"
    by (simp add: threads_inv_def Let_def)
  note inv = assms(1) [unfolded threads_inv_def Let_def prog]
  have weaker: "ordered q n ps" if "ordered q False ps" for q n by (rule ordered_mono [OF that]) simp_all
  show ?thesis
  proof (cases p)
    case (P_Brightness b)
    let ?f = "\<lambda>s. after (each_light (\<lambda>n. dev E (SetBrightness n b None)) (fpIndicators s)) (s\<lparr>globalLedBrightness := b\<rparr>)"
    have "threads_inv (t\<lparr>ft_program := ps, ft_panel := ?f (ft_panel t)\<rparr>)"
      using o P_Brightness
      by (intro threads_inv_calls [OF assms(1) prog, of "m_currentBlinkListIndex (ft_panel t)"])
        (simp_all add: brightness_part)
    with u P_Brightness show ?thesis by (simp add: panel_write_def)
  next
    case (P_Calls e)
    with o have "plain_request e \<or> e = F_Start" by simp
    from panel_calls_index [OF this, of "ft_panel t" E] obtain i where
      "i \<in> {m_currentBlinkListIndex (ft_panel t), 0}"
      "blink_part (after (panel_calls E e) (ft_panel t)) = blink_part ((ft_panel t)\<lparr>m_currentBlinkListIndex := i\<rparr>)" by blast
    then have "threads_inv (t\<lparr>ft_program := ps, ft_panel := after (panel_calls E e) (ft_panel t)\<rparr>)"
      using o P_Calls by (intro threads_inv_calls [OF assms(1) prog, of i]) simp_all
    with u P_Calls show ?thesis by (simp add: panel_write_def)
  next
    case P_NotBlinking
    with u have v: "u = panel_write (\<lambda>s. s\<lparr>m_isBlinking := False\<rparr>) (t\<lparr>ft_program := ps\<rparr>)" by simp
    have q: "quiet u = quiet t" by (simp add: v quiet_def panel_write_def)
    from P_NotBlinking o have "P_WaitRemove \<in> set ps" "ordered (quiet t) (m_blinkList (ft_panel t) \<noteq> []) ps"
      by (simp_all add: weaker)
    with inv show ?thesis unfolding threads_inv_def q by (simp add: v panel_write_def Let_def)
  next
    case P_WaitRemove
    with u have v: "u = panel_write (\<lambda>s. s\<lparr>blinkTimer := []\<rparr>) (t\<lparr>ft_program := ps\<rparr>)" and i: "ft_timer t = B_Idle"
      by (simp_all split: if_splits)
    have q: "quiet u" by (simp add: v i quiet_def panel_write_def)
    from P_WaitRemove o have "ordered True (m_blinkList (ft_panel t) \<noteq> []) ps" by (simp add: weaker)
    with inv q i show ?thesis unfolding threads_inv_def by (simp add: v panel_write_def Let_def)
  next
    case P_Clear
    with o have "quiet t" "ordered True False ps" by auto
    with P_Clear inv u show ?thesis by (simp add: threads_inv_def quiet_def panel_write_def) auto
  next
    case (P_Push b)
    with o have "quiet t" "ordered True True ps" by (auto intro: weaker)
    with P_Push inv u show ?thesis by (simp add: threads_inv_def quiet_def panel_write_def) auto
  next
    case (P_Reset n)
    with o have "quiet t" "ordered True (m_blinkList (ft_panel t) \<noteq> []) ps" by (auto intro: weaker)
    with P_Reset inv u show ?thesis by (simp add: threads_inv_def quiet_def panel_write_def) auto
  next
    case P_First
    with inv o u show ?thesis
      by (auto simp: threads_inv_def quiet_def panel_write_def Let_def split: list.splits)
  next
    case (P_Schedule d)
    with o have q: "ft_timer t = B_Idle" "blinkTimer (ft_panel t) = []" "m_blinkList (ft_panel t) \<noteq> []" "ps = []"
      by (simp_all add: quiet_def)
    have i: "\<not> fp_escaped (ft_panel t)" "0 \<le> m_currentBlinkListIndex (ft_panel t)" using inv by simp_all
    from P_Schedule u have "u = panel_write (\<lambda>s. if m_isBlinking s then s\<lparr>blinkTimer := blinkTimer s @ [d]\<rparr> else s)
      (t\<lparr>ft_program := ps\<rparr>)" by simp
    with q i show ?thesis
      by (cases "m_isBlinking (ft_panel t)") (simp_all add: threads_inv_def quiet_def panel_write_def)
  qed (use o in simp_all)
qed


lemma threads_inv_step:
  assumes "threads_inv t" and "ft_step E Waits_then_removes e t = Some u"
  shows "threads_inv u"
  using assms by (cases e) (blast intro: threads_inv_request threads_inv_fire threads_inv_timer threads_inv_caller)+

interpretation ftl: transition_system "\<lambda>t. t = ft_start" "ft_step E Waits_then_removes" threads_inv for E :: "'f fp_env"
proof
  show "threads_inv t" if "t = ft_start" for t
    using that by (simp add: threads_inv_def ft_start_def fp_start_def quiet_def)
qed (rule threads_inv_step)




subsection \<open>A new pattern while a callback runs\<close>

lemma setBlink_fields:
  assumes "2 < length (blink_list_of E p)" and "\<not> fp_escaped s" and "u = after (setBlink E p) s"
  shows "m_blinkList u = blink_list_of E p" "m_currentBlinkListIndex u = 0" "m_isBlinking u" "\<not> fp_escaped u"
    "\<exists>d. blinkTimer u = [d]"
proof -
  from assms(1) have "blink_list_of E p \<noteq> []" by auto
  from setBlink_state [OF refl this] assms(2,3)
  show "m_blinkList u = blink_list_of E p" "m_currentBlinkListIndex u = 0" "m_isBlinking u" "\<not> fp_escaped u"
    "\<exists>d. blinkTimer u = [d]"
    by (simp_all add: blink_state_def)
qed

text \<open>The schedules: with the first kind a callback is between its test of the index and \<open>at\<close> while the
  list is cleared; with the second it schedules once more after \<open>Revoke\<close> has taken out what was there.\<close>

fun race_schedule :: "revoke_kind \<Rightarrow> json_map \<Rightarrow> thread_event list" where
  "race_schedule Removes p = [T_Fire, T_Timer, T_Request (F_Blink p), T_Caller, T_Caller, T_Caller, T_Timer]"
| "race_schedule Removes_then_waits p = [T_Fire, T_Timer, T_Timer, T_Timer, T_Request (F_Blink p), T_Caller, T_Caller,
     T_Timer, T_Caller, T_Fire, T_Timer, T_Caller, T_Timer]"
| "race_schedule Waits_then_removes p = []"

lemma race_run:
  assumes "K \<noteq> Waits_then_removes" and "m_blinkList u = bl" "2 < length bl" "m_currentBlinkListIndex u = 0"
    "m_isBlinking u" "\<not> fp_escaped u" "blinkTimer u = [d]"
  shows "\<exists>t. run_events (ft_step E K) (race_schedule K p) (at_rest u) = Some t \<and> fp_escaped (ft_panel t)"
  using assms
  by (cases K) (simp_all add: at_rest_def panel_write_def advance_blink_def blink_at_def blink_ops_def stop_ops_def Let_def)

text \<open>
  C31: Where \<open>Revoke\<close> does not wait, and even where it waits after it has taken out what is scheduled, a
  second pattern can end the process: there is a schedule on which \<open>at\<close> throws in the timer's
  thread, where nothing catches it, because \<open>setBlink\<close> has cleared the list of the first.
\<close>

theorem new_pattern_can_crash:
  assumes "K \<noteq> Waits_then_removes" and "2 < length (blink_list_of E p)" and "\<not> fp_escaped s"
  shows "\<exists>ts t. run_events (ft_step E K) ts (at_rest s) = Some t \<and> fp_escaped (ft_panel t)"
proof -
  define u where "u = after (setBlink E p) s"
  obtain ts where ts: "run_events (ft_step E K) ts (at_rest s) = Some (at_rest u)"
    using request_run [of "F_Blink p" s E K] assms(3) by (auto simp: u_def)
  obtain d where "blinkTimer u = [d]" using setBlink_fields(5) [OF assms(2,3) u_def] by blast
  from race_run [OF assms(1) setBlink_fields(1) [OF assms(2,3) u_def] assms(2) setBlink_fields(2-4) [OF assms(2,3) u_def] this]
  obtain t where "run_events (ft_step E K) (race_schedule K p) (at_rest u) = Some t" "fp_escaped (ft_panel t)" by blast
  with run_events_then [OF ts] show ?thesis by metis
qed

definition sample_three :: json_map where
  "sample_three = [(''ledIndicator'', JString ''power_led''), (''iterations'', JNumber 0),
     (''pattern'', JArray [JObject [], JObject [], JObject []])]"

theorem new_pattern_can_crash_witness:
  "\<exists>ts t. run_events (ft_step sample_fp Removes_then_waits) ts (at_rest fp_start) = Some t \<and> fp_escaped (ft_panel t)"
  by (rule new_pattern_can_crash [of _ _ sample_three])
    (simp_all add: fp_start_def sample_three_def blink_list_of_def json_get_def json_array_def)

end
