(* ===== verification/UtilStrings.thy ===== *)
theory UtilStrings
  imports CxxStrings
begin

text \<open>
  \<open>helpers/UtilsString.h\<close> and \<open>helpers/UtilsisValidInt.h\<close>: comparison without regard to case,
  trimming, splitting, the base64 encoder and the tests for numbers. The locale is the
  classic one.
\<close>

unbundle bit_operations_syntax

subsection \<open>Comparison without regard to case\<close>

definition ascii_upper :: "char \<Rightarrow> char" where
  "ascii_upper c = (if 97 \<le> (of_char c :: nat) \<and> (of_char c :: nat) \<le> 122
                    then char_of ((of_char c :: nat) - 32) else c)"

definition ascii_lower_case :: "char \<Rightarrow> char" where
  "ascii_lower_case c = (if 65 \<le> (of_char c :: nat) \<and> (of_char c :: nat) \<le> 90
                    then char_of ((of_char c :: nat) + 32) else c)"

text \<open>\<open>std::search\<close> with the comparison of \<open>loc_equal\<close>: the position, the length where there is none.\<close>

fun search_ci :: "string \<Rightarrow> string \<Rightarrow> nat" where
  "search_ci s pat =
     (if length pat \<le> length s \<and> map ascii_upper (take (length pat) s) = map ascii_upper pat then 0
      else case s of [] \<Rightarrow> 0 | x # xs \<Rightarrow> Suc (search_ci xs pat))"

declare search_ci.simps [simp del]

definition find_substr_ci :: "string \<Rightarrow> string \<Rightarrow> int" where
  "find_substr_ci s pat = (if search_ci s pat \<noteq> length s then int (search_ci s pat) else - 1)"

definition contains_ci :: "string \<Rightarrow> string \<Rightarrow> bool" where
  "contains_ci s pat \<longleftrightarrow> find_substr_ci s pat \<noteq> - 1"

definition equal_ci :: "string \<Rightarrow> string \<Rightarrow> bool" where
  "equal_ci s t \<longleftrightarrow> find_substr_ci s t = 0 \<and> length s = length t"

definition stringContains :: "string \<Rightarrow> string \<Rightarrow> bool" where
  "stringContains s1 s2 \<longleftrightarrow> search_ci s1 s2 \<noteq> length s1"

definition toUpper :: "string \<Rightarrow> string" where
  "toUpper s = map ascii_upper s"

definition toLower :: "string \<Rightarrow> string" where
  "toLower s = map ascii_lower_case s"

lemma search_ci_le: "search_ci s pat \<le> length s"
proof (induction s)
  case (Cons x xs)
  then show ?case by (subst search_ci.simps) simp
qed (subst search_ci.simps, simp)

lemma search_ci_less_iff: "search_ci s pat < length s \<longleftrightarrow> s \<noteq> [] \<and> sublist (toUpper pat) (toUpper s)"
proof (induction s)
  case Nil
  show ?case by (subst search_ci.simps) simp
next
  case (Cons x xs)
  have pre: "length pat \<le> length (x # xs) \<and> map ascii_upper (take (length pat) (x # xs)) = map ascii_upper pat
      \<longleftrightarrow> prefix (toUpper pat) (toUpper (x # xs))"
    unfolding toUpper_def by (metis append_eq_conv_conj length_map prefix_def prefix_length_le take_map)
  have none: "pat \<noteq> [] \<Longrightarrow> search_ci [] pat = 0" by (subst search_ci.simps) simp
  show ?case
  proof (cases "prefix (toUpper pat) (toUpper (x # xs))")
    case True
    with pre show ?thesis by (subst search_ci.simps) (simp add: prefix_imp_sublist)
  next
    case False
    then have ne: "pat \<noteq> []" by (auto simp: toUpper_def)
    have "search_ci (x # xs) pat = Suc (search_ci xs pat)"
      using False pre by (subst search_ci.simps) auto
    moreover have "sublist (toUpper pat) (toUpper (x # xs)) \<longleftrightarrow> sublist (toUpper pat) (toUpper xs)"
      using False by (auto simp: toUpper_def sublist_Cons_right)
    ultimately show ?thesis using Cons.IH ne by (cases xs) (auto simp: toUpper_def none)
  qed
qed

lemma search_ci_zero: "search_ci s pat = 0 \<longleftrightarrow> s = [] \<or> prefix (toUpper pat) (toUpper s)"
proof -
  have pre: "length pat \<le> length s \<and> map ascii_upper (take (length pat) s) = map ascii_upper pat
      \<longleftrightarrow> prefix (toUpper pat) (toUpper s)"
    unfolding toUpper_def by (metis append_eq_conv_conj length_map prefix_def prefix_length_le take_map)
  show ?thesis by (subst search_ci.simps) (use pre in \<open>auto split: list.split\<close>)
qed

text \<open>
  Comparison without regard to case. A text contains another exactly when, both in upper
  case, it has it as a substring, and two texts are equal exactly when they are the same
  in upper case; but for the empty text, which contains nothing, not even itself, and is
  not equal to itself.
\<close>

theorem compare_ignoring_case:
  "(contains_ci s pat \<longleftrightarrow> s \<noteq> [] \<and> sublist (toUpper pat) (toUpper s))
   \<and> (stringContains s pat \<longleftrightarrow> s \<noteq> [] \<and> sublist (toUpper pat) (toUpper s))
   \<and> (equal_ci s t \<longleftrightarrow> s \<noteq> [] \<and> toUpper s = toUpper t)"
proof -
  have c: "search_ci s pat \<noteq> length s \<longleftrightarrow> s \<noteq> [] \<and> sublist (toUpper pat) (toUpper s)"
    using search_ci_less_iff [of s pat] search_ci_le [of s pat] by linarith
  have "equal_ci s t \<longleftrightarrow> s \<noteq> [] \<and> toUpper s = toUpper t"
  proof (cases "s = []")
    case True
    then show ?thesis using search_ci_le [of "[]" t] by (auto simp: equal_ci_def find_substr_ci_def)
  next
    case False
    then have "find_substr_ci s t = 0 \<longleftrightarrow> prefix (toUpper t) (toUpper s)"
      using search_ci_zero [of s t] search_ci_le [of s t]
      by (auto simp: find_substr_ci_def)
    moreover have "prefix (toUpper t) (toUpper s) \<and> length s = length t \<longleftrightarrow> toUpper s = toUpper t"
      unfolding toUpper_def
      by (metis length_map not_equal_is_parallel parallelD1 prefix_order.refl)
    ultimately show ?thesis using False by (auto simp: equal_ci_def)
  qed
  with c show ?thesis by (auto simp: contains_ci_def stringContains_def find_substr_ci_def)
qed

subsection \<open>Trimming and splitting\<close>

definition ltrim :: "string \<Rightarrow> string" where
  "ltrim s = dropWhile isspace s"

definition rtrim :: "string \<Rightarrow> string" where
  "rtrim s = rev (dropWhile isspace (rev s))"

definition trim :: "string \<Rightarrow> string" where
  "trim s = rtrim (ltrim s)"

text \<open>The loop over \<open>find_first_of\<close>; the pieces are appended to the list given.\<close>

function split_rest :: "string \<Rightarrow> string \<Rightarrow> string list" where
  "split_rest s delimiters =
     (case index_where (\<lambda>c. c \<in> set delimiters) s of
        None \<Rightarrow> [s]
      | Some i \<Rightarrow> take i s # split_rest (drop (Suc i) s) delimiters)"
  by pat_completeness auto
termination
  by (relation "measure (\<lambda>(s, d). length s)") (auto dest: index_where_SomeD)

declare split_rest.simps [simp del]

definition split :: "string list \<Rightarrow> string \<Rightarrow> string \<Rightarrow> string list" where
  "split stringList s delimiters = stringList @ split_rest s delimiters"

lemma split_rest_split_by: "split_rest s d = split_by (\<lambda>c. c \<in> set d) s"
proof (induction s d rule: split_rest.induct)
  case (1 s d)
  show ?case
  proof (cases "index_where (\<lambda>c. c \<in> set d) s")
    case None
    moreover from None have "split_by (\<lambda>c. c \<in> set d) s = [s]"
      by (intro split_by_none) (simp add: index_where_None)
    ultimately show ?thesis by (subst split_rest.simps) simp
  next
    case (Some i)
    have i: "i < length s" "s ! i \<in> set d" using index_where_SomeD [OF Some] by auto
    have "\<forall>x\<in>set (take i s). \<not> x \<in> set d"
    proof
      fix x assume "x \<in> set (take i s)"
      then obtain j where "j < i" "x = s ! j" by (auto simp: in_set_conv_nth)
      then show "\<not> x \<in> set d" using index_where_less [OF Some, of j] by simp
    qed
    from split_by_append [of "take i s" "\<lambda>c. c \<in> set d", OF this i(2), of "drop (Suc i) s"] i(1)
    have "split_by (\<lambda>c. c \<in> set d) s = take i s # split_by (\<lambda>c. c \<in> set d) (drop (Suc i) s)"
      by (simp add: id_take_nth_drop [symmetric])
    with 1 [OF Some] Some show ?thesis by (subst split_rest.simps) simp
  qed
qed

subsection \<open>The base64 encoder\<close>

definition base64_chars :: string where
  "base64_chars = ''ABCDEFGHIJKLMNOPQRSTUVWXYZabcdefghijklmnopqrstuvwxyz0123456789+/''"

definition base64_char :: "8 word \<Rightarrow> char" where
  "base64_char w = base64_chars ! unat w"

record encoder =
  enc_state :: nat
  enc_last :: "8 word"
  enc_out :: string

text \<open>The body of the loop, for one byte of the object.\<close>

definition image_step :: "encoder \<Rightarrow> 8 word \<Rightarrow> encoder" where
  "image_step e b =
     (if enc_state e = 0 then
        e\<lparr>enc_out := enc_out e @ [base64_char (drop_bit 2 (b AND 0xFC))],
          enc_last := push_bit 4 (b AND 0x03), enc_state := 1\<rparr>
      else if enc_state e = 1 then
        e\<lparr>enc_out := enc_out e @ [base64_char (drop_bit 4 (b AND 0xF0) OR enc_last e)],
          enc_last := push_bit 2 (b AND 0x0F), enc_state := 2\<rparr>
      else if enc_state e = 2 then
        e\<lparr>enc_out := enc_out e @ [base64_char (drop_bit 6 (b AND 0xC0) OR enc_last e),
                                 base64_char (b AND 0x3F)],
          enc_state := 0\<rparr>
      else e)"

definition image_finish :: "bool \<Rightarrow> encoder \<Rightarrow> string" where
  "image_finish padding e =
     (if enc_state e \<noteq> 0
      then enc_out e @ [base64_char (enc_last e)]
           @ (if padding then (if enc_state e = 1 then ''=='' else ''='') else [])
      else enc_out e)"

text \<open>The array, the number of its bytes to encode, the padding and the text so far.\<close>

definition imageEncoder :: "8 word list \<Rightarrow> nat \<Rightarrow> bool \<Rightarrow> string \<Rightarrow> string" where
  "imageEncoder object len padding result =
     image_finish padding
       (foldl image_step \<lparr>enc_state = 0, enc_last = 0, enc_out = result\<rparr> (take len object))"

text \<open>The decoder of RFC 4648, as the reference: four characters give three bytes.\<close>

definition base64_value :: "char \<Rightarrow> 8 word" where
  "base64_value c = (case index_where (\<lambda>x. x = c) base64_chars of Some i \<Rightarrow> of_nat i | None \<Rightarrow> 0)"

fun unbase64 :: "8 word list \<Rightarrow> 8 word list" where
  "unbase64 (p # q # r # s # xs) =
     (push_bit 2 p OR drop_bit 4 q) # (push_bit 4 q OR drop_bit 2 r) # (push_bit 6 r OR s) # unbase64 xs"
| "unbase64 [p, q, r] = [push_bit 2 p OR drop_bit 4 q, push_bit 4 q OR drop_bit 2 r]"
| "unbase64 [p, q] = [push_bit 2 p OR drop_bit 4 q]"
| "unbase64 _ = []"

definition base64_decode :: "string \<Rightarrow> 8 word list" where
  "base64_decode s = unbase64 (map base64_value (takeWhile (\<lambda>c. c \<noteq> CHR ''='') s))"

text \<open>The sextets of a list of bytes, three bytes at a time.\<close>

fun sextets :: "8 word list \<Rightarrow> 8 word list" where
  "sextets (a # b # c # xs) =
     drop_bit 2 (a AND 0xFC) # (drop_bit 4 (b AND 0xF0) OR push_bit 4 (a AND 0x03))
     # (drop_bit 6 (c AND 0xC0) OR push_bit 2 (b AND 0x0F)) # (c AND 0x3F) # sextets xs"
| "sextets [a, b] = [drop_bit 2 (a AND 0xFC), drop_bit 4 (b AND 0xF0) OR push_bit 4 (a AND 0x03),
     push_bit 2 (b AND 0x0F)]"
| "sextets [a] = [drop_bit 2 (a AND 0xFC), push_bit 4 (a AND 0x03)]"
| "sextets [] = []"

definition padding_of :: "8 word list \<Rightarrow> string" where
  "padding_of xs = (if length xs mod 3 = 1 then ''=='' else if length xs mod 3 = 2 then ''='' else [])"

lemma bit_index_8: "n < 8 \<Longrightarrow> n = 0 \<or> n = 1 \<or> n = 2 \<or> n = 3 \<or> n = 4 \<or> n = 5 \<or> n = 6 \<or> n = (7::nat)"
  by arith

lemma byte_eqI: "(\<And>n. n < 8 \<Longrightarrow> bit (v :: 8 word) n = bit w n) \<Longrightarrow> v = w"
  by (rule bit_word_eqI) simp

lemma sextet_first: "push_bit 2 (drop_bit 2 (a AND 0xFC)) OR drop_bit 4 (drop_bit 4 (b AND 0xF0) OR push_bit 4 (a AND 0x03)) = (a :: 8 word)"
  by (rule byte_eqI, drule bit_index_8, auto simp: bit_simps) (simp_all add: numeral_2_eq_2 numeral_3_eq_3)

lemma sextet_first_end: "push_bit 2 (drop_bit 2 (a AND 0xFC)) OR drop_bit 4 (push_bit 4 (a AND 0x03)) = (a :: 8 word)"
  by (rule byte_eqI, drule bit_index_8, auto simp: bit_simps) (simp_all add: numeral_2_eq_2 numeral_3_eq_3)

lemma sextet_second: "push_bit 4 (drop_bit 4 (b AND 0xF0) OR push_bit 4 (a AND 0x03))
    OR drop_bit 2 (drop_bit 6 (c AND 0xC0) OR push_bit 2 (b AND 0x0F)) = (b :: 8 word)"
  by (rule byte_eqI, drule bit_index_8) (auto simp: bit_simps)

lemma sextet_second_end: "push_bit 4 (drop_bit 4 (b AND 0xF0) OR push_bit 4 (a AND 0x03))
    OR drop_bit 2 (push_bit 2 (b AND 0x0F)) = (b :: 8 word)"
  by (rule byte_eqI, drule bit_index_8) (auto simp: bit_simps)

lemma sextet_third: "push_bit 6 (drop_bit 6 (c AND 0xC0) OR push_bit 2 (b AND 0x0F)) OR (c AND 0x3F) = (c :: 8 word)"
  by (rule byte_eqI, drule bit_index_8) (auto simp: bit_simps)

lemma unbase64_sextets: "unbase64 (sextets xs) = xs"
  by (induction xs rule: sextets.induct)
    (simp_all only: sextets.simps unbase64.simps sextet_first sextet_first_end sextet_second
       sextet_second_end sextet_third)

lemma sextet_bound: "take_bit 6 w = w \<Longrightarrow> unat (w :: 8 word) < 64"
  using take_bit_nat_less_exp [of 6 "unat w"] by (simp flip: unsigned_take_bit_eq)

lemma sextets_low: "w \<in> set (sextets xs) \<Longrightarrow> take_bit 6 w = w"
  by (induction xs rule: sextets.induct)
    (auto intro!: byte_eqI dest!: bit_index_8 simp: bit_simps)

lemma distinct_base64_chars: "distinct base64_chars"
  unfolding base64_chars_def by simp

lemma index_where_nth: "distinct xs \<Longrightarrow> i < length xs \<Longrightarrow> index_where (\<lambda>x. x = xs ! i) xs = Some i"
proof (induction xs arbitrary: i)
  case (Cons x xs)
  then show ?case by (cases i) auto
qed simp

lemma base64_value_char:
  assumes "unat w < 64"
  shows "base64_value (base64_char w) = w"
proof -
  have "length base64_chars = 64" by (simp add: base64_chars_def)
  with index_where_nth [OF distinct_base64_chars, of "unat w"] assms
  show ?thesis by (simp add: base64_value_def base64_char_def)
qed

lemma base64_char_not_pad:
  assumes "unat w < 64"
  shows "base64_char w \<noteq> CHR ''=''"
proof -
  have "length base64_chars = 64" by (simp add: base64_chars_def)
  with assms have "base64_char w \<in> set base64_chars" by (simp add: base64_char_def)
  moreover have "CHR ''='' \<notin> set base64_chars" by (simp add: base64_chars_def)
  ultimately show ?thesis by metis
qed

lemma image_loop_sextets:
  "image_finish padding (foldl image_step \<lparr>enc_state = 0, enc_last = l, enc_out = r\<rparr> xs)
   = r @ map base64_char (sextets xs) @ (if padding then padding_of xs else [])"
proof (induction xs arbitrary: r l rule: sextets.induct)
  case (1 a b c xs)
  have "padding_of (a # b # c # xs) = padding_of xs" by (simp add: padding_of_def mod_Suc)
  with 1 show ?case by (simp only: sextets.simps) (simp add: image_step_def)
next
  case (2 a b)
  show ?case by (simp only: sextets.simps) (simp add: image_step_def image_finish_def padding_of_def)
next
  case (3 a)
  show ?case by (simp only: sextets.simps) (simp add: image_step_def image_finish_def padding_of_def)
qed (simp add: image_finish_def padding_of_def)

lemma length_sextets: "length (sextets xs) + length (padding_of xs) = 4 * ((length xs + 2) div 3)"
proof (induction xs rule: sextets.induct)
  case (1 a b c xs)
  have "padding_of (a # b # c # xs) = padding_of xs" by (simp add: padding_of_def mod_Suc)
  moreover have "(length (a # b # c # xs) + 2) div 3 = Suc ((length xs + 2) div 3)" by simp
  ultimately show ?case using 1 by simp
qed (simp_all add: padding_of_def)

text \<open>
  C37: The base64 round trip. The characters that the encoder appends to a text do not depend on
  the text; decoding them as RFC 4648 says gives the encoded bytes, with and without padding;
  and with padding their number is a multiple of four, four for every three bytes begun.
\<close>

theorem base64_round_trip:
  "imageEncoder object len padding result = result @ imageEncoder object len padding []
   \<and> base64_decode (imageEncoder object len padding []) = take len object
   \<and> length (imageEncoder object (length object) True []) = 4 * ((length object + 2) div 3)"
proof -
  have out: "imageEncoder xs n p r = r @ map base64_char (sextets (take n xs)) @ (if p then padding_of (take n xs) else [])"
    for xs n p r unfolding imageEncoder_def by (rule image_loop_sextets)
  let ?s = "sextets (take len object)"
  have low: "unat w < 64" if "w \<in> set ?s" for w
    using that by (intro sextet_bound sextets_low)
  have "takeWhile (\<lambda>c. c \<noteq> CHR ''='') (map base64_char ?s @ p) = map base64_char ?s @ takeWhile (\<lambda>c. c \<noteq> CHR ''='') p" for p
    by (rule takeWhile_append2) (auto dest: low base64_char_not_pad)
  moreover have "takeWhile (\<lambda>c. c \<noteq> CHR ''='') (if padding then padding_of (take len object) else []) = []"
    by (simp add: padding_of_def)
  moreover have "map base64_value (map base64_char ?s) = ?s"
    by (simp add: map_idI low base64_value_char)
  ultimately have "base64_decode (imageEncoder object len padding []) = take len object"
    by (simp add: base64_decode_def out unbase64_sextets)
  with length_sextets [of object] show ?thesis by (simp add: out)
qed

subsection \<open>White space\<close>

text \<open>
  The text with its terminating zero, read from an index on; a run of blanks is read past
  up to its last one.
\<close>

function collapse :: "string \<Rightarrow> string" where
  "collapse s =
     (case s of [] \<Rightarrow> []
      | c # cs \<Rightarrow> if c = CHR 0x00 then []
                  else c # collapse (if c = CHR '' '' then dropWhile (\<lambda>x. x = CHR '' '') cs else cs))"
  by pat_completeness auto
termination
  by (relation "measure length") (auto intro: le_imp_less_Suc length_dropWhile_le)

declare collapse.simps [simp del]

definition removeExtraWhitespaces :: "string \<Rightarrow> string \<Rightarrow> bool \<times> string" where
  "removeExtraWhitespaces in_str out_str =
     (if in_str \<noteq> [] then (True, out_str @ collapse in_str) else (False, out_str))"

text \<open>Two blanks side by side.\<close>

definition double_blank :: "string" where
  "double_blank = ''  ''"

definition blank :: "char \<Rightarrow> bool" where
  "blank c \<longleftrightarrow> c = CHR '' ''"

lemma collapse_Nil [simp]: "collapse [] = []"
  by (subst collapse.simps) simp

lemma collapse_nonblank: "c \<noteq> CHR 0x00 \<Longrightarrow> \<not> blank c \<Longrightarrow> collapse (c # cs) = c # collapse cs"
  by (subst collapse.simps) (simp add: blank_def)

lemma collapse_blank: "blank c \<Longrightarrow> collapse (c # cs) = c # collapse (dropWhile blank cs)"
  by (subst collapse.simps) (auto simp: blank_def [abs_def])

lemma collapse_nul: "collapse (CHR 0x00 # cs) = []"
  by (subst collapse.simps) simp

lemma collapse_hd: "collapse s \<noteq> [] \<Longrightarrow> hd (collapse s) = hd s"
  by (cases s) (auto simp: collapse.simps split: if_splits)

lemma collapse_no_double: "\<not> sublist double_blank (collapse s)"
proof (induction s rule: collapse.induct)
  case (1 s)
  show ?case
  proof (cases s)
    case (Cons c cs)
    consider "c = CHR 0x00" | "c \<noteq> CHR 0x00" "\<not> blank c" | "blank c" by blast
    then show ?thesis
    proof cases
      case 1
      then show ?thesis using Cons by (simp add: collapse_nul double_blank_def)
    next
      case 2
      then have "\<not> prefix double_blank (c # collapse cs)" by (simp add: double_blank_def blank_def)
      moreover have "\<not> sublist double_blank (collapse cs)" using 1 [OF Cons] 2 by (simp add: blank_def)
      ultimately show ?thesis using 2 Cons by (simp add: collapse_nonblank sublist_Cons_right)
    next
      case 3
      let ?r = "dropWhile blank cs"
      have "collapse ?r = [] \<or> \<not> blank (hd (collapse ?r))"
        using hd_dropWhile [of blank cs] collapse_hd [of ?r] by (metis collapse_Nil)
      then have "\<not> prefix double_blank (c # collapse ?r)"
        by (cases "collapse ?r") (auto simp: double_blank_def blank_def)
      moreover have "\<not> sublist double_blank (collapse ?r)"
        using 1 [OF Cons, unfolded blank_def [symmetric, abs_def]] 3
        by (cases "c = CHR 0x00") (auto simp: blank_def [symmetric, abs_def], simp add: blank_def)
      ultimately show ?thesis using 3 Cons by (simp add: collapse_blank sublist_Cons_right)
    qed
  qed (simp add: double_blank_def)
qed

lemma filter_dropWhile_blank: "filter (\<lambda>c. \<not> blank c) (dropWhile blank s) = filter (\<lambda>c. \<not> blank c) s"
  by (induction s) auto

lemma takeWhile_dropWhile_blank:
  "takeWhile (\<lambda>c. c \<noteq> CHR 0x00) (dropWhile blank s) = dropWhile blank (takeWhile (\<lambda>c. c \<noteq> CHR 0x00) s)"
  by (induction s) (auto simp: blank_def)

lemma collapse_filter:
  "filter (\<lambda>c. \<not> blank c) (collapse s) = filter (\<lambda>c. \<not> blank c) (takeWhile (\<lambda>c. c \<noteq> CHR 0x00) s)"
proof (induction s rule: collapse.induct)
  case (1 s)
  show ?case
  proof (cases s)
    case (Cons c cs)
    consider "c = CHR 0x00" | "c \<noteq> CHR 0x00" "\<not> blank c" | "c \<noteq> CHR 0x00" "blank c" by blast
    then show ?thesis
      using 1 [OF Cons, unfolded blank_def [symmetric, abs_def]] Cons
      by cases (auto simp: collapse_nul collapse_nonblank collapse_blank takeWhile_dropWhile_blank
        filter_dropWhile_blank blank_def [symmetric, abs_def])
  qed simp
qed

text \<open>
  \<open>removeExtraWhitespaces\<close> appends to the output the text up to its first zero byte with
  every run of blanks cut to one: no two blanks stand side by side, and what is not a blank is
  kept in its order. It reports success exactly for a text that is not empty.
\<close>

theorem blank_runs_collapsed:
  "fst (removeExtraWhitespaces s out) = (s \<noteq> [])
   \<and> snd (removeExtraWhitespaces s out) = out @ collapse s
   \<and> \<not> sublist double_blank (collapse s)
   \<and> filter (\<lambda>c. \<not> blank c) (collapse s) = filter (\<lambda>c. \<not> blank c) (takeWhile (\<lambda>c. c \<noteq> CHR 0x00) s)"
  using collapse_no_double collapse_filter by (simp add: removeExtraWhitespaces_def)

lemma ltrim_idem: "ltrim (ltrim s) = ltrim s"
  by (simp add: ltrim_def)

lemma rtrim_idem: "rtrim (rtrim s) = rtrim s"
  by (simp add: rtrim_def)

lemma hd_rtrim: "rtrim s \<noteq> [] \<Longrightarrow> hd (rtrim s) = hd s"
proof -
  assume ne: "rtrim s \<noteq> []"
  have "s = rtrim s @ rev (takeWhile isspace (rev s))"
    unfolding rtrim_def by (metis rev_append rev_rev_ident takeWhile_dropWhile_id)
  with ne show ?thesis by (metis hd_append2)
qed

text \<open>
  Trimming. The result is a part of the text with only blanks around it, neither begins
  nor ends with a blank, and trimming it again changes nothing.
\<close>

theorem trim_cuts_the_ends:
  "\<exists>a b. s = a @ trim s @ b \<and> list_all isspace a \<and> list_all isspace b
     \<and> (trim s = [] \<or> \<not> isspace (hd (trim s)) \<and> \<not> isspace (last (trim s)))
     \<and> trim (trim s) = trim s"
proof -
  let ?t = "ltrim s"
  have t: "s = takeWhile isspace s @ ?t" by (simp add: ltrim_def)
  have r: "?t = trim s @ rev (takeWhile isspace (rev ?t))"
    unfolding trim_def rtrim_def by (metis rev_append rev_rev_ident takeWhile_dropWhile_id)
  have hd: "trim s = [] \<or> \<not> isspace (hd (trim s))"
    unfolding trim_def using hd_rtrim [of ?t] hd_dropWhile [of isspace s] unfolding ltrim_def
    by (metis dropWhile.simps(1) rev.simps(1) rtrim_def)
  have last: "trim s = [] \<or> \<not> isspace (last (trim s))"
    unfolding trim_def rtrim_def using hd_dropWhile [of isspace "rev (ltrim s)"] by (auto simp: last_rev)
  have "ltrim (trim s) = trim s" using hd by (cases "trim s") (auto simp: ltrim_def)
  then have "trim (trim s) = trim s" by (simp add: trim_def rtrim_idem)
  with t r hd last show ?thesis
    by (intro exI [of _ "takeWhile isspace s"] exI [of _ "rev (takeWhile isspace (rev ?t))"])
      (auto simp: list_all_iff dest: set_takeWhileD)
qed

subsection \<open>Numbers\<close>

text \<open>
  The loop over a C string: the first byte is tested before the end is, so that the empty
  text is refused.
\<close>

fun digits_loop :: "string \<Rightarrow> bool" where
  "digits_loop [] = False"
| "digits_loop (c # cs) = (if isdigit c then (if cs = [] then True else digits_loop cs) else False)"

definition isValidUnsignedInt :: "string \<Rightarrow> bool" where
  "isValidUnsignedInt x \<longleftrightarrow> digits_loop x"

definition isValidInt :: "string \<Rightarrow> bool" where
  "isValidInt x \<longleftrightarrow> digits_loop (if x \<noteq> [] \<and> hd x = CHR ''-'' then tl x else x)"

lemma digits_loop_iff: "digits_loop x \<longleftrightarrow> x \<noteq> [] \<and> list_all isdigit x"
  by (induction x) auto

text \<open>
  The tests for numbers. A text passes the test for unsigned numbers exactly when it is a
  non-empty row of digits; every number printed in decimals passes the test for numbers, and
  only a text that \<open>strtol\<close> reads to its end passes it.
\<close>

theorem number_tests:
  "isValidUnsignedInt x = (x \<noteq> [] \<and> list_all isdigit x)
   \<and> isValidInt (to_string i)
   \<and> \<not> (isValidInt x \<and> \<not> strtol_all x)"
proof -
  have "isValidInt (to_string i)"
    using dec_nat_digits [of "nat i"] dec_nat_digits [of "nat (- i)"] dec_nat_not_Nil [of "nat i"] isdigit_not_sign
    by (auto simp: isValidInt_def to_string_def digits_loop_iff list_all_iff)
  moreover have "strtol_all x" if v: "isValidInt x"
  proof (cases x)
    case Nil
    with v show ?thesis by (simp add: isValidInt_def)
  next
    case (Cons c cs)
    with v have "c = CHR ''-'' \<or> isdigit c" by (auto simp: isValidInt_def digits_loop_iff split: if_splits)
    then have "\<not> isspace c" using isdigit_not_space by (auto simp: isspace_def)
    with Cons v show ?thesis
      by (auto simp: isValidInt_def digits_loop_iff strtol_all_def split: if_splits dest: isdigit_not_sign)
  qed
  ultimately show ?thesis by (auto simp: isValidUnsignedInt_def digits_loop_iff)
qed

end
