(* ===== verification/FileTools.thy ===== *)
theory FileTools
  imports FileContent UtilStrings
begin

text \<open>
  The rest of \<open>helpers/UtilsgetFileContent.h\<close> (reading a file, the search with wildcards, the
  expansion of variables) and the helpers for files in \<open>UtilsFile.h\<close> and
  \<open>UtilsSearchRDKProfile.h\<close>.
\<close>

subsection \<open>Reading a file line by line into a buffer\<close>

text \<open>
  \<open>fgets\<close> reads up to a newline, at most one byte less than the buffer holds; the buffer is then
  used as a C string, which ends at its first zero byte.
\<close>

fun fgets_chunk :: "nat \<Rightarrow> string \<Rightarrow> string \<times> string" where
  "fgets_chunk 0 s = ([], s)"
| "fgets_chunk (Suc n) [] = ([], [])"
| "fgets_chunk (Suc n) (c # cs) =
     (if c = newline then ([c], cs) else (let (a, b) = fgets_chunk n cs in (c # a, b)))"

lemma fgets_chunk_append: "fgets_chunk n s = (a, b) \<Longrightarrow> s = a @ b"
  by (induction n s arbitrary: a b rule: fgets_chunk.induct) (auto split: if_splits prod.splits)

lemma fgets_chunk_Nil_iff: "fst (fgets_chunk (Suc n) s) = [] \<longleftrightarrow> s = []"
  by (cases s) (auto split: prod.splits)

lemma fgets_chunk_shorter:
  assumes "fgets_chunk (Suc n) s = (a, b)" and "s \<noteq> []"
  shows "length b < length s"
proof -
  have "a \<noteq> []" using fgets_chunk_Nil_iff [of n s] assms by simp
  with fgets_chunk_append [OF assms(1)] show ?thesis by simp
qed

definition c_string :: "string \<Rightarrow> string" where
  "c_string s = takeWhile (\<lambda>c. c \<noteq> CHR 0x00) s"

function fgets_all :: "nat \<Rightarrow> string \<Rightarrow> string list" where
  "fgets_all n s = (if s = [] then [] else (let (a, b) = fgets_chunk (Suc n) s in a # fgets_all n b))"
  by pat_completeness auto
termination
  by (relation "measure (\<lambda>(n, s). length s)") (auto dest: fgets_chunk_shorter [OF sym])

declare fgets_all.simps [simp del]

definition READ_BUFFER_SIZE :: nat where
  "READ_BUFFER_SIZE = 1024"

text \<open>The file (\<open>None\<close> where it cannot be opened) and the text to append to.\<close>

definition readFileContent :: "string option \<Rightarrow> string \<Rightarrow> bool \<times> string" where
  "readFileContent file content =
     (case file of None \<Rightarrow> (False, content)
      | Some s \<Rightarrow> (let chunks = fgets_all (READ_BUFFER_SIZE - 2) s
                   in (chunks \<noteq> [], content @ concat (map c_string chunks))))"

lemma fgets_all_concat: "concat (fgets_all n s) = s"
proof (induction n s rule: fgets_all.induct)
  case (1 n s)
  show ?case
  proof (cases "s = []")
    case True
    then show ?thesis by (subst fgets_all.simps) simp
  next
    case False
    obtain a b where ab: "fgets_chunk (Suc n) s = (a, b)" by (cases "fgets_chunk (Suc n) s")
    with 1 [OF False ab [symmetric] refl] False fgets_chunk_append [OF ab] show ?thesis
      by (subst fgets_all.simps) simp
  qed
qed

lemma fgets_all_Nil_iff: "fgets_all n s = [] \<longleftrightarrow> s = []"
  by (subst fgets_all.simps) (auto split: prod.splits)

text \<open>
  Reading a file. A file without zero bytes is appended to the text as it is, whatever the
  length of its lines; success is reported exactly where it is not empty.
\<close>

theorem readFileContent_whole_file:
  assumes "CHR 0x00 \<notin> set s"
  shows "readFileContent (Some s) content = (s \<noteq> [], content @ s)"
proof -
  have "c_string a = a" if "a \<in> set (fgets_all n s)" for a n
  proof -
    have "set a \<subseteq> set (concat (fgets_all n s))" using that by auto
    with assms have "CHR 0x00 \<notin> set a" unfolding fgets_all_concat by blast
    then show ?thesis by (auto simp: c_string_def takeWhile_eq_all_conv)
  qed
  then have "map c_string (fgets_all n s) = fgets_all n s" for n by (simp add: map_idI)
  then show ?thesis
    by (simp add: readFileContent_def Let_def fgets_all_concat fgets_all_Nil_iff)
qed

theorem readFileContent_whole_file_witness:
  "readFileContent (Some [CHR ''a'', newline, CHR ''b'']) ''x'' = (True, [CHR ''x'', CHR ''a'', newline, CHR ''b''])"
  by (subst readFileContent_whole_file) simp_all

subsection \<open>The expansion of variables\<close>

text \<open>
  The text before a \<open>$\<close> and the text after it: the pointers of the source. \<open>assign\<close> replaces what
  was expanded before. \<open>None\<close> is the endless recursion of the lookup.
\<close>

definition cut_at :: "(char \<Rightarrow> bool) \<Rightarrow> string \<Rightarrow> (string \<times> string) option" where
  "cut_at p s = (case index_where p s of None \<Rightarrow> None | Some i \<Rightarrow> Some (take i s, drop i s))"

definition expand_delimiter :: "char \<Rightarrow> bool" where
  "expand_delimiter c \<longleftrightarrow> c = CHR '' '' \<or> c = CHR ''/''"

definition is_dollar :: "char \<Rightarrow> bool" where
  "is_dollar c \<longleftrightarrow> c = CHR ''$''"

lemma cut_at_Some: "cut_at p s = Some (a, b) \<Longrightarrow> s = a @ b \<and> b \<noteq> [] \<and> p (hd b) \<and> (\<forall>x\<in>set a. \<not> p x)"
proof -
  assume "cut_at p s = Some (a, b)"
  then obtain i where i: "index_where p s = Some i" and ab: "a = take i s" "b = drop i s"
    by (auto simp: cut_at_def split: option.splits)
  have "i < length s" "p (s ! i)" using index_where_SomeD [OF i] by auto
  moreover have "\<forall>x\<in>set a. \<not> p x"
    using index_where_less [OF i] by (auto simp: ab in_set_conv_nth)
  ultimately show ?thesis by (auto simp: ab hd_drop_conv_nth)
qed

lemma cut_at_None: "cut_at p s = None \<longleftrightarrow> (\<forall>x\<in>set s. \<not> p x)"
  by (simp add: cut_at_def index_where_None [symmetric] split: option.split)

lemma cut_at_append: "\<forall>x\<in>set a. \<not> p x \<Longrightarrow> p c \<Longrightarrow> cut_at p (a @ c # b) = Some (a, c # b)"
  by (simp add: cut_at_def index_where_append)

lemma cut_at_shorter [simp]: "cut_at p s = Some (a, b) \<Longrightarrow> length (tl b) < length s"
  using cut_at_Some [of p s a b] by (cases b) auto

function expand_from :: "nat \<Rightarrow> string option \<Rightarrow> string \<Rightarrow> string \<Rightarrow> (bool \<times> string) option" where
  "expand_from n props pre rest =
     (case cut_at expand_delimiter rest of
        Some (var, tail) \<Rightarrow>
          (case read_property n props var of
             None \<Rightarrow> None
           | Some (False, _) \<Rightarrow> Some (False, pre)
           | Some (True, value) \<Rightarrow>
               (case cut_at is_dollar tail of
                  Some (between, nxt) \<Rightarrow> expand_from n props (pre @ CHR ''$'' # var @ between) (tl nxt)
                | None \<Rightarrow> Some (True, pre @ value @ tail)))
      | None \<Rightarrow>
          (case cut_at is_dollar rest of
             Some (between, nxt) \<Rightarrow> expand_from n props (pre @ CHR ''$'' # between) (tl nxt)
           | None \<Rightarrow> Some (True, pre @ rest)))"
  by pat_completeness auto
termination
  by (relation "measure (\<lambda>(n, f, p, r). length r)") (auto dest!: cut_at_Some simp: neq_Nil_conv)

declare expand_from.simps [simp del]

definition ExpandPropertiesInString :: "nat \<Rightarrow> string \<Rightarrow> string option \<Rightarrow> string \<Rightarrow> (bool \<times> string) option" where
  "ExpandPropertiesInString n input props expanded =
     (case cut_at is_dollar input of
        None \<Rightarrow> Some (True, expanded)
      | Some (pre, nxt) \<Rightarrow> expand_from n props pre (tl nxt))"

text \<open>The last \<open>$\<close> of a text and what stands after it, up to the next blank or slash.\<close>

definition last_variable :: "nat \<Rightarrow> string option \<Rightarrow> string \<Rightarrow> string \<Rightarrow> string option" where
  "last_variable n props pre rest =
     (case cut_at expand_delimiter rest of
        None \<Rightarrow> Some (pre @ rest)
      | Some (var, tail) \<Rightarrow>
          (case read_property n props var of
             Some (True, value) \<Rightarrow> Some (pre @ value @ tail)
           | _ \<Rightarrow> None))"

lemma expand_from_last:
  "expand_from n props pre rest = Some (True, r) \<Longrightarrow>
     \<exists>a b. pre @ CHR ''$'' # rest = a @ CHR ''$'' # b \<and> last_variable n props a b = Some r
       \<and> (case cut_at expand_delimiter b of None \<Rightarrow> \<not> list_ex is_dollar b
            | Some (var, tail) \<Rightarrow> \<not> list_ex is_dollar tail)"
proof (induction n props pre rest rule: expand_from.induct)
  case (1 n props pre rest)
  note prem = "1.prems" [unfolded expand_from.simps [of n props pre rest]]
  show ?case
  proof (cases "cut_at expand_delimiter rest")
    case None
    note none = this
    show ?thesis
    proof (cases "cut_at is_dollar rest")
      case None
      with none prem have r: "r = pre @ rest" by simp
      from None have "\<not> list_ex is_dollar rest" by (simp add: list_ex_iff cut_at_None)
      with none r show ?thesis
        by (intro exI [of _ pre] exI [of _ rest]) (simp add: last_variable_def)
    next
      case (Some q)
      then obtain between nxt where q: "cut_at is_dollar rest = Some (between, nxt)" by (cases q) auto
      have "rest = between @ CHR ''$'' # tl nxt" using cut_at_Some [OF q] by (cases nxt) (auto simp: is_dollar_def)
      with "1.IH"(1) [OF none q refl] prem none q show ?thesis by simp
    qed
  next
    case (Some q)
    then obtain var tail where vt: "cut_at expand_delimiter rest = Some (var, tail)" by (cases q) auto
    have rest: "rest = var @ tail" using cut_at_Some [OF vt] by simp
    obtain v where v: "read_property n props var = Some (True, v)"
      using prem vt by (auto split: option.splits bool.splits)
    show ?thesis
    proof (cases "cut_at is_dollar tail")
      case None
      with vt v prem have r: "r = pre @ v @ tail" by simp
      from None have "\<not> list_ex is_dollar tail" by (simp add: list_ex_iff cut_at_None)
      with vt v r show ?thesis
        by (intro exI [of _ pre] exI [of _ rest]) (simp add: last_variable_def)
    next
      case (Some q)
      then obtain between nxt where q: "cut_at is_dollar tail = Some (between, nxt)" by (cases q) auto
      have "tail = between @ CHR ''$'' # tl nxt" using cut_at_Some [OF q] by (cases nxt) (auto simp: is_dollar_def)
      with "1.IH"(2) [OF vt refl v refl refl q refl] prem vt v q rest show ?thesis by simp
    qed
  qed
qed

text \<open>
  C38: The expansion of variables. Where it succeeds on a text with a \<open>$\<close>, only one variable
  is replaced: the last one (the last \<open>$\<close> that is followed by no other \<open>$\<close> after the next
  blank or slash); the ones before it stay as they are. A variable at the end of the text
  loses its \<open>$\<close> and stays. A text without \<open>$\<close> leaves the output as it was.
\<close>

theorem only_last_variable_expanded:
  assumes "ExpandPropertiesInString n input props e = Some (True, r)"
  shows "if list_ex is_dollar input
    then \<exists>a b. input = a @ CHR ''$'' # b \<and> last_variable n props a b = Some r
       \<and> (case cut_at expand_delimiter b of None \<Rightarrow> \<not> list_ex is_dollar b
            | Some (var, tail) \<Rightarrow> \<not> list_ex is_dollar tail)
    else r = e"
proof (cases "cut_at is_dollar input")
  case None
  then have "\<not> list_ex is_dollar input" by (simp add: list_ex_iff cut_at_None)
  with None assms show ?thesis by (simp add: ExpandPropertiesInString_def)
next
  case (Some q)
  then obtain pre nxt where q: "cut_at is_dollar input = Some (pre, nxt)" by (cases q) auto
  have i: "input = pre @ CHR ''$'' # tl nxt" using cut_at_Some [OF q] by (cases nxt) (auto simp: is_dollar_def)
  then have "list_ex is_dollar input" by (simp add: is_dollar_def)
  with expand_from_last [of n props pre "tl nxt" r] assms q i show ?thesis
    by (simp add: ExpandPropertiesInString_def)
qed

definition sample_props :: string where
  "sample_props = ''A=1'' @ [newline] @ ''B=2'' @ [newline]"

lemma sample_expansion: "ExpandPropertiesInString 3 ''$A/$B/x'' (Some sample_props) [] = Some (True, ''$A/2/x'')"
  by code_simp

theorem only_last_variable_expanded_witness:
  "\<exists>a b. ''$A/$B/x'' = a @ CHR ''$'' # b \<and> last_variable 3 (Some sample_props) a b = Some ''$A/2/x''"
  using only_last_variable_expanded [OF sample_expansion] by (auto simp: is_dollar_def)

subsection \<open>The search with wildcards\<close>

text \<open>
  What the search asks of the system: the entries of a directory in the order of \<open>readdir\<close>
  (\<open>None\<close> where it cannot be opened), \<open>access\<close>, and \<open>std::regex_search\<close> for a pattern.
\<close>

record dir_env =
  de_entries :: "string \<Rightarrow> string list option"
  de_access :: "string \<Rightarrow> bool"
  de_regex :: "string \<Rightarrow> string \<Rightarrow> bool"

text \<open>The two loops that make a pattern for the regular expressions of a name with wildcards.\<close>

fun replace_char :: "char \<Rightarrow> string \<Rightarrow> string \<Rightarrow> string" where
  "replace_char c r [] = []"
| "replace_char c r (x # xs) = (if x = c then r @ replace_char c r xs else x # replace_char c r xs)"

definition wildcard_pattern :: "string \<Rightarrow> string" where
  "wildcard_pattern s =
     replace_char (CHR ''?'') (''['' @ [CHR 0x5E, CHR 0x5C] @ ''n]{1}'')
       (replace_char (CHR ''*'') (''['' @ [CHR 0x5E, CHR 0x5C] @ ''n]*'') s)"

definition has_wildcard :: "string \<Rightarrow> bool" where
  "has_wildcard s \<longleftrightarrow> CHR ''*'' \<in> set s \<or> CHR ''?'' \<in> set s"

definition entry_matches :: "dir_env \<Rightarrow> string list \<Rightarrow> string \<Rightarrow> string \<Rightarrow> bool" where
  "entry_matches D exclusions pat name \<longleftrightarrow>
     name \<noteq> ''.'' \<and> name \<noteq> ''..'' \<and> de_regex D (wildcard_pattern pat) name \<and> name \<notin> set exclusions"

text \<open>The loop over a directory at the last level; the path grows from one match to the next.\<close>

fun leaf_loop :: "dir_env \<Rightarrow> string list \<Rightarrow> string \<Rightarrow> string list \<Rightarrow> string \<Rightarrow> nat \<Rightarrow> string \<Rightarrow> string" where
  "leaf_loop D ex pat [] path count result = result"
| "leaf_loop D ex pat (name # names) path count result =
     (if entry_matches D ex pat name then
        (let path = path @ name in
         if de_access D path then
           (if count + 1 \<ge> 10 then result @ path @ [newline]
            else leaf_loop D ex pat names path (count + 1) (result @ path @ [newline]))
         else leaf_loop D ex pat names path count result)
      else leaf_loop D ex pat names path count result)"

definition dir_path :: "string list \<Rightarrow> nat \<Rightarrow> string" where
  "dir_path pathList depth = ''/'' @ concat (map (\<lambda>p. p @ ''/'') (take depth pathList))"

text \<open>
  The first argument is the number of levels below: \<open>pathList.size() - 1 - currentDepth\<close>.
  \<open>pathList\<close> is passed by reference, so that it is a result, too.
\<close>

primrec searchFilesRec ::
  "nat \<Rightarrow> dir_env \<Rightarrow> string list \<Rightarrow> string list \<Rightarrow> nat \<Rightarrow> string \<Rightarrow> bool \<times> string list \<times> string" where
  "searchFilesRec 0 D ex pathList depth result =
     (let current = pathList ! depth; path = dir_path pathList depth in
      if has_wildcard current then
        (case de_entries D path of
           None \<Rightarrow> (False, pathList, result)
         | Some names \<Rightarrow> (True, pathList, leaf_loop D ex current names path 0 result))
      else if de_access D (path @ current) then (True, pathList, result @ path @ current @ [newline])
      else (True, pathList, result))"
| "searchFilesRec (Suc k) D ex pathList depth result =
     (let current = pathList ! depth; path = dir_path pathList depth in
      if has_wildcard current then
        (case de_entries D path of
           None \<Rightarrow> (False, pathList, result)
         | Some names \<Rightarrow>
             (let (pl, res) = fold (\<lambda>name (pl, res).
                if entry_matches D ex current name
                then snd (searchFilesRec k D ex (pl[depth := name]) (Suc depth) res)
                else (pl, res)) names (pathList, result)
              in (True, pl, res)))
      else (True, snd (searchFilesRec k D ex pathList (Suc depth) result)))"

text \<open>The depths that the caller gives are not used.\<close>

definition searchFiles :: "dir_env \<Rightarrow> string \<Rightarrow> int \<Rightarrow> int \<Rightarrow> string list \<Rightarrow> string \<Rightarrow> bool \<times> string" where
  "searchFiles D inputPath maxDepth minDepth ex result =
     (let pathList = tl (split [] inputPath ''/'') in
      if pathList = [] then (False, result)
      else (let (ok, pl, res) = searchFilesRec (length pathList - 1) D ex pathList 0 result in (ok, res)))"

lemma split_path: "\<forall>n\<in>set names. CHR ''/'' \<notin> set n \<Longrightarrow> names \<noteq> [] \<Longrightarrow>
    tl (split [] (concat (map (\<lambda>n. CHR ''/'' # n) names)) ''/'') = names"
proof -
  let ?p = "\<lambda>c. c \<in> set ''/''"
  have "split_by ?p (n @ concat (map (\<lambda>n. CHR ''/'' # n) ns)) = n # ns"
    if "CHR ''/'' \<notin> set n" "\<forall>n\<in>set ns. CHR ''/'' \<notin> set n" for n ns
    using that
  proof (induction ns arbitrary: n)
    case Nil
    then show ?case by (auto intro!: split_by_none)
  next
    case (Cons m ms)
    then have "split_by ?p (n @ CHR ''/'' # m @ concat (map (\<lambda>n. CHR ''/'' # n) ms)) = n # m # ms"
      by (subst split_by_append) auto
    then show ?case by simp
  qed
  from this [of "[]" names]
  show "\<forall>n\<in>set names. CHR ''/'' \<notin> set n \<Longrightarrow> names \<noteq> [] \<Longrightarrow> ?thesis"
    by (simp add: split_def split_rest_split_by)
qed

lemma search_plain:
  assumes "length pl = depth + Suc k" and "list_all (\<lambda>n. \<not> has_wildcard n) pl"
  shows "searchFilesRec k D ex pl depth result =
    (True, pl, result @ (let p = dir_path pl (depth + k) @ last pl in if de_access D p then p @ [newline] else []))"
  using assms
proof (induction k arbitrary: depth)
  case 0
  then have "pl ! depth = last pl" "\<not> has_wildcard (pl ! depth)"
    by (cases pl rule: rev_cases; auto simp: nth_append list_all_iff)+
  then show ?case by (simp add: Let_def)
next
  case (Suc k)
  then have "\<not> has_wildcard (pl ! depth)" by (auto simp: list_all_length)
  with Suc.IH [of "Suc depth"] Suc.prems show ?case by (simp add: Let_def)
qed

lemma dir_path_full: "pl \<noteq> [] \<Longrightarrow> dir_path pl (length pl - 1) @ last pl = concat (map (\<lambda>n. CHR ''/'' # n) pl)"
proof (induction pl rule: rev_induct)
  case (snoc x xs)
  have "CHR ''/'' # concat (map (\<lambda>p. p @ ''/'') xs) = concat (map (\<lambda>n. CHR ''/'' # n) xs) @ ''/''"
    by (induction xs) auto
  then show ?case by (simp add: dir_path_def)
qed simp

text \<open>
  The search for a path without wildcards. It succeeds, and its result is the path itself where
  it exists and nothing where it does not, whatever the depths and the exclusions.
\<close>

theorem search_without_wildcards:
  assumes "names \<noteq> []" and "\<forall>n\<in>set names. CHR ''/'' \<notin> set n \<and> \<not> has_wildcard n"
    and "path = concat (map (\<lambda>n. CHR ''/'' # n) names)"
  shows "searchFiles D path maxDepth minDepth ex result =
    (True, result @ (if de_access D path then path @ [newline] else []))"
proof -
  have "tl (split [] path ''/'') = names" unfolding assms(3) using assms(1,2) by (intro split_path) auto
  moreover have "length names = 0 + Suc (length names - 1)" using assms(1) by (cases names) auto
  note search_plain [OF this, of D ex result]
  ultimately show ?thesis
    using assms dir_path_full [OF assms(1)] by (simp add: searchFiles_def list_all_iff Let_def)
qed

definition sample_dirs :: dir_env where
  "sample_dirs = \<lparr>de_entries = (\<lambda>d. map_of [(''/'', [''.'', ''..'', ''a1'', ''a2'']), (''/a1/'', [''b1'']), (''/a2/'', [''b2''])] d),
     de_access = (\<lambda>p. p \<in> set [''/a1/b1/c'', ''/a2/b2/c'', ''/a1'', ''/a2'']), de_regex = (\<lambda>p n. True)\<rparr>"

theorem search_without_wildcards_witness:
  "searchFiles sample_dirs ''/a1/b1/c'' 0 0 [] [] = (True, ''/a1/b1/c'' @ [newline])"
  by (subst search_without_wildcards [of "[''a1'', ''b1'', ''c'']"]) (auto simp: has_wildcard_def sample_dirs_def)

text \<open>
  The entries found in the last directory. The \<open>k\<close>th line of the result has the names of all
  entries matched so far one after the other, so that from the second match on it is not the
  path of an entry; the search of a directory stops after ten lines.
\<close>

theorem leaf_search_accumulates:
  assumes "\<forall>p. de_access D p"
  shows "leaf_loop D ex pat names path 0 result =
    result @ concat (map (\<lambda>k. path @ concat (take (Suc k) (filter (entry_matches D ex pat) names)) @ [newline])
      [0..<min 10 (length (filter (entry_matches D ex pat) names))])"
proof -
  have "leaf_loop D ex pat names path c r =
    r @ concat (map (\<lambda>k. path @ concat (take (Suc k) (filter (entry_matches D ex pat) names)) @ [newline])
      [0..<min (10 - c) (length (filter (entry_matches D ex pat) names))])" if "c < 10" for c r
    using that
  proof (induction names arbitrary: path c r)
    case (Cons name names)
    show ?case
    proof (cases "entry_matches D ex pat name")
      case True
      let ?ms = "filter (entry_matches D ex pat) names"
      show ?thesis
      proof (cases "10 \<le> c + 1")
        case True
        with \<open>c < 10\<close> have "c = 9" by simp
        with \<open>entry_matches D ex pat name\<close> assms show ?thesis by (simp add: Let_def min_def)
      next
        case False
        have "map f [0..<Suc m] = f 0 # map (\<lambda>k. f (Suc k)) [0..<m]" for f :: "nat \<Rightarrow> string" and m
          by (simp only: map_upt_Suc)
        moreover have "min (10 - c) (Suc (length ?ms)) = Suc (min (10 - Suc c) (length ?ms))" using False by simp
        ultimately show ?thesis
          using \<open>entry_matches D ex pat name\<close> assms False Cons.IH [of "Suc c" "path @ name"]
          by (simp add: Let_def del: upt_Suc)
      qed
    next
      case False
      with Cons show ?thesis by simp
    qed
  qed simp
  from this [of 0] show ?thesis by simp
qed

theorem leaf_search_accumulates_witness:
  "leaf_loop (sample_dirs\<lparr>de_access := (\<lambda>p. True)\<rparr>) [] ''a?'' [''.'', ''a1'', ''a2''] ''/'' 0 []
   = ''/a1'' @ [newline] @ ''/a1a2'' @ [newline]"
  by (subst leaf_search_accumulates) (auto simp: entry_matches_def sample_dirs_def upt_rec)

text \<open>
  With two wildcards, the search below the second directory looks for the name that
  was found below the first: \<open>/a2/b2/c\<close> matches and is not found.
\<close>

lemma nested_wildcard_lost:
  "searchFiles sample_dirs ''/a?/b?/c'' 0 0 [] [] = (True, ''/a1/b1/c'' @ [newline])
   \<and> de_access sample_dirs ''/a2/b2/c''"
  by code_simp

subsection \<open>Moving a file\<close>

text \<open>
  What \<open>MoveFile\<close> asks of the framework's \<open>File\<close>: whether the source can be opened and the
  target created, how many bytes the \<open>n\<close>th read gives at most and the \<open>n\<close>th write takes at
  most (none on an error).
\<close>

record move_env =
  mv_open :: bool
  mv_create :: bool
  mv_read :: "nat \<Rightarrow> nat"
  mv_write :: "nat \<Rightarrow> nat"

text \<open>Writing a buffer: whether all of it is written, the writes made so far, the target.\<close>

function write_buffer :: "move_env \<Rightarrow> nat \<Rightarrow> string \<Rightarrow> string \<Rightarrow> bool \<times> nat \<times> string" where
  "write_buffer E n buf out =
     (let count = min (mv_write E n) (length buf) in
      if count = 0 then (False, Suc n, out)
      else if drop count buf = [] then (True, Suc n, out @ take count buf)
      else write_buffer E (Suc n) (drop count buf) (out @ take count buf))"
  by pat_completeness auto
termination
  by (relation "measure (\<lambda>(E, n, buf, out). length buf)") auto

declare write_buffer.simps [simp del]

function move_loop :: "move_env \<Rightarrow> nat \<Rightarrow> nat \<Rightarrow> string \<Rightarrow> string \<Rightarrow> bool \<times> string" where
  "move_loop E r w rest out =
     (let len = min (mv_read E r) (min 1024 (length rest)) in
      if len = 0 then (True, out)
      else (case write_buffer E w (take len rest) out of
              (False, _, out) \<Rightarrow> (False, out)
            | (True, w, out) \<Rightarrow> move_loop E (Suc r) w (drop len rest) out))"
  by pat_completeness auto
termination
  by (relation "measure (\<lambda>(E, r, w, rest, out). length rest)") auto

declare move_loop.simps [simp del]

text \<open>The two files before and after (\<open>None\<close> where there is none), and the result.\<close>

definition MoveFile :: "move_env \<Rightarrow> string option \<Rightarrow> string option \<Rightarrow> bool \<times> string option \<times> string option" where
  "MoveFile E src dst =
     (case src of
        None \<Rightarrow> (False, src, dst)
      | Some s \<Rightarrow>
          if dst \<noteq> None \<or> \<not> mv_open E \<or> \<not> mv_create E then (False, src, dst)
          else (case move_loop E 0 0 s [] of
                  (True, out) \<Rightarrow> (True, None, Some out)
                | (False, out) \<Rightarrow> (False, src, None)))"

lemma write_buffer_all: "write_buffer E n buf out = (True, m, out') \<Longrightarrow> out' = out @ buf"
proof (induction E n buf out rule: write_buffer.induct)
  case (1 E n buf out)
  let ?c = "min (mv_write E n) (length buf)"
  from "1.prems" have c: "?c \<noteq> 0" by (subst (asm) write_buffer.simps) (auto simp: Let_def split: if_splits)
  show ?case
  proof (cases "drop ?c buf = []")
    case True
    then have "take ?c buf = buf" by simp
    with True c "1.prems" show ?thesis by (subst (asm) write_buffer.simps) (simp add: Let_def)
  next
    case False
    with c "1.prems" have "write_buffer E (Suc n) (drop ?c buf) (out @ take ?c buf) = (True, m, out')"
      by (subst (asm) write_buffer.simps) (simp add: Let_def)
    from "1.IH" [OF refl c False this] show ?thesis by simp
  qed
qed

lemma move_loop_prefix:
  "move_loop E r w rest out = (True, out') \<Longrightarrow>
     \<exists>a b. rest = a @ b \<and> out' = out @ a \<and> (b = [] \<or> (\<exists>n. mv_read E n = 0))"
proof (induction E r w rest out rule: move_loop.induct)
  case (1 E r w rest out)
  let ?len = "min (mv_read E r) (min 1024 (length rest))"
  show ?case
  proof (cases "?len = 0")
    case True
    with "1.prems" have "out' = out" by (subst (asm) move_loop.simps) (simp add: Let_def)
    moreover have "rest = [] \<or> (\<exists>n. mv_read E n = 0)" using True by (auto simp: min_def split: if_splits)
    ultimately show ?thesis by (intro exI [of _ "[]"] exI [of _ rest]) simp
  next
    case False
    obtain ok w' o' where wb': "write_buffer E w (take ?len rest) out = (ok, w', o')"
      by (cases "write_buffer E w (take ?len rest) out") auto
    have "move_loop E r w rest out = (if ok then move_loop E (Suc r) w' (drop ?len rest) o' else (False, o'))"
      unfolding move_loop.simps [of E r w rest out] Let_def if_not_P [OF False] wb' by (cases ok) simp_all
    with "1.prems" have ok: ok and ml: "move_loop E (Suc r) w' (drop ?len rest) o' = (True, out')"
      by (auto split: if_splits)
    from wb' ok have wb: "write_buffer E w (take ?len rest) out = (True, w', o')" by simp
    have o': "o' = out @ take ?len rest" using write_buffer_all [OF wb] .
    obtain a b where "drop ?len rest = a @ b" "out' = o' @ a" "b = [] \<or> (\<exists>n. mv_read E n = 0)"
      using "1.IH" [OF refl False wb [symmetric] refl refl ml] by blast
    then show ?thesis
      using append_take_drop_id [of ?len rest] o'
      by (intro exI [of _ "take ?len rest @ a"] exI [of _ b]) (metis append.assoc)
  qed
qed

text \<open>
  Moving a file. Where it fails, both files are as before. Where it succeeds, there was no target,
  the source is gone and the target is its beginning; the whole of it where no read gives
  nothing before the end. (A failing read counts as the end of the file, so that the source is
  destroyed with the rest of it.)
\<close>

theorem MoveFile_all_or_nothing:
  assumes "MoveFile E src dst = (ok, src', dst')"
  shows "(if ok then dst = None \<and> src' = None
            \<and> (\<exists>s out rest. src = Some s \<and> dst' = Some out \<and> s = out @ rest \<and> (rest = [] \<or> (\<exists>n. mv_read E n = 0)))
          else src' = src \<and> dst' = dst)"
proof (cases src)
  case None
  with assms show ?thesis by (auto simp: MoveFile_def)
next
  case (Some s)
  show ?thesis
  proof (cases "dst \<noteq> None \<or> \<not> mv_open E \<or> \<not> mv_create E")
    case True
    with Some assms show ?thesis by (auto simp: MoveFile_def)
  next
    case False
    obtain b out where ml: "move_loop E 0 0 s [] = (b, out)" by (cases "move_loop E 0 0 s []")
    show ?thesis
    proof (cases b)
      case True
      with move_loop_prefix [of E 0 0 s "[]" out] ml obtain rest where
        "s = out @ rest" "rest = [] \<or> (\<exists>n. mv_read E n = 0)" by auto
      with False Some ml True assms show ?thesis by (auto simp: MoveFile_def)
    next
      case b: False
      with False Some ml assms show ?thesis by (auto simp: MoveFile_def)
    qed
  qed
qed

definition sample_move :: "nat \<Rightarrow> move_env" where
  "sample_move n = \<lparr>mv_open = True, mv_create = True, mv_read = (\<lambda>r. if r < n then 1024 else 0), mv_write = (\<lambda>w. 2)\<rparr>"

lemma sample_move_run: "MoveFile (sample_move 1) (Some ''abc'') None = (True, None, Some ''abc'')"
  by code_simp

theorem MoveFile_all_or_nothing_witness:
  "\<exists>out rest. Some ''abc'' = Some out \<and> ''abc'' = out @ (rest :: string)"
  using MoveFile_all_or_nothing [OF sample_move_run] by auto

subsection \<open>The last line, and the profile\<close>

text \<open>The result and the output; the output is only written where a line is found.\<close>

definition getLastLine :: "string \<Rightarrow> string \<Rightarrow> bool \<times> string" where
  "getLastLine input res =
     (if input \<noteq> []
      then foldl (\<lambda>(ok, r) line. if line \<noteq> [] then (True, line) else (ok, r)) (False, res) (getlines input)
      else (False, res))"

datatype profile = NOT_FOUND | STB | TV | PROFILE_MAX

fun find_profile :: "string list \<Rightarrow> string option" where
  "find_profile [] = None"
| "find_profile (line # rest) =
     (case find_str line ''RDK_PROFILE='' of
        Some i \<Rightarrow> Some (drop (i + length ''RDK_PROFILE='') line)
      | None \<Rightarrow> find_profile rest)"

text \<open>The file \<open>/etc/device.properties\<close>, read into a buffer of 256 bytes.\<close>

definition searchRdkProfile :: "string option \<Rightarrow> profile" where
  "searchRdkProfile props =
     (case props of None \<Rightarrow> NOT_FOUND
      | Some s \<Rightarrow>
          (case find_profile (map c_string (fgets_all 254 s)) of
             Some p \<Rightarrow> (if starts_with p ''TV'' then TV else if starts_with p ''STB'' then STB else NOT_FOUND)
           | None \<Rightarrow> NOT_FOUND))"

lemma foldl_last_nonempty:
  "foldl (\<lambda>(ok, r) line. if line \<noteq> [] then (True, line) else (ok, r)) (b, r0) ls =
     (b \<or> filter (\<lambda>l. l \<noteq> []) ls \<noteq> [], last (r0 # filter (\<lambda>l. l \<noteq> []) ls))"
  by (induction ls arbitrary: b r0) auto

text \<open>
  The last line. The result is the last line that is not empty, where there is one; otherwise
  failure is reported and the output is left alone.
\<close>

theorem getLastLine_last_nonempty:
  "getLastLine input res =
     (filter (\<lambda>l. l \<noteq> []) (getlines input) \<noteq> [], last (res # filter (\<lambda>l. l \<noteq> []) (getlines input)))"
proof (cases "input = []")
  case True
  then show ?thesis by (simp add: getLastLine_def getlines_def Let_def)
next
  case False
  then show ?thesis by (simp only: getLastLine_def foldl_last_nonempty) simp
qed

text \<open>A line that fits the buffer is read in one piece.\<close>

lemma fgets_chunk_line:
  "newline \<notin> set l \<Longrightarrow> length l < n \<Longrightarrow> fgets_chunk n (l @ newline # s) = (l @ [newline], s)"
proof (induction l arbitrary: n)
  case Nil
  then show ?case by (cases n) auto
next
  case (Cons c l)
  then show ?case by (cases n) auto
qed

lemma fgets_all_line:
  assumes "newline \<notin> set l" and "length l \<le> n"
  shows "fgets_all n (l @ newline # s) = (l @ [newline]) # fgets_all n s"
proof -
  have "fgets_chunk (Suc n) (l @ newline # s) = (l @ [newline], s)"
    using assms by (intro fgets_chunk_line) auto
  then show ?thesis by (subst fgets_all.simps) simp
qed

lemma find_str_prefix: "find_str (k @ r) k = Some 0"
  by (subst find_str.simps) simp

lemma c_string_id: "CHR 0x00 \<notin> set s \<Longrightarrow> c_string s = s"
  by (auto simp: c_string_def takeWhile_eq_all_conv)

text \<open>
  The profile of the device. With lines that fit the buffer, the first line that has
  \<open>RDK_PROFILE=\<close> decides: the value that begins with \<open>TV\<close> or \<open>STB\<close>. The lines before it
  and the lines after it do not matter.
\<close>

theorem profile_of_first_line:
  assumes "\<forall>l\<in>set before. newline \<notin> set l \<and> CHR 0x00 \<notin> set l \<and> length l \<le> 254 \<and> \<not> has_str (l @ [newline]) ''RDK_PROFILE=''"
    and "newline \<notin> set v" and "CHR 0x00 \<notin> set v" and "length v \<le> 242"
  shows "searchRdkProfile (Some (concat (map (\<lambda>l. l @ [newline]) before) @ ''RDK_PROFILE='' @ v @ newline # rest)) =
    (if starts_with (v @ [newline]) ''TV'' then TV else if starts_with (v @ [newline]) ''STB'' then STB else NOT_FOUND)"
proof -
  let ?k = "''RDK_PROFILE=''"
  have last: "fgets_all 254 (?k @ v @ newline # rest) = (?k @ v @ [newline]) # fgets_all 254 rest"
    using fgets_all_line [of "?k @ v" 254 rest] assms(2,4) by simp
  have c: "c_string (?k @ v @ [newline]) = ?k @ v @ [newline]"
    using assms(3) by (intro c_string_id) auto
  have "find_profile (map c_string (fgets_all 254 (concat (map (\<lambda>l. l @ [newline]) before) @ ?k @ v @ newline # rest)))
      = Some (v @ [newline])"
    using assms(1)
  proof (induction before)
    case Nil
    have "find_profile ((?k @ v @ [newline]) # ls) = Some (v @ [newline])" for ls
      using find_str_prefix [of ?k "v @ [newline]"] by simp
    then show ?case by (simp add: last c del: append_Cons)
  next
    case (Cons l ls)
    then have "c_string (l @ [newline]) = l @ [newline]" "find_str (l @ [newline]) ?k = None"
      by (auto intro!: c_string_id simp: has_str_def)
    moreover have "fgets_all 254 (l @ newline # s) = (l @ [newline]) # fgets_all 254 s" for s
      using Cons.prems by (intro fgets_all_line) auto
    ultimately show ?case using Cons by simp
  qed
  then show ?thesis by (simp add: searchRdkProfile_def)
qed

theorem profile_of_first_line_witness:
  "searchRdkProfile (Some (concat (map (\<lambda>l. l @ [newline]) [''A=1'']) @ ''RDK_PROFILE='' @ ''STB'' @ newline # [])) = STB"
  by (subst profile_of_first_line) (simp_all add: starts_with_def has_str_def find_str.simps)

end
