(* ===== verification/Validators.thy ===== *)
theory Validators
  imports CxxStrings "HOL-Library.Char_ord" "HOL-Library.List_Lexorder"
begin

text \<open>
  \<open>helpers/UtilsInputValidator.h\<close>: expected values (\<open>ExpectedValues\<close>), validators of a type
  (\<open>Validator\<close>), and the manager that keeps validators under names. The templates are
  taken at the types \<open>int\<close> and \<open>std::string\<close>, whose values are the type \<open>val\<close>;
  \<open>std::regex_match\<close> is a parameter.
\<close>

subsection \<open>Values\<close>

datatype val = V_int int | V_str string

datatype val_type = T_int | T_str

definition type_of :: "val \<Rightarrow> val_type" where
  "type_of v = (case v of V_int _ \<Rightarrow> T_int | V_str _ \<Rightarrow> T_str)"

text \<open>The order of a type; values of different types are never compared.\<close>

fun val_le :: "val \<Rightarrow> val \<Rightarrow> bool" where
  "val_le (V_int a) (V_int b) = (a \<le> b)"
| "val_le (V_str a) (V_str b) = (a \<le> b)"
| "val_le _ _ = False"

fun val_text :: "val \<Rightarrow> string" where
  "val_text (V_int i) = to_string i"
| "val_text (V_str s) = s"

subsection \<open>Expected values\<close>

datatype expected_type = EV_None | EV_Discrete | EV_Range | EV_RegExp

text \<open>All members are there whatever the type is; the set of values is a list.\<close>

record expected =
  m_type :: expected_type
  m_min :: val
  m_max :: val
  m_values :: "val list"
  m_regex :: string

text \<open>The members that a constructor does not set; the range then has no value to rely on.\<close>

definition ev_blank :: "expected" where
  "ev_blank = \<lparr>m_type = EV_None, m_min = V_int 0, m_max = V_int 0, m_values = [], m_regex = []\<rparr>"

definition ev_range :: "val \<Rightarrow> val \<Rightarrow> expected" where
  "ev_range lo hi = ev_blank\<lparr>m_type := EV_Range, m_min := lo, m_max := hi\<rparr>"

definition ev_regex :: "string \<Rightarrow> expected" where
  "ev_regex r = ev_blank\<lparr>m_type := EV_RegExp, m_regex := r\<rparr>"

definition ev_values :: "val list \<Rightarrow> expected" where
  "ev_values vs = ev_blank\<lparr>m_type := EV_Discrete, m_values := vs\<rparr>"

text \<open>The constructors from C strings leave null pointers out.\<close>

definition ev_c_strings :: "string option list \<Rightarrow> expected" where
  "ev_c_strings cs = ev_blank\<lparr>m_type := EV_Discrete,
     m_values := fold (\<lambda>c vs. case c of None \<Rightarrow> vs | Some s \<Rightarrow> vs @ [V_str s]) cs []\<rparr>"

definition ev_validate :: "(string \<Rightarrow> string \<Rightarrow> bool) \<Rightarrow> expected \<Rightarrow> val \<Rightarrow> bool" where
  "ev_validate rx e v =
     (case m_type e of
        EV_Discrete \<Rightarrow> v \<in> set (m_values e)
      | EV_Range \<Rightarrow> val_le (m_min e) v \<and> val_le v (m_max e)
      | EV_RegExp \<Rightarrow> rx (m_regex e) (val_text v)
      | EV_None \<Rightarrow> True)"

definition ev_validate_c :: "(string \<Rightarrow> string \<Rightarrow> bool) \<Rightarrow> expected \<Rightarrow> string option \<Rightarrow> bool" where
  "ev_validate_c rx e c = (case c of None \<Rightarrow> False | Some s \<Rightarrow> ev_validate rx e (V_str s))"

text \<open>The copying assignment adds the values of a discrete copy to those that are there.\<close>

definition ev_copy_assign :: "expected \<Rightarrow> expected \<Rightarrow> expected" where
  "ev_copy_assign self copy =
     (let self = self\<lparr>m_type := m_type copy\<rparr> in
      case m_type self of
        EV_Discrete \<Rightarrow> self\<lparr>m_values := fold List.insert (m_values copy) (m_values self)\<rparr>
      | EV_Range \<Rightarrow> self\<lparr>m_min := m_min copy, m_max := m_max copy\<rparr>
      | EV_RegExp \<Rightarrow> self\<lparr>m_regex := m_regex copy\<rparr>
      | EV_None \<Rightarrow> self)"

definition ev_copy :: "expected \<Rightarrow> expected" where
  "ev_copy copy = ev_copy_assign ev_blank copy"

text \<open>The moving assignment: both objects afterwards.\<close>

definition ev_move_assign :: "expected \<Rightarrow> expected \<Rightarrow> expected \<times> expected" where
  "ev_move_assign self copy =
     (let s = self\<lparr>m_type := m_type copy\<rparr>; c = copy\<lparr>m_type := m_type self\<rparr> in
      case m_type s of
        EV_Discrete \<Rightarrow> (s\<lparr>m_values := m_values c\<rparr>, c\<lparr>m_values := []\<rparr>)
      | EV_Range \<Rightarrow> (s\<lparr>m_min := m_min c, m_max := m_max c\<rparr>, c)
      | EV_RegExp \<Rightarrow> (s\<lparr>m_regex := m_regex c\<rparr>, c\<lparr>m_regex := []\<rparr>)
      | EV_None \<Rightarrow> (s, c))"

definition ev_move :: "expected \<Rightarrow> expected" where
  "ev_move copy = fst (ev_move_assign ev_blank copy)"

subsection \<open>Validators and the manager\<close>

datatype check = UseExpectedValues expected | CustomValidation "val \<Rightarrow> bool" | NoValidation

record validator =
  va_type :: val_type
  va_check :: check

definition va_validate :: "(string \<Rightarrow> string \<Rightarrow> bool) \<Rightarrow> validator \<Rightarrow> val \<Rightarrow> bool" where
  "va_validate rx w v =
     (case va_check w of
        CustomValidation f \<Rightarrow> f v
      | UseExpectedValues e \<Rightarrow> ev_validate rx e v
      | NoValidation \<Rightarrow> False)"

definition va_expected :: "val_type \<Rightarrow> expected \<Rightarrow> validator" where
  "va_expected t e = \<lparr>va_type = t, va_check = UseExpectedValues (ev_move (ev_move e))\<rparr>"

definition va_custom :: "val_type \<Rightarrow> (val \<Rightarrow> bool) \<Rightarrow> validator" where
  "va_custom t f = \<lparr>va_type = t, va_check = CustomValidation f\<rparr>"

type_synonym manager = "string \<Rightarrow> validator list option"

definition addValidator :: "string \<Rightarrow> validator \<Rightarrow> manager \<Rightarrow> manager" where
  "addValidator name w m = m(name \<mapsto> (case m name of None \<Rightarrow> [] | Some ws \<Rightarrow> ws) @ [w])"

text \<open>The loop of \<open>validate\<close>; a validator of another type is a failure.\<close>

fun validate_loop :: "(string \<Rightarrow> string \<Rightarrow> bool) \<Rightarrow> validator list \<Rightarrow> val \<Rightarrow> bool" where
  "validate_loop rx [] v = True"
| "validate_loop rx (w # ws) v =
     (if va_type w \<noteq> type_of v \<or> \<not> va_validate rx w v then False else validate_loop rx ws v)"

definition validate :: "(string \<Rightarrow> string \<Rightarrow> bool) \<Rightarrow> manager \<Rightarrow> string \<Rightarrow> val \<Rightarrow> bool" where
  "validate rx m name v = (case m name of None \<Rightarrow> False | Some ws \<Rightarrow> validate_loop rx ws v)"

definition validate_c :: "(string \<Rightarrow> string \<Rightarrow> bool) \<Rightarrow> manager \<Rightarrow> string \<Rightarrow> string option \<Rightarrow> bool" where
  "validate_c rx m name c = (case c of None \<Rightarrow> False | Some s \<Rightarrow> validate rx m name (V_str s))"

definition accepts :: "(string \<Rightarrow> string \<Rightarrow> bool) \<Rightarrow> validator \<Rightarrow> val \<Rightarrow> bool" where
  "accepts rx w v \<longleftrightarrow> va_type w = type_of v \<and> va_validate rx w v"

lemma validate_loop_all: "validate_loop rx ws v \<longleftrightarrow> list_all (\<lambda>w. accepts rx w v) ws"
  by (induction ws) (auto simp: accepts_def)

text \<open>
  The validation of a value. Exactly the values are valid that every validator of the name
  accepts, each of them a validator of the value's type; under a name without validators
  nothing is valid. A validator that is added to a name only restricts what is valid
  under it, and changes nothing under another name.
\<close>

theorem validation_by_all:
  "validate rx m name v = (case m name of None \<Rightarrow> False | Some ws \<Rightarrow> list_all (\<lambda>w. accepts rx w v) ws)
   \<and> validate rx (addValidator name w m) name v = ((if m name = None then True else validate rx m name v) \<and> accepts rx w v)
   \<and> (if other = name then True else validate rx (addValidator name w m) other v = validate rx m other v)"
  by (auto simp: validate_def addValidator_def validate_loop_all split: option.split)

lemma expected_move: "ev_validate rx (ev_move e) v = ev_validate rx e v"
  by (cases "m_type e") (auto simp: ev_move_def ev_move_assign_def ev_validate_def ev_blank_def)

text \<open>A validator for expected values accepts what they accept.\<close>

lemma va_expected_validate: "va_validate rx (va_expected t e) v = ev_validate rx e v"
  by (simp add: va_validate_def va_expected_def expected_move)

text \<open>
  Expected values and their copies. A copy, and an object moved into a new one, accept what the original does;
  a discrete set assigned to an object that had one accepts the values of both.
\<close>

theorem expected_values_copied:
  "ev_validate rx (ev_copy e) v = ev_validate rx e v
   \<and> ev_validate rx (ev_move e) v = ev_validate rx e v
   \<and> ev_validate rx (ev_copy_assign (ev_values vs) (ev_values ws)) v = (v \<in> set vs \<union> set ws)
   \<and> ev_validate rx (fst (ev_move_assign (ev_values vs) (ev_values ws))) v = (v \<in> set ws)"
proof -
  have ins: "set (fold List.insert xs ys) = set xs \<union> set ys" for xs ys :: "val list"
    by (induction xs arbitrary: ys) auto
  show ?thesis
    by (cases "m_type e")
      (auto simp: ev_copy_def ev_move_def ev_move_assign_def ev_copy_assign_def ev_values_def
        ev_validate_def ev_blank_def ins)
qed

end
