(* ===== verification/SysTools.thy ===== *)
theory SysTools
  imports CxxStrings
begin

text \<open>
  Helpers around the framework: the timer of \<open>tptimer.h\<close>, the connection to the IARM bus
  (\<open>UtilsIarm.h\<close>), the API lock (\<open>UtilsSynchro.hpp\<close>), references to interfaces
  (\<open>PluginInterfaceBuilder.h\<close>), the security token and the state of services
  (\<open>UtilsController.h\<close>), and processes (\<open>UtilsProcess.h\<close>). The framework, the bus and
  the system are parameters.
\<close>

subsection \<open>The timer\<close>

text \<open>
  \<open>TpTimer\<close>: what can be called on it; a callback is the list of calls it makes on the timer
  itself. \<open>tp_scheduled\<close> has the delays for which the framework's timer holds the job.
\<close>

datatype tp_call = T_Stop | T_Start | T_StartMs int | T_SetSingleShot bool | T_SetInterval int
  | T_Connect "tp_call list"

record tptimer =
  tp_scheduled :: "int list"
  tp_active :: bool
  tp_single :: bool
  tp_interval :: int
  tp_callback :: "tp_call list option"

definition TpTimer :: tptimer where
  "TpTimer = \<lparr>tp_scheduled = [], tp_active = False, tp_single = False, tp_interval = - 1, tp_callback = None\<rparr>"

definition tp_stop :: "tptimer \<Rightarrow> tptimer" where
  "tp_stop s = s\<lparr>tp_scheduled := [], tp_active := False\<rparr>"

definition tp_start :: "tptimer \<Rightarrow> tptimer" where
  "tp_start s = s\<lparr>tp_scheduled := [tp_interval s], tp_active := True\<rparr>"

definition tp_do :: "tp_call \<Rightarrow> tptimer \<Rightarrow> tptimer" where
  "tp_do c s =
     (case c of
        T_Stop \<Rightarrow> tp_stop s
      | T_Start \<Rightarrow> tp_start s
      | T_StartMs ms \<Rightarrow> tp_start (s\<lparr>tp_interval := ms\<rparr>)
      | T_SetSingleShot b \<Rightarrow> s\<lparr>tp_single := b\<rparr>
      | T_SetInterval ms \<Rightarrow> s\<lparr>tp_interval := ms\<rparr>
      | T_Connect cs \<Rightarrow> s\<lparr>tp_callback := Some cs\<rparr>)"

definition Timed :: "tptimer \<Rightarrow> tptimer" where
  "Timed s =
     (let s = (case tp_callback s of Some cs \<Rightarrow> fold tp_do cs s | None \<Rightarrow> s)
      in if tp_active s then (if tp_single s then tp_stop s else tp_start s) else s)"

text \<open>A call from outside, or the expiry of what is scheduled.\<close>

datatype tp_event = TE_Call tp_call | TE_Expired

definition tp_step :: "tp_event \<Rightarrow> tptimer \<Rightarrow> tptimer option" where
  "tp_step e s =
     (case e of
        TE_Call c \<Rightarrow> Some (tp_do c s)
      | TE_Expired \<Rightarrow> (case tp_scheduled s of [] \<Rightarrow> None | d # ds \<Rightarrow> Some (Timed (s\<lparr>tp_scheduled := ds\<rparr>))))"

definition tp_inv :: "tptimer \<Rightarrow> bool" where
  "tp_inv s \<longleftrightarrow> length (tp_scheduled s) \<le> 1 \<and> (tp_active s \<longleftrightarrow> tp_scheduled s \<noteq> [])"

lemma tp_inv_do: "tp_inv s \<Longrightarrow> tp_inv (tp_do c s)"
  by (cases c) (auto simp: tp_do_def tp_stop_def tp_start_def tp_inv_def)

text \<open>While the callback runs, the expired job is no longer scheduled and the timer may be active.\<close>

lemma tp_do_short: "length (tp_scheduled s) \<le> 1 \<and> (tp_scheduled s \<noteq> [] \<longrightarrow> tp_active s) \<Longrightarrow>
    length (tp_scheduled (tp_do c s)) \<le> 1 \<and> (tp_scheduled (tp_do c s) \<noteq> [] \<longrightarrow> tp_active (tp_do c s))"
  by (cases c) (auto simp: tp_do_def tp_stop_def tp_start_def)

lemma tp_fold_short: "length (tp_scheduled s) \<le> 1 \<and> (tp_scheduled s \<noteq> [] \<longrightarrow> tp_active s) \<Longrightarrow>
    length (tp_scheduled (fold tp_do cs s)) \<le> 1 \<and> (tp_scheduled (fold tp_do cs s) \<noteq> [] \<longrightarrow> tp_active (fold tp_do cs s))"
proof (induction cs arbitrary: s)
  case (Cons c cs)
  show ?case using Cons.IH [OF tp_do_short [OF Cons.prems, of c]] by simp
qed simp

lemma tp_inv_Timed: "tp_inv s \<Longrightarrow> tp_inv (Timed (s\<lparr>tp_scheduled := []\<rparr>))"
  using tp_fold_short [of "s\<lparr>tp_scheduled := []\<rparr>"]
  by (auto simp: Timed_def Let_def tp_inv_def tp_stop_def tp_start_def split: option.split)

interpretation tpt: transition_system "\<lambda>s. s = TpTimer" tp_step tp_inv
proof
  show "tp_inv s" if "s = TpTimer" for s using that by (simp add: tp_inv_def TpTimer_def)
  show "tp_inv t" if "tp_inv s" "tp_step e s = Some t" for s t :: tptimer and e
    using that
    by (cases "tp_scheduled s"; cases "tl (tp_scheduled s)")
      (auto simp: tp_step_def tp_inv_do tp_inv_def [of s] intro: tp_inv_Timed [unfolded tp_inv_def [of s]] split: tp_event.splits)
qed



text \<open>
  The expiry of a timer. If the callback has not stopped the timer, a periodic timer is scheduled again with the
  interval that is set then; a single-shot timer is not active after the expiry, even if its
  callback has started it again.
\<close>

theorem timer_expiry:
  assumes "tp_step TE_Expired s = Some t" and "tp_active s"
  shows "(let u = (case tp_callback s of Some cs \<Rightarrow> fold tp_do cs (s\<lparr>tp_scheduled := tl (tp_scheduled s)\<rparr>)
                     | None \<Rightarrow> s\<lparr>tp_scheduled := tl (tp_scheduled s)\<rparr>)
    in if tp_active u \<and> \<not> tp_single u then t = u\<lparr>tp_scheduled := [tp_interval u]\<rparr>
       else if tp_active u then \<not> tp_active t \<and> tp_scheduled t = []
       else t = u)"
  using assms
  by (cases "tp_scheduled s")
    (auto simp: tp_step_def Timed_def Let_def tp_start_def tp_stop_def split: option.splits)

theorem timer_expiry_witness:
  "\<exists>t. tp_step TE_Expired \<lparr>tp_scheduled = [5], tp_active = True, tp_single = True, tp_interval = 5,
         tp_callback = Some [T_StartMs 7]\<rparr> = Some t \<and> \<not> tp_active t"
proof -
  let ?s = "\<lparr>tp_scheduled = [5], tp_active = True, tp_single = True, tp_interval = 5, tp_callback = Some [T_StartMs 7]\<rparr>"
  obtain t where "tp_step TE_Expired ?s = Some t" by (simp add: tp_step_def)
  with timer_expiry [OF this] show ?thesis by (auto simp: tp_do_def tp_start_def)
qed

subsection \<open>The connection to the IARM bus\<close>

datatype iarm_result = IARM_SUCCESS | IARM_INVALID_STATE | IARM_OTHER

definition iarm_fine :: "iarm_result \<Rightarrow> bool" where
  "iarm_fine r \<longleftrightarrow> r = IARM_SUCCESS \<or> r = IARM_INVALID_STATE"

text \<open>
  The bus: the results of the \<open>n\<close>th \<open>IARM_Bus_Init\<close> and \<open>IARM_Bus_Connect\<close>, and whether it then
  reports the process as registered. \<open>ib_connected_first\<close> is its answer before the first attempt.
\<close>

record iarm_bus =
  ib_connected_first :: bool
  ib_init :: "nat \<Rightarrow> iarm_result"
  ib_connect :: "nat \<Rightarrow> iarm_result"
  ib_connected :: "nat \<Rightarrow> bool"

definition iarm_attempt :: "iarm_bus \<Rightarrow> nat \<Rightarrow> bool" where
  "iarm_attempt B n =
     (if iarm_fine (ib_init B n)
      then (if iarm_fine (ib_connect B n) then ib_connected B n else False)
      else False)"

text \<open>The loop, for the \<open>n\<close>th attempt with \<open>k\<close> more allowed: the result and the number of attempts.\<close>

fun iarm_loop :: "iarm_bus \<Rightarrow> nat \<Rightarrow> nat \<Rightarrow> bool \<times> nat" where
  "iarm_loop B n 0 = (iarm_attempt B n, Suc n)"
| "iarm_loop B n (Suc k) = (if iarm_attempt B n then (True, Suc n) else iarm_loop B (Suc n) k)"

definition iarm_init :: "iarm_bus \<Rightarrow> bool \<times> nat" where
  "iarm_init B = (if ib_connected_first B then (True, 0) else iarm_loop B 0 20)"

lemma iarm_loop_result:
  "fst (iarm_loop B n k) = (\<exists>j<Suc k. iarm_attempt B (n + j)) \<and> snd (iarm_loop B n k) \<le> Suc (n + k)"
proof (induction k arbitrary: n)
  case 0
  then show ?case by simp
next
  case (Suc k)
  show ?case using Suc.IH [of "Suc n"] ex_less_Suc_shift [of "Suc k" "iarm_attempt B" n] by auto
qed

text \<open>
  The connection to the bus. \<open>init\<close> succeeds exactly where the process is connected already or
  one of 21 attempts initialises, connects and finds itself connected; there are never more.
\<close>

theorem iarm_init_attempts:
  "fst (iarm_init B) = (ib_connected_first B \<or> (\<exists>n<21. iarm_attempt B n)) \<and> snd (iarm_init B) \<le> 21"
  using iarm_loop_result [of B 0 20] by (auto simp: iarm_init_def)

subsection \<open>The API lock\<close>

text \<open>
  One thread: the recursive mutex by the number of times it holds it, and the thread-local
  flag. A locked method sets the flag and takes the lock, at its end clears the flag and
  releases the lock; the guard releases the lock for its scope, at both ends if the flag
  is set. To release a mutex that is not held is undefined: \<open>None\<close>.
\<close>

record api_thread =
  at_depth :: nat
  at_flag :: bool

datatype api_action = A_Call | A_Return | A_Unguard | A_Reguard

definition api_release :: "api_thread \<Rightarrow> api_thread option" where
  "api_release s = (if at_depth s = 0 then None else Some (s\<lparr>at_depth := at_depth s - 1\<rparr>))"

fun api_step :: "api_action \<Rightarrow> api_thread \<Rightarrow> api_thread option" where
  "api_step A_Call s = Some (s\<lparr>at_flag := True, at_depth := Suc (at_depth s)\<rparr>)"
| "api_step A_Return s = api_release (s\<lparr>at_flag := False\<rparr>)"
| "api_step A_Unguard s = (if at_flag s then api_release s else Some s)"
| "api_step A_Reguard s = Some (if at_flag s then s\<lparr>at_depth := Suc (at_depth s)\<rparr> else s)"

text \<open>The steps of a method that uses the guard \<open>n\<close> times, without another locked method inside.\<close>

definition guarded_method :: "nat \<Rightarrow> api_action list" where
  "guarded_method n = A_Call # concat (replicate n [A_Unguard, A_Reguard]) @ [A_Return]"

text \<open>The same with a locked method called inside the guard's scope, as the guard is there to allow.\<close>

definition reentered_method :: "api_action list" where
  "reentered_method = [A_Call, A_Unguard, A_Call, A_Return, A_Reguard, A_Return]"

lemma guard_scopes:
  "run_events api_step (concat (replicate n [A_Unguard, A_Reguard])) \<lparr>at_depth = Suc d, at_flag = True\<rparr>
   = Some \<lparr>at_depth = Suc d, at_flag = True\<rparr>"
  by (induction n) (simp_all add: api_release_def)

text \<open>
  The API lock. A locked method that uses the guard any number of times ends with the lock
  as it found it and the flag clear, and within the guard's scope does not hold the lock. But if
  inside the scope the thread calls a locked method of the same class, the flag is cleared by
  that method's end, the guard does not take the lock again, and the outer method releases a
  mutex that it does not hold.
\<close>

theorem api_lock_balance:
  "run_events api_step (guarded_method n) \<lparr>at_depth = 0, at_flag = f\<rparr> = Some \<lparr>at_depth = 0, at_flag = False\<rparr>
   \<and> run_events api_step [A_Call, A_Unguard] \<lparr>at_depth = 0, at_flag = f\<rparr> = Some \<lparr>at_depth = 0, at_flag = True\<rparr>
   \<and> run_events api_step reentered_method \<lparr>at_depth = 0, at_flag = f\<rparr> = None"
  using run_events_then [OF guard_scopes [of n 0], of "[A_Return]"]
  by (simp add: guarded_method_def reentered_method_def api_release_def)

subsection \<open>Locked handlers of bus events\<close>

text \<open>
  \<open>UtilsSynchroIarm.hpp\<close>: the handlers by owner and event; \<open>None\<close> is no entry. The bus sends the
  events it has a registration for. An event waits for the lock, so that its handler may be
  removed before it is looked up: \<open>operator[]\<close> then makes an entry with a null pointer, which
  is called. \<open>ih_called\<close> are the handlers called, newest first.
\<close>

record iarm_handlers =
  ih_map :: "string \<Rightarrow> nat \<Rightarrow> nat option"
  ih_bus :: "(string \<times> nat) list"
  ih_waiting :: "(string \<times> nat) list"
  ih_called :: "nat list"
  ih_null :: bool

definition ih_start :: iarm_handlers where
  "ih_start = \<lparr>ih_map = (\<lambda>o' e. None), ih_bus = [], ih_waiting = [], ih_called = [], ih_null = False\<rparr>"

definition ih_put :: "string \<Rightarrow> nat \<Rightarrow> nat option \<Rightarrow> iarm_handlers \<Rightarrow> iarm_handlers" where
  "ih_put own ev h s = s\<lparr>ih_map := (ih_map s)(own := (ih_map s own)(ev := h))\<rparr>"

definition RegisterLockedIarmEventHandler :: "string \<Rightarrow> nat \<Rightarrow> nat \<Rightarrow> iarm_handlers \<Rightarrow> iarm_handlers" where
  "RegisterLockedIarmEventHandler own ev h s =
     (ih_put own ev (Some h) s)\<lparr>ih_bus := List.insert (own, ev) (ih_bus s)\<rparr>"

definition RemoveLockedEventHandler :: "string \<Rightarrow> nat \<Rightarrow> iarm_handlers \<Rightarrow> iarm_handlers" where
  "RemoveLockedEventHandler own ev s =
     (ih_put own ev None s)\<lparr>ih_bus := removeAll (own, ev) (ih_bus s)\<rparr>"

definition generic_iarm_handler :: "string \<Rightarrow> nat \<Rightarrow> iarm_handlers \<Rightarrow> iarm_handlers" where
  "generic_iarm_handler own ev s =
     (case ih_map s own ev of
        Some h \<Rightarrow> s\<lparr>ih_called := h # ih_called s\<rparr>
      | None \<Rightarrow> s\<lparr>ih_null := True\<rparr>)"

text \<open>An event comes from the bus; it gets the lock; a handler is registered or removed.\<close>

datatype ih_event = H_Arrive string nat | H_Locked | H_Register string nat nat | H_Remove string nat

definition ih_step :: "ih_event \<Rightarrow> iarm_handlers \<Rightarrow> iarm_handlers option" where
  "ih_step e s =
     (case e of
        H_Arrive own ev \<Rightarrow> if (own, ev) \<in> set (ih_bus s) then Some (s\<lparr>ih_waiting := ih_waiting s @ [(own, ev)]\<rparr>) else None
      | H_Locked \<Rightarrow> (case ih_waiting s of [] \<Rightarrow> None
          | (own, ev) # rest \<Rightarrow> Some (generic_iarm_handler own ev (s\<lparr>ih_waiting := rest\<rparr>)))
      | H_Register own ev h \<Rightarrow> Some (RegisterLockedIarmEventHandler own ev h s)
      | H_Remove own ev \<Rightarrow> Some (RemoveLockedEventHandler own ev s))"

definition ih_inv :: "iarm_handlers \<Rightarrow> bool" where
  "ih_inv s \<longleftrightarrow> (\<forall>own ev. (own, ev) \<in> set (ih_bus s) \<longleftrightarrow> ih_map s own ev \<noteq> None)"

lemma ih_inv_step: "ih_inv s \<Longrightarrow> ih_step e s = Some t \<Longrightarrow> ih_inv t"
  by (auto simp: ih_step_def ih_inv_def RegisterLockedIarmEventHandler_def RemoveLockedEventHandler_def
    ih_put_def generic_iarm_handler_def split: ih_event.splits if_splits list.splits option.splits)

interpretation ihs: transition_system "\<lambda>s. s = ih_start" ih_step ih_inv
proof
  show "ih_inv s" if "s = ih_start" for s using that by (simp add: ih_inv_def ih_start_def)
qed (rule ih_inv_step)

text \<open>
  Locked handlers. The bus has a registration exactly for the events that have a handler, so that an
  event that gets the lock at once is handled; one that waits while its handler is removed calls
  a null pointer.
\<close>

theorem locked_handlers:
  assumes "run_events ih_step es ih_start = Some s"
    and "ih_map s own ev = Some h" and "ih_waiting s = []"
  shows "map_option ih_called (run_events ih_step [H_Arrive own ev, H_Locked] s) = Some (h # ih_called s)
    \<and> map_option ih_null (run_events ih_step [H_Arrive own ev, H_Remove own ev, H_Locked] s) = Some True"
proof -
  have "ih_inv s" by (rule ihs.reached_invariant [OF refl assms(1)])
  with assms(2) have "(own, ev) \<in> set (ih_bus s)" by (simp add: ih_inv_def)
  with assms(2,3) show ?thesis
    by (simp add: ih_step_def generic_iarm_handler_def RemoveLockedEventHandler_def ih_put_def)
qed

theorem locked_handlers_witness:
  "\<exists>s. run_events ih_step [H_Register ''o'' 1 5] ih_start = Some s
     \<and> map_option ih_called (run_events ih_step [H_Arrive ''o'' 1, H_Locked] s) = Some [5]"
proof -
  let ?s = "RegisterLockedIarmEventHandler ''o'' 1 5 ih_start"
  have "run_events ih_step [H_Register ''o'' 1 5] ih_start = Some ?s" by (simp add: ih_step_def)
  moreover have "ih_map ?s ''o'' 1 = Some 5" "ih_waiting ?s = []" "ih_called ?s = []"
    by (simp_all add: RegisterLockedIarmEventHandler_def ih_put_def ih_start_def)
  ultimately show ?thesis using locked_handlers [of "[H_Register ''o'' 1 5]" ?s "''o''" 1 5] by auto
qed

subsection \<open>References to interfaces\<close>

text \<open>
  \<open>PluginInterfaceRef\<close>: an interface by its number, and the references counted for each. A query of the
  framework gives an interface with \<open>q\<close> references taken for the caller.
\<close>

type_synonym ref_counts = "nat \<Rightarrow> int"

definition AddRef :: "nat \<Rightarrow> ref_counts \<Rightarrow> ref_counts" where
  "AddRef i c = c(i := c i + 1)"

definition Release :: "nat \<Rightarrow> ref_counts \<Rightarrow> ref_counts" where
  "Release i c = c(i := c i - 1)"

definition createInterface :: "bool \<Rightarrow> nat option \<Rightarrow> int \<Rightarrow> ref_counts \<Rightarrow> nat option \<times> ref_counts" where
  "createInterface has_controller found q c =
     (if \<not> has_controller then (None, c)
      else (case found of None \<Rightarrow> (None, c) | Some i \<Rightarrow> (Some i, AddRef i (c(i := c i + q)))))"

text \<open>The builder; its version and time-out are not passed to the query.\<close>

record iface_builder =
  b_callsign :: string
  b_service :: bool
  b_version :: nat
  b_timeout :: nat

definition PluginInterfaceBuilder :: "string \<Rightarrow> iface_builder" where
  "PluginInterfaceBuilder callsign =
     \<lparr>b_callsign = callsign, b_service = False, b_version = 2 ^ 32 - 1, b_timeout = 3000\<rparr>"

definition withVersion :: "nat \<Rightarrow> iface_builder \<Rightarrow> iface_builder" where
  "withVersion v b = b\<lparr>b_version := v\<rparr>"

definition withTimeout :: "nat \<Rightarrow> iface_builder \<Rightarrow> iface_builder" where
  "withTimeout t b = b\<lparr>b_timeout := t\<rparr>"

definition withIShell :: "bool \<Rightarrow> iface_builder \<Rightarrow> iface_builder" where
  "withIShell service b = b\<lparr>b_service := service\<rparr>"

definition build_interface ::
  "iface_builder \<Rightarrow> (string \<Rightarrow> nat option) \<Rightarrow> int \<Rightarrow> ref_counts \<Rightarrow> nat option \<times> ref_counts" where
  "build_interface b query q c = createInterface (b_service b) (query (b_callsign b)) q c"

lemma builder_ignores_version:
  "build_interface (withIShell sv (withTimeout t (withVersion v (PluginInterfaceBuilder n)))) query q c
   = build_interface (withIShell sv (PluginInterfaceBuilder n)) query q c"
  by (simp add: build_interface_def withIShell_def withTimeout_def withVersion_def PluginInterfaceBuilder_def)

definition ref_reset :: "nat option \<Rightarrow> ref_counts \<Rightarrow> nat option \<times> ref_counts" where
  "ref_reset r c = (case r of None \<Rightarrow> (None, c) | Some i \<Rightarrow> (None, Release i c))"

text \<open>The target and the source of a move assignment, when they are different objects.\<close>

definition ref_move_assign :: "nat option \<Rightarrow> nat option \<Rightarrow> nat option \<times> nat option" where
  "ref_move_assign target source = (source, None)"

text \<open>
  References to interfaces. A reference that is created and then reset leaves as many references
  as the query took for its caller: none only if the query takes none. A reference that is
  assigned another one loses its interface without releasing it.
\<close>

theorem interface_references:
  "snd (ref_reset (fst (createInterface True (Some i) q c)) (snd (createInterface True (Some i) q c))) i = c i + q
   \<and> (let (t, s) = ref_move_assign (Some i) (Some j)
      in snd (ref_reset s (snd (ref_reset t c))) = c(j := c j - 1))"
  by (simp add: createInterface_def ref_reset_def ref_move_assign_def AddRef_def Release_def)

subsection \<open>The security token and services\<close>

text \<open>
  The request for the controller's configuration: whether it could be set up and made, its
  code and the subsystems of its answer (\<open>None\<close> where there is no such list). Then
  the static variables of \<open>getSecurityToken\<close>: the token kept and whether it has been looked for. The
  answers of the controller (is there security) and of the agent (\<open>None\<close> on an error).
\<close>

record token_state =
  tk_token :: string
  tk_checked :: bool

definition getSecurityToken :: "bool \<Rightarrow> string option \<Rightarrow> string \<Rightarrow> token_state \<Rightarrow> string \<times> token_state" where
  "getSecurityToken configured answer token s =
     (if tk_checked s then (tk_token s, s)
      else let s = s\<lparr>tk_checked := True\<rparr> in
        if \<not> configured then (tk_token s, s)
        else (case answer of None \<Rightarrow> (token, s) | Some t \<Rightarrow> (t, s\<lparr>tk_token := t\<rparr>)))"

definition isThunderSecurityConfigured :: "bool \<Rightarrow> bool \<Rightarrow> int \<Rightarrow> string list option \<Rightarrow> bool" where
  "isThunderSecurityConfigured handle_ok perform_ok http_code subsystems =
     (let ok = (if handle_ok then perform_ok else True);
          code = (if handle_ok then http_code else 0)
      in if ok \<and> code = 200
         then (case subsystems of None \<Rightarrow> False | Some l \<Rightarrow> list_ex (\<lambda>s. s = ''Security'') l)
         else False)"

datatype service_error = SVC_NONE | SVC_UNAVAILABLE | SVC_other nat

text \<open>The interface of the service, \<open>None\<close> where it is not there: its state, the result of activating it.\<close>

definition getServiceState :: "'s option \<Rightarrow> 's \<Rightarrow> service_error \<times> 's" where
  "getServiceState iface state = (case iface of None \<Rightarrow> (SVC_UNAVAILABLE, state) | Some s \<Rightarrow> (SVC_NONE, s))"

definition activatePlugin :: "service_error option \<Rightarrow> service_error" where
  "activatePlugin iface = (case iface of None \<Rightarrow> SVC_UNAVAILABLE | Some r \<Rightarrow> r)"

text \<open>
  The security token. The first call decides: every later call gives the token that the first call
  got, and the empty token for ever if it got none.
\<close>

theorem token_of_first_call:
  "fst (getSecurityToken cf' an' tok' (snd (getSecurityToken cf an tok \<lparr>tk_token = [], tk_checked = False\<rparr>)))
   = (if cf then (case an of None \<Rightarrow> [] | Some t \<Rightarrow> t) else [])"
  by (simp add: getSecurityToken_def Let_def split: option.split)

subsection \<open>Processes\<close>

record process =
  pr_tid :: int
  pr_ppid :: int
  pr_cmd :: string

text \<open>
  The table of processes (\<open>None\<close> where it cannot be opened) and whether a signal can be sent
  to a process; the result and the processes that got the signal.
\<close>

definition killProcess :: "(int \<Rightarrow> bool) \<Rightarrow> process list option \<Rightarrow> string \<Rightarrow> bool \<times> int list" where
  "killProcess can_kill table name =
     (case table of None \<Rightarrow> (False, [])
      | Some ps \<Rightarrow> fold (\<lambda>p (b, ks).
          if pr_cmd p = name then (if can_kill (pr_tid p) then (True, ks @ [pr_tid p]) else (b, ks)) else (b, ks))
          ps (False, []))"

definition getChildProcessIDs :: "process list option \<Rightarrow> int \<Rightarrow> int list \<Rightarrow> bool \<times> int list" where
  "getChildProcessIDs table ppid ids =
     (case table of None \<Rightarrow> (False, ids)
      | Some ps \<Rightarrow> fold (\<lambda>p (b, ks). if pr_ppid p = ppid then (True, ks @ [pr_tid p]) else (b, ks)) ps (False, ids))"

lemma fold_select:
  "fold (\<lambda>p (b, ks). if P p then (True, ks @ [f p]) else (b, ks)) ps (b, ks)
   = (b \<or> list_ex P ps, ks @ map f (filter P ps))"
  by (induction ps arbitrary: b ks) auto

lemma fold_select_nested:
  "fold (\<lambda>p (b, ks). if P p then (if Q p then (True, ks @ [f p]) else (b, ks)) else (b, ks)) ps (b, ks)
   = (b \<or> list_ex (\<lambda>p. P p \<and> Q p) ps, ks @ map f (filter (\<lambda>p. P p \<and> Q p) ps))"
  by (induction ps arbitrary: b ks) auto

text \<open>
  Processes. The signal goes to the processes of the given name that can get it, the children listed are
  those with the given parent, in the order of the table; the results say whether there are any.
\<close>

theorem processes_selected:
  "killProcess can_kill (Some ps) name =
     (list_ex (\<lambda>p. pr_cmd p = name \<and> can_kill (pr_tid p)) ps,
      map pr_tid (filter (\<lambda>p. pr_cmd p = name \<and> can_kill (pr_tid p)) ps))
   \<and> getChildProcessIDs (Some ps) ppid ids =
     (list_ex (\<lambda>p. pr_ppid p = ppid) ps, ids @ map pr_tid (filter (\<lambda>p. pr_ppid p = ppid) ps))"
  by (simp add: killProcess_def getChildProcessIDs_def fold_select fold_select_nested)

end
