(* ===== verification/ApiLocks.thy ===== *)
theory ApiLocks
  imports SwuPrelude
begin

text \<open>
  \<open>helpers/UtilsSynchro.hpp\<close> with any number of threads and classes: the recursive mutex of each
  class, the thread-local flag, and the scopes that each thread has open.
\<close>

subsection \<open>State\<close>

text \<open>
  Classes and threads are numbers. A scope is a locked method (\<open>getFunctionToCall\<close>), an
  \<open>UnlockApiGuard\<close> with whether its constructor has released the mutex, or a \<open>LockApiGuard\<close> with
  whether it owns the mutex. The innermost scope comes first. \<open>al_broken\<close>: a thread has
  unlocked a mutex that it does not own, which is undefined.
\<close>

datatype scope = S_Method nat | S_Unlocked nat bool | S_Locked nat bool

record api_locks =
  al_mutex :: "nat \<Rightarrow> (nat \<times> nat) option"
  al_flag :: "nat \<Rightarrow> bool"
  al_scopes :: "nat \<Rightarrow> scope list"
  al_broken :: bool

definition al_start :: api_locks where
  "al_start = \<lparr>al_mutex = (\<lambda>_. None), al_flag = (\<lambda>_. False), al_scopes = (\<lambda>_. []), al_broken = False\<rparr>"

subsection \<open>Operations\<close>

text \<open>\<open>std::recursive_mutex::lock\<close>; \<open>None\<close> where another thread owns it.\<close>

definition mutex_lock :: "nat \<Rightarrow> nat \<Rightarrow> api_locks \<Rightarrow> api_locks option" where
  "mutex_lock t c s =
     (case al_mutex s c of
        None \<Rightarrow> Some (s\<lparr>al_mutex := (al_mutex s)(c \<mapsto> (t, 1))\<rparr>)
      | Some (owner, n) \<Rightarrow> if owner = t then Some (s\<lparr>al_mutex := (al_mutex s)(c \<mapsto> (t, Suc n))\<rparr>) else None)"

definition mutex_unlock :: "nat \<Rightarrow> nat \<Rightarrow> api_locks \<Rightarrow> api_locks" where
  "mutex_unlock t c s =
     (case al_mutex s c of
        None \<Rightarrow> s\<lparr>al_broken := True\<rparr>
      | Some (owner, n) \<Rightarrow>
          if owner \<noteq> t then s\<lparr>al_broken := True\<rparr>
          else s\<lparr>al_mutex := (al_mutex s)(c := if n \<le> 1 then None else Some (t, n - 1))\<rparr>)"

definition set_flag :: "nat \<Rightarrow> bool \<Rightarrow> api_locks \<Rightarrow> api_locks" where
  "set_flag t b s = s\<lparr>al_flag := (al_flag s)(t := b)\<rparr>"

definition set_scopes :: "nat \<Rightarrow> scope list \<Rightarrow> api_locks \<Rightarrow> api_locks" where
  "set_scopes t sc s = s\<lparr>al_scopes := (al_scopes s)(t := sc)\<rparr>"

text \<open>
  The function made by \<open>getFunctionToCall\<close>: it sets the flag and locks; at its end, also by an
  exception, it clears the flag and unlocks.
\<close>

definition call_enter :: "nat \<Rightarrow> nat \<Rightarrow> api_locks \<Rightarrow> api_locks option" where
  "call_enter t c s = map_option (\<lambda>u. set_scopes t (S_Method c # al_scopes u t) u) (mutex_lock t c (set_flag t True s))"

definition call_leave :: "nat \<Rightarrow> nat \<Rightarrow> scope list \<Rightarrow> api_locks \<Rightarrow> api_locks" where
  "call_leave t c rest s = set_scopes t rest (mutex_unlock t c (set_flag t False s))"

text \<open>Both ends of an \<open>UnlockApiGuard\<close> look at the flag as it then is.\<close>

definition guard_enter :: "nat \<Rightarrow> nat \<Rightarrow> api_locks \<Rightarrow> api_locks" where
  "guard_enter t c s = set_scopes t (S_Unlocked c (al_flag s t) # al_scopes s t)
     (if al_flag s t then mutex_unlock t c s else s)"

definition guard_leave :: "nat \<Rightarrow> nat \<Rightarrow> scope list \<Rightarrow> api_locks \<Rightarrow> api_locks option" where
  "guard_leave t c rest s = map_option (set_scopes t rest) (if al_flag s t then mutex_lock t c s else Some s)"

text \<open>\<open>LockApiGuard\<close>: constructor, \<open>unlock\<close>, \<open>lock\<close>, destructor.\<close>

definition lock_enter :: "nat \<Rightarrow> nat \<Rightarrow> api_locks \<Rightarrow> api_locks option" where
  "lock_enter t c s = map_option (\<lambda>u. set_scopes t (S_Locked c True # al_scopes u t) u) (mutex_lock t c s)"

definition lock_release :: "nat \<Rightarrow> nat \<Rightarrow> scope list \<Rightarrow> api_locks \<Rightarrow> api_locks" where
  "lock_release t c rest s = set_scopes t (S_Locked c False # rest) (mutex_unlock t c s)"

definition lock_again :: "nat \<Rightarrow> nat \<Rightarrow> scope list \<Rightarrow> api_locks \<Rightarrow> api_locks option" where
  "lock_again t c rest s = map_option (set_scopes t (S_Locked c True # rest)) (mutex_lock t c s)"

definition lock_leave :: "nat \<Rightarrow> nat \<Rightarrow> bool \<Rightarrow> scope list \<Rightarrow> api_locks \<Rightarrow> api_locks" where
  "lock_leave t c owns rest s = set_scopes t rest (if owns then mutex_unlock t c s else s)"

subsection \<open>The machine\<close>

text \<open>A thread opens or closes a scope, or uses the innermost \<open>LockApiGuard\<close>.\<close>

datatype api_event = AE_Call nat nat | AE_Guard nat nat | AE_Lock nat nat | AE_Leave nat
  | AE_Unlock nat | AE_Relock nat

definition api_locks_step :: "api_event \<Rightarrow> api_locks \<Rightarrow> api_locks option" where
  "api_locks_step e s =
     (case e of
        AE_Call t c \<Rightarrow> call_enter t c s
      | AE_Guard t c \<Rightarrow> Some (guard_enter t c s)
      | AE_Lock t c \<Rightarrow> lock_enter t c s
      | AE_Leave t \<Rightarrow> (case al_scopes s t of [] \<Rightarrow> None
          | S_Method c # rest \<Rightarrow> Some (call_leave t c rest s)
          | S_Unlocked c b # rest \<Rightarrow> guard_leave t c rest s
          | S_Locked c b # rest \<Rightarrow> Some (lock_leave t c b rest s))
      | AE_Unlock t \<Rightarrow> (case al_scopes s t of S_Locked c True # rest \<Rightarrow> Some (lock_release t c rest s) | _ \<Rightarrow> None)
      | AE_Relock t \<Rightarrow> (case al_scopes s t of S_Locked c False # rest \<Rightarrow> lock_again t c rest s | _ \<Rightarrow> None))"

text \<open>
  The use that the guard is safe for: it is opened in a locked method of its own class, and
  inside it nothing of the kind is opened.
\<close>

definition proper_event :: "api_event \<Rightarrow> api_locks \<Rightarrow> bool" where
  "proper_event e s =
     (case e of
        AE_Call t c \<Rightarrow> (case al_scopes s t of S_Unlocked d b # _ \<Rightarrow> False | _ \<Rightarrow> True)
      | AE_Guard t c \<Rightarrow> (case al_scopes s t of S_Method d # _ \<Rightarrow> d = c | _ \<Rightarrow> False)
      | AE_Lock t c \<Rightarrow> (case al_scopes s t of S_Unlocked d b # _ \<Rightarrow> False | _ \<Rightarrow> True)
      | _ \<Rightarrow> True)"

definition proper_step :: "api_event \<Rightarrow> api_locks \<Rightarrow> api_locks option" where
  "proper_step e s = (if proper_event e s then api_locks_step e s else None)"

subsection \<open>Who owns what\<close>

text \<open>How often the open scopes of a thread hold the mutex of a class.\<close>

fun holds :: "nat \<Rightarrow> scope list \<Rightarrow> nat" where
  "holds c [] = 0"
| "holds c (S_Method d # sc) = (if d = c then Suc (holds c sc) else holds c sc)"
| "holds c (S_Locked d b # sc) = (if d = c \<and> b then Suc (holds c sc) else holds c sc)"
| "holds c (S_Unlocked d b # sc) = (if d = c \<and> b then holds c sc - 1 else holds c sc)"

text \<open>Guards are innermost scopes, in a method of their class, and agree with the flag.\<close>

fun no_guard :: "scope \<Rightarrow> bool" where
  "no_guard (S_Unlocked c b) = False"
| "no_guard _ = True"

fun scopes_ok :: "bool \<Rightarrow> scope list \<Rightarrow> bool" where
  "scopes_ok fl (S_Unlocked c b # sc) =
     (b = fl \<and> list_all no_guard sc \<and> (case sc of S_Method d # _ \<Rightarrow> d = c | _ \<Rightarrow> False))"
| "scopes_ok fl sc = list_all no_guard sc"

definition owned :: "nat \<Rightarrow> nat \<Rightarrow> api_locks \<Rightarrow> nat" where
  "owned t c s = (case al_mutex s c of Some (owner, n) \<Rightarrow> if owner = t then n else 0 | None \<Rightarrow> 0)"

definition locks_inv :: "api_locks \<Rightarrow> bool" where
  "locks_inv s \<longleftrightarrow> \<not> al_broken s
     \<and> (\<forall>t c. holds c (al_scopes s t) = owned t c s)
     \<and> (\<forall>t. scopes_ok (al_flag s t) (al_scopes s t))
     \<and> (\<forall>c owner n. al_mutex s c = Some (owner, n) \<longrightarrow> 0 < n)"

text \<open>The mutex counts: owned by one thread at a time, and never zero times.\<close>

definition counts_ok :: "api_locks \<Rightarrow> bool" where
  "counts_ok s \<longleftrightarrow> (\<forall>c owner n. al_mutex s c = Some (owner, n) \<longrightarrow> 0 < n)"

lemma mutex_lock_effect:
  assumes "counts_ok s" and "mutex_lock t c s = Some u"
  shows "counts_ok u" "al_flag u = al_flag s" "al_scopes u = al_scopes s" "al_broken u = al_broken s"
    "owned t' c' u = owned t' c' s + (if t' = t \<and> c' = c then 1 else 0)"
  using assms by (auto simp: mutex_lock_def counts_ok_def owned_def split: option.splits if_splits)

lemma mutex_unlock_effect:
  assumes "counts_ok s" and "0 < owned t c s"
  shows "counts_ok (mutex_unlock t c s)" "al_flag (mutex_unlock t c s) = al_flag s"
    "al_scopes (mutex_unlock t c s) = al_scopes s" "al_broken (mutex_unlock t c s) = al_broken s"
    "owned t' c' (mutex_unlock t c s) = owned t' c' s - (if t' = t \<and> c' = c then 1 else 0)"
  using assms by (auto simp: mutex_unlock_def counts_ok_def owned_def split: option.splits if_splits)

lemma locks_inv_counts: "locks_inv s \<longleftrightarrow> \<not> al_broken s \<and> counts_ok s
    \<and> (\<forall>t c. holds c (al_scopes s t) = owned t c s) \<and> (\<forall>t. scopes_ok (al_flag s t) (al_scopes s t))"
  by (auto simp: locks_inv_def counts_ok_def)

lemma owned_setters [simp]: "owned t c (set_flag t' b s) = owned t c s" "owned t c (set_scopes t' sc s) = owned t c s"
  "counts_ok (set_flag t' b s) = counts_ok s" "counts_ok (set_scopes t' sc s) = counts_ok s"
  by (simp_all add: owned_def counts_ok_def set_flag_def set_scopes_def)

lemma setter_fields [simp]:
  "al_scopes (set_scopes t sc s) = (al_scopes s)(t := sc)" "al_flag (set_scopes t sc s) = al_flag s"
  "al_broken (set_scopes t sc s) = al_broken s" "al_scopes (set_flag t b s) = al_scopes s"
  "al_flag (set_flag t b s) = (al_flag s)(t := b)" "al_broken (set_flag t b s) = al_broken s"
  by (simp_all add: set_scopes_def set_flag_def)

lemma no_guards_ok: "list_all no_guard sc \<Longrightarrow> scopes_ok fl sc"
  by (cases "(fl, sc)" rule: scopes_ok.cases) auto

lemma scopes_ok_no_guards:
  "scopes_ok fl sc \<Longrightarrow> (case sc of S_Unlocked d b # _ \<Rightarrow> False | _ \<Rightarrow> True) \<Longrightarrow> list_all no_guard sc"
  by (cases "(fl, sc)" rule: scopes_ok.cases) auto

lemma scopes_ok_tail: "scopes_ok fl (x # sc) \<Longrightarrow> list_all no_guard sc"
  by (cases x) auto

lemma holds_top:
  "0 < holds c (S_Method c # sc)" "0 < holds c (S_Locked c True # sc)" by simp_all

subsection \<open>Proper use keeps the invariant\<close>

text \<open>What remains to be shown of a step that changes the scopes of one thread.\<close>

lemma locks_inv_change:
  assumes "locks_inv s" and "counts_ok u" and "\<not> al_broken u"
    and "\<And>t'. t' \<noteq> t \<Longrightarrow> al_scopes u t' = al_scopes s t' \<and> al_flag u t' = al_flag s t'"
    and "\<And>t' c'. t' \<noteq> t \<Longrightarrow> owned t' c' u = owned t' c' s"
    and "\<And>c'. holds c' (al_scopes u t) = owned t c' u"
    and "scopes_ok (al_flag u t) (al_scopes u t)"
  shows "locks_inv u"
proof -
  have "holds c' (al_scopes u t') = owned t' c' u" for t' c'
    using assms by (cases "t' = t") (auto simp: locks_inv_counts)
  moreover have "scopes_ok (al_flag u t') (al_scopes u t')" for t'
    using assms by (cases "t' = t") (auto simp: locks_inv_counts)
  ultimately show ?thesis using assms(2,3) by (simp add: locks_inv_counts)
qed

lemma locks_inv_owned: "locks_inv s \<Longrightarrow> owned t c s = holds c (al_scopes s t)"
  by (simp add: locks_inv_counts)

lemma locks_inv_scopes: "locks_inv s \<Longrightarrow> scopes_ok (al_flag s t) (al_scopes s t)"
  by (simp add: locks_inv_counts)

lemma locks_inv_unbroken: "locks_inv s \<Longrightarrow> \<not> al_broken s"
  by (simp add: locks_inv_counts)

lemma locks_inv_counts_ok: "locks_inv s \<Longrightarrow> counts_ok s"
  by (simp add: locks_inv_counts)

lemma call_enter_inv:
  assumes "locks_inv s" and "proper_event (AE_Call t c) s" and "call_enter t c s = Some u"
  shows "locks_inv u"
proof -
  obtain v where v: "mutex_lock t c (set_flag t True s) = Some v" "u = set_scopes t (S_Method c # al_scopes v t) v"
    using assms(3) by (auto simp: call_enter_def)
  have c: "counts_ok (set_flag t True s)" using assms(1) by (simp add: locks_inv_counts)
  note e = mutex_lock_effect [OF c v(1)]
  have g: "list_all no_guard (al_scopes s t)"
    using assms(1,2) scopes_ok_no_guards [of "al_flag s t" "al_scopes s t"]
    by (simp add: locks_inv_scopes proper_event_def)
  show ?thesis
    using e g locks_inv_owned [OF assms(1)] locks_inv_unbroken [OF assms(1)]
    by (intro locks_inv_change [OF assms(1), where t = t]) (simp_all add: v(2))
qed

lemma guard_enter_inv:
  assumes "locks_inv s" and "proper_event (AE_Guard t c) s"
  shows "locks_inv (guard_enter t c s)"
proof -
  obtain sc where sc: "al_scopes s t = S_Method c # sc"
    using assms(2) by (auto simp: proper_event_def split: list.splits scope.splits)
  have o: "owned t c s = Suc (holds c sc)" by (simp add: locks_inv_owned [OF assms(1)] sc)
  have g: "list_all no_guard sc" using scopes_ok_tail [OF locks_inv_scopes [OF assms(1), of t, unfolded sc]] .
  show ?thesis
  proof (cases "al_flag s t")
    case True
    have "0 < owned t c s" using o by simp
    note e = mutex_unlock_effect [OF locks_inv_counts_ok [OF assms(1)] this]
    from True show ?thesis
      using e g sc o locks_inv_owned [OF assms(1)] locks_inv_unbroken [OF assms(1)]
      by (intro locks_inv_change [OF assms(1), where t = t]) (simp_all add: guard_enter_def)
  next
    case False
    then show ?thesis
      using g sc locks_inv_owned [OF assms(1)] locks_inv_unbroken [OF assms(1)] locks_inv_counts_ok [OF assms(1)]
      by (intro locks_inv_change [OF assms(1), where t = t]) (simp_all add: guard_enter_def)
  qed
qed

lemma lock_enter_inv:
  assumes "locks_inv s" and "proper_event (AE_Lock t c) s" and "lock_enter t c s = Some u"
  shows "locks_inv u"
proof -
  obtain v where v: "mutex_lock t c s = Some v" "u = set_scopes t (S_Locked c True # al_scopes v t) v"
    using assms(3) by (auto simp: lock_enter_def)
  note e = mutex_lock_effect [OF locks_inv_counts_ok [OF assms(1)] v(1)]
  have g: "list_all no_guard (al_scopes s t)"
    using assms(1,2) scopes_ok_no_guards [of "al_flag s t" "al_scopes s t"]
    by (simp add: locks_inv_scopes proper_event_def)
  show ?thesis
    using e g locks_inv_owned [OF assms(1)] locks_inv_unbroken [OF assms(1)]
    by (intro locks_inv_change [OF assms(1), where t = t]) (simp_all add: v(2))
qed

text \<open>A scope that holds the mutex is closed, or releases it.\<close>

lemma unlock_inv:
  assumes "locks_inv s" and "al_scopes s t = x # sc" and "x = S_Method c \<or> x = S_Locked c True"
    and "list_all no_guard sc" and "\<And>c'. holds c' sc' = holds c' sc" and "list_all no_guard sc'"
    and "fl = set_flag t False \<or> fl = id"
  shows "locks_inv (set_scopes t sc' (mutex_unlock t c (fl s)))"
proof -
  have c: "counts_ok (fl s)" "0 < owned t c (fl s)"
    using assms(2,3,7) locks_inv_counts_ok [OF assms(1)] locks_inv_owned [OF assms(1), of t c] by auto
  note e = mutex_unlock_effect [OF c]
  have o: "owned t c' s = holds c' sc + (if c' = c then 1 else 0)" for c'
    using assms(2,3) locks_inv_owned [OF assms(1), of t c'] by auto
  show ?thesis
    using e o assms(5-7) locks_inv_unbroken [OF assms(1)] no_guards_ok
    by (intro locks_inv_change [OF assms(1), where t = t]) auto
qed

lemma guard_leave_inv:
  assumes "locks_inv s" and sc: "al_scopes s t = S_Unlocked c b # sc" and "guard_leave t c sc s = Some u"
  shows "locks_inv u"
proof -
  from locks_inv_scopes [OF assms(1), of t] sc obtain sc' where
    b: "b = al_flag s t" "list_all no_guard sc" "sc = S_Method c # sc'"
    by (auto split: list.splits scope.splits)
  show ?thesis
  proof (cases "al_flag s t")
    case True
    with assms(3) obtain v where v: "mutex_lock t c s = Some v" "u = set_scopes t sc v"
      by (auto simp: guard_leave_def)
    note e = mutex_lock_effect [OF locks_inv_counts_ok [OF assms(1)] v(1)]
    have o: "owned t c' s = (if c' = c then holds c' sc - 1 else holds c' sc)" for c'
      using sc b True locks_inv_owned [OF assms(1), of t c'] by auto
    show ?thesis
      using e o b locks_inv_unbroken [OF assms(1)] no_guards_ok
      by (intro locks_inv_change [OF assms(1), where t = t]) (auto simp: v(2))
  next
    case False
    with assms(3) have u: "u = set_scopes t sc s" by (simp add: guard_leave_def)
    show ?thesis
      using sc b False locks_inv_owned [OF assms(1)] locks_inv_unbroken [OF assms(1)]
        locks_inv_counts_ok [OF assms(1)] no_guards_ok
      by (intro locks_inv_change [OF assms(1), where t = t]) (auto simp: u)
  qed
qed

lemma lock_again_inv:
  assumes "locks_inv s" and sc: "al_scopes s t = S_Locked c False # sc" and "lock_again t c sc s = Some u"
  shows "locks_inv u"
proof -
  obtain v where v: "mutex_lock t c s = Some v" "u = set_scopes t (S_Locked c True # sc) v"
    using assms(3) by (auto simp: lock_again_def)
  note e = mutex_lock_effect [OF locks_inv_counts_ok [OF assms(1)] v(1)]
  have g: "list_all no_guard sc" using scopes_ok_tail [OF locks_inv_scopes [OF assms(1), of t, unfolded sc]] .
  have o: "owned t c' s = holds c' sc" for c' using sc locks_inv_owned [OF assms(1), of t c'] by simp
  show ?thesis
    using e o g locks_inv_unbroken [OF assms(1)]
    by (intro locks_inv_change [OF assms(1), where t = t]) (auto simp: v(2))
qed

lemma locks_leave_inv:
  assumes "locks_inv s" and "api_locks_step (AE_Leave t) s = Some u"
  shows "locks_inv u"
proof -
  from assms(2) obtain x sc where sc: "al_scopes s t = x # sc"
    by (auto simp: api_locks_step_def split: list.splits)
  have g: "list_all no_guard sc" using scopes_ok_tail [OF locks_inv_scopes [OF assms(1), of t, unfolded sc]] .
  show ?thesis
  proof (cases x)
    case (S_Method c)
    with assms(2) sc unlock_inv [OF assms(1) sc _ g refl g, of c "set_flag t False"] show ?thesis
      by (simp add: api_locks_step_def call_leave_def)
  next
    case (S_Unlocked c b)
    with assms(2) sc guard_leave_inv [OF assms(1)] show ?thesis by (auto simp: api_locks_step_def)
  next
    case (S_Locked c b)
    show ?thesis
    proof (cases b)
      case True
      with S_Locked assms(2) sc unlock_inv [OF assms(1) sc _ g refl g, of c id] show ?thesis
        by (simp add: api_locks_step_def lock_leave_def)
    next
      case False
      with S_Locked assms(2) sc have u: "u = set_scopes t sc s" by (simp add: api_locks_step_def lock_leave_def)
      have "owned t c' s = holds c' sc" for c'
        using S_Locked False sc locks_inv_owned [OF assms(1), of t c'] by simp
      then show ?thesis
        using g locks_inv_unbroken [OF assms(1)] locks_inv_counts_ok [OF assms(1)] no_guards_ok
        by (intro locks_inv_change [OF assms(1), where t = t]) (auto simp: u)
    qed
  qed
qed

lemma locks_inv_step:
  assumes "locks_inv s" and "proper_step e s = Some u"
  shows "locks_inv u"
proof -
  from assms(2) have p: "proper_event e s" "api_locks_step e s = Some u"
    by (auto simp: proper_step_def split: if_splits)
  show ?thesis
  proof (cases e)
    case (AE_Call t c)
    with p call_enter_inv [OF assms(1)] show ?thesis by (simp add: api_locks_step_def)
  next
    case (AE_Guard t c)
    with p guard_enter_inv [OF assms(1)] show ?thesis by (auto simp: api_locks_step_def)
  next
    case (AE_Lock t c)
    with p lock_enter_inv [OF assms(1)] show ?thesis by (simp add: api_locks_step_def)
  next
    case (AE_Leave t)
    with p locks_leave_inv [OF assms(1)] show ?thesis by simp
  next
    case (AE_Unlock t)
    with p(2) obtain c sc where sc: "al_scopes s t = S_Locked c True # sc" "u = lock_release t c sc s"
      by (auto simp: api_locks_step_def split: list.splits scope.splits bool.splits)
    have g: "list_all no_guard sc" using scopes_ok_tail [OF locks_inv_scopes [OF assms(1), of t, unfolded sc(1)]] .
    show ?thesis
      using unlock_inv [OF assms(1) sc(1) _ g, of c "S_Locked c False # sc" id] g
      by (simp add: sc(2) lock_release_def)
  next
    case (AE_Relock t)
    with p(2) lock_again_inv [OF assms(1)] show ?thesis
      by (auto simp: api_locks_step_def split: list.splits scope.splits bool.splits)
  qed
qed

interpretation al: transition_system "\<lambda>s. s = al_start" proper_step locks_inv
proof
  show "locks_inv s" if "s = al_start" for s
    using that by (simp add: locks_inv_counts al_start_def counts_ok_def owned_def)
qed (rule locks_inv_step)

subsection \<open>Mutual exclusion\<close>

lemma locks_exclusive:
  assumes "locks_inv s" and "0 < holds c (al_scopes s t)" and "0 < holds c (al_scopes s t')"
  shows "t = t'"
  using assms locks_inv_owned [OF assms(1), of t c] locks_inv_owned [OF assms(1), of t' c]
  by (auto simp: owned_def split: option.splits if_splits)

text \<open>A locked method of class \<open>c\<close> opens the guard and calls one of class \<open>d\<close> inside; another thread calls \<open>c\<close>.\<close>

definition reentry :: "nat \<Rightarrow> nat \<Rightarrow> api_event list" where
  "reentry c d = [AE_Call 0 c, AE_Guard 0 c, AE_Call 0 d, AE_Leave 0, AE_Leave 0, AE_Call 1 c]"

lemma reentry_run:
  "\<exists>u v. run_events api_locks_step (reentry c d) al_start = Some u
     \<and> al_scopes u 0 = [S_Method c] \<and> al_scopes u 1 = [S_Method c]
     \<and> api_locks_step (AE_Leave 0) u = Some v \<and> al_broken v"
  by (auto simp: reentry_def api_locks_step_def call_enter_def call_leave_def guard_enter_def guard_leave_def
      mutex_lock_def mutex_unlock_def set_flag_def set_scopes_def al_start_def)

text \<open>
  C40: Mutual exclusion. As long as the guard is used in a locked method of its own class and
  nothing of the kind is opened inside its scope, for any number of threads and classes, in every
  run: no thread unlocks a mutex that it does not own, two threads are never both inside locked
  scopes of one class outside of a guard's, and a thread without open scopes owns nothing. But
  if a locked method, of whatever class, is called inside the guard's scope, its end clears the
  flag: the guard does not lock again, two threads are in locked methods of the class at once,
  and the first one then unlocks the other's mutex.
\<close>

theorem locked_methods_exclude:
  assumes "run_events proper_step es al_start = Some s"
  shows "\<not> al_broken s
    \<and> \<not> (t \<noteq> t' \<and> 0 < holds c (al_scopes s t) \<and> 0 < holds c (al_scopes s t'))
    \<and> owned t c s = holds c (al_scopes s t)
    \<and> (\<exists>u v. run_events api_locks_step (reentry c d) al_start = Some u
         \<and> al_scopes u 0 = [S_Method c] \<and> al_scopes u 1 = [S_Method c]
         \<and> api_locks_step (AE_Leave 0) u = Some v \<and> al_broken v)"
  using al.reached_invariant [OF refl assms] locks_exclusive locks_inv_unbroken locks_inv_owned reentry_run
  by blast

theorem locked_methods_exclude_witness:
  "\<exists>s. run_events proper_step [AE_Call 0 7, AE_Guard 0 7, AE_Call 1 7, AE_Leave 1, AE_Leave 0] al_start = Some s
     \<and> owned 0 7 s = 1 \<and> \<not> al_broken s"
proof -
  have "case run_events proper_step [AE_Call 0 7, AE_Guard 0 7, AE_Call 1 7, AE_Leave 1, AE_Leave 0] al_start of
      None \<Rightarrow> False | Some s \<Rightarrow> al_scopes s 0 = [S_Method 7]"
    by code_simp
  then obtain s where s: "run_events proper_step [AE_Call 0 7, AE_Guard 0 7, AE_Call 1 7, AE_Leave 1, AE_Leave 0] al_start = Some s"
    "al_scopes s 0 = [S_Method 7]" by (auto split: option.splits simp del: run_events.simps)
  from locked_methods_exclude [OF s(1), of 0 1 7 7] s show ?thesis by auto
qed

end
