(* ===== verification/WebRpc.thy ===== *)
theory WebRpc
  imports JsonValues
begin

text \<open>
  \<open>helpers/WebSockets/JsonRpc\<close> and \<open>CommunicationInterface/JsonRpcInterface.h\<close>: the messages of
  JSON-RPC, and the interface that sends requests from several threads over one connection and
  gives each thread the response with its identifier. Reading a message is the
  library's: a parameter.
\<close>

subsection \<open>Messages\<close>

text \<open>The fields of a message that are set; an error with its code and text.\<close>

record rpc_error =
  er_code :: "int option"
  er_text :: "string option"

record rpc_message =
  ms_jsonrpc :: "string option"
  ms_id :: "32 word option"
  ms_method :: string
  ms_params :: string
  ms_result :: "string option"
  ms_error :: "rpc_error option"

definition DefaultVersion :: string where
  "DefaultVersion = ''2.0''"

definition version_fails :: "rpc_message \<Rightarrow> bool" where
  "version_fails m = (case ms_jsonrpc m of None \<Rightarrow> True | Some v \<Rightarrow> v \<noteq> DefaultVersion)"

definition notification_valid :: "rpc_message \<Rightarrow> bool" where
  "notification_valid m =
     (if version_fails m then False
      else if ms_method m = [] then False
      else if ms_id m \<noteq> None then False
      else True)"

definition response_valid :: "rpc_message \<Rightarrow> bool" where
  "response_valid m =
     (if version_fails m then False
      else if ms_id m = None then False
      else if ms_result m = None \<and> ms_error m = None then False
      else if ms_result m \<noteq> None \<and> ms_error m \<noteq> None then False
      else (case ms_error m of
              None \<Rightarrow> True
            | Some e \<Rightarrow> if er_code e = None \<or> er_text e = None then False else True))"

text \<open>The value of a field that is not set is zero.\<close>

definition getId :: "rpc_message \<Rightarrow> 32 word" where
  "getId m = (case ms_id m of Some i \<Rightarrow> i | None \<Rightarrow> 0)"

text \<open>
  A request: the sequence of identifiers is a counter of 32 bits. The text of the parameters
  is the library's. The result, the request and the counter.
\<close>

definition request_create :: "string \<Rightarrow> string \<Rightarrow> rpc_message \<Rightarrow> 32 word \<Rightarrow> bool \<times> rpc_message \<times> 32 word" where
  "request_create meth params m idSequence =
     (if version_fails m then (False, m, idSequence)
      else if meth = [] then (False, m, idSequence)
      else let m = m\<lparr>ms_method := meth\<rparr>;
               m = (if params \<noteq> [] then m\<lparr>ms_params := params\<rparr> else m);
               idSequence = idSequence + 1
           in (True, m\<lparr>ms_id := Some idSequence\<rparr>, idSequence))"

text \<open>
  What the interface asks of the library: a text as an object of JSON (\<open>None\<close> where it is
  malformed), as a message, and the text of a value.
\<close>

record rpc_lib =
  rl_object :: "string \<Rightarrow> json_map option"
  rl_message :: "string \<Rightarrow> rpc_message"
  rl_text :: "json \<Rightarrow> string"

text \<open>The object in the result of a response; an object that cannot be read is empty.\<close>

definition result_object :: "rpc_lib \<Rightarrow> rpc_message \<Rightarrow> json_map" where
  "result_object L m =
     (case ms_result m of None \<Rightarrow> []
      | Some t \<Rightarrow> (case rl_object L t of Some j \<Rightarrow> j | None \<Rightarrow> []))"

definition processResponse :: "rpc_lib \<Rightarrow> 32 word \<Rightarrow> string \<Rightarrow> bool" where
  "processResponse L i text =
     (let m = rl_message L text in
      if response_valid m \<and> getId m = i then
        (if ms_result m \<noteq> None
         then (if json_has (result_object L m) ''success''
               then getBoolParameter (rl_text L) (result_object L m) ''success'' else False)
         else False)
      else False)"

subsection \<open>Requests that wait\<close>

text \<open>
  The points of \<open>sendRequest\<close>, for a call with its identifier: before the check, before the
  promise is made, before sending, waiting, with the response there, timed out, with the sending
  failed, and returned.
\<close>

datatype rpc_pc = P_Check "32 word" | P_Create "32 word" | P_Send "32 word" | P_Wait "32 word"
  | P_Ready "32 word" | P_TimedOut "32 word" | P_Failed "32 word" | P_Done "32 word" bool

text \<open>
  Calls are numbered. \<open>rp_promises\<close> is \<open>responseToPromise_\<close>: the call whose future belongs to
  the promise under an identifier; \<open>rp_future\<close> is the value of a call's future.
  \<open>rp_thrown\<close>: a promise was given a second value, which is an exception in the handler of
  the message. \<open>rp_received\<close> are the messages so far, newest first.
\<close>

record rpc =
  rp_promises :: "32 word \<Rightarrow> nat option"
  rp_calls :: "nat \<Rightarrow> rpc_pc option"
  rp_future :: "nat \<Rightarrow> string option"
  rp_handler :: bool
  rp_notified :: "string list"
  rp_sent :: "32 word list"
  rp_received :: "string list"
  rp_thrown :: bool

definition rpc_start :: rpc where
  "rpc_start = \<lparr>rp_promises = (\<lambda>i. None), rp_calls = (\<lambda>c. None), rp_future = (\<lambda>c. None),
     rp_handler = False, rp_notified = [], rp_sent = [], rp_received = [], rp_thrown = False\<rparr>"

abbreviation goto_pc :: "nat \<Rightarrow> rpc_pc \<Rightarrow> rpc \<Rightarrow> rpc" where
  "goto_pc c p s \<equiv> s\<lparr>rp_calls := (rp_calls s)(c \<mapsto> p)\<rparr>"

definition isRequestProcessingOngoing :: "32 word \<Rightarrow> rpc \<Rightarrow> bool" where
  "isRequestProcessingOngoing i s \<longleftrightarrow> rp_promises s i \<noteq> None"

text \<open>The promise of a call and its future; nothing where the identifier has a promise.\<close>

definition createFutureResponse :: "32 word \<Rightarrow> nat \<Rightarrow> rpc \<Rightarrow> rpc option" where
  "createFutureResponse i c s =
     (if rp_promises s i \<noteq> None then None else Some (s\<lparr>rp_promises := (rp_promises s)(i \<mapsto> c)\<rparr>))"

definition removePromise :: "32 word \<Rightarrow> rpc \<Rightarrow> rpc" where
  "removePromise i s = s\<lparr>rp_promises := (rp_promises s)(i := None)\<rparr>"

definition handleResponse :: "32 word \<Rightarrow> string \<Rightarrow> rpc \<Rightarrow> rpc" where
  "handleResponse i text s =
     (case rp_promises s i of
        None \<Rightarrow> s
      | Some c \<Rightarrow> (case rp_future s c of
            None \<Rightarrow> s\<lparr>rp_future := (rp_future s)(c \<mapsto> text)\<rparr>
          | Some _ \<Rightarrow> s\<lparr>rp_thrown := True\<rparr>))"

definition handleNotification :: "rpc_lib \<Rightarrow> string \<Rightarrow> rpc \<Rightarrow> rpc" where
  "handleNotification L text s =
     (if \<not> notification_valid (rl_message L text) then s
      else if \<not> rp_handler s then s
      else s\<lparr>rp_notified := text # rp_notified s\<rparr>)"

text \<open>The identifier of a message that is a response; a number is cut to 32 bits.\<close>

definition response_id :: "rpc_lib \<Rightarrow> string \<Rightarrow> 32 word option" where
  "response_id L text =
     (case rl_object L text of None \<Rightarrow> None
      | Some j \<Rightarrow>
          if json_has j ''id'' \<and> \<not> json_has j ''method''
          then (case json_get j ''id'' of JNumber n \<Rightarrow> Some (word_of_int n) | _ \<Rightarrow> None)
          else None)"

definition rpc_onMessage :: "rpc_lib \<Rightarrow> string \<Rightarrow> rpc \<Rightarrow> rpc" where
  "rpc_onMessage L text s =
     (case rl_object L text of
        None \<Rightarrow> s
      | Some j \<Rightarrow>
          if json_has j ''id'' then
            (if json_has j ''method'' then s
             else (case json_get j ''id'' of
                     JNumber n \<Rightarrow> handleResponse (word_of_int n) text s
                   | _ \<Rightarrow> s))
          else handleNotification L text s)"

text \<open>
  The events: a call begins; a thread makes its next step (sending succeeds or not; a wait
  ends because the response is there); the five seconds of a wait are over without one; a
  message arrives; a handler for notifications is set.
\<close>

datatype rpc_event = Q_Call nat "32 word" | Q_Step nat bool | Q_Timeout nat | Q_Message string | Q_Handler

text \<open>The end of the wait with the response there: the promise is removed and the response read.\<close>

definition getAsyncResponse :: "rpc_lib \<Rightarrow> nat \<Rightarrow> 32 word \<Rightarrow> rpc \<Rightarrow> rpc option" where
  "getAsyncResponse L c i s =
     (case rp_future s c of None \<Rightarrow> None
      | Some msg \<Rightarrow> Some (goto_pc c (P_Done i (processResponse L i msg)) (removePromise i s)))"

definition rpc_thread_step :: "rpc_lib \<Rightarrow> nat \<Rightarrow> bool \<Rightarrow> rpc \<Rightarrow> rpc option" where
  "rpc_thread_step L c ok s =
     (case rp_calls s c of
        Some (P_Check i) \<Rightarrow>
          Some (goto_pc c (if isRequestProcessingOngoing i s then P_Done i False else P_Create i) s)
      | Some (P_Create i) \<Rightarrow>
          Some (case createFutureResponse i c s of
                  None \<Rightarrow> goto_pc c (P_Done i False) s
                | Some u \<Rightarrow> goto_pc c (P_Send i) u)
      | Some (P_Send i) \<Rightarrow>
          Some (if ok then goto_pc c (P_Wait i) (s\<lparr>rp_sent := i # rp_sent s\<rparr>)
                else goto_pc c (P_Failed i) s)
      | Some (P_Wait i) \<Rightarrow> if rp_future s c \<noteq> None then Some (goto_pc c (P_Ready i) s) else None
      | Some (P_Ready i) \<Rightarrow>
          getAsyncResponse L c i s
      | Some (P_TimedOut i) \<Rightarrow> Some (goto_pc c (P_Done i False) (removePromise i s))
      | Some (P_Failed i) \<Rightarrow> Some (goto_pc c (P_Done i False) (removePromise i s))
      | _ \<Rightarrow> None)"

definition rpc_step :: "rpc_lib \<Rightarrow> rpc_event \<Rightarrow> rpc \<Rightarrow> rpc option" where
  "rpc_step L e s =
     (case e of
        Q_Call c i \<Rightarrow> if rp_calls s c = None then Some (goto_pc c (P_Check i) s) else None
      | Q_Step c ok \<Rightarrow> rpc_thread_step L c ok s
      | Q_Timeout c \<Rightarrow>
          (case rp_calls s c of
             Some (P_Wait i) \<Rightarrow> if rp_future s c = None then Some (goto_pc c (P_TimedOut i) s) else None
           | _ \<Rightarrow> None)
      | Q_Message text \<Rightarrow> Some (rpc_onMessage L text (s\<lparr>rp_received := text # rp_received s\<rparr>))
      | Q_Handler \<Rightarrow> Some (s\<lparr>rp_handler := True\<rparr>))"

text \<open>The identifier that a call has a promise for, while it has one.\<close>

fun holds_promise :: "rpc_pc \<Rightarrow> 32 word option" where
  "holds_promise (P_Send i) = Some i"
| "holds_promise (P_Wait i) = Some i"
| "holds_promise (P_Ready i) = Some i"
| "holds_promise (P_TimedOut i) = Some i"
| "holds_promise (P_Failed i) = Some i"
| "holds_promise _ = None"

text \<open>
  A promise belongs to exactly one call, which is between making it and removing it; the
  value of a future is a message received as a response with the identifier of its call;
  and a call has returned success only for such a message.
\<close>

definition call_holds :: "rpc \<Rightarrow> nat \<Rightarrow> 32 word option" where
  "call_holds s c = (case rp_calls s c of None \<Rightarrow> None | Some p \<Rightarrow> holds_promise p)"

definition promise_inv :: "rpc \<Rightarrow> bool" where
  "promise_inv s \<longleftrightarrow> (\<forall>i c. rp_promises s i = Some c \<longleftrightarrow> call_holds s c = Some i)"

definition before_promise :: "rpc \<Rightarrow> nat \<Rightarrow> bool" where
  "before_promise s c \<longleftrightarrow> (case rp_calls s c of None \<Rightarrow> True | Some (P_Check i) \<Rightarrow> True | Some (P_Create i) \<Rightarrow> True | _ \<Rightarrow> False)"

definition future_inv :: "rpc_lib \<Rightarrow> rpc \<Rightarrow> bool" where
  "future_inv L s \<longleftrightarrow>
     (\<forall>c i text. call_holds s c = Some i \<and> rp_future s c = Some text
        \<longrightarrow> text \<in> set (rp_received s) \<and> response_id L text = Some i)
     \<and> (\<forall>c. before_promise s c \<longrightarrow> rp_future s c = None)"

definition done_inv :: "rpc_lib \<Rightarrow> rpc \<Rightarrow> bool" where
  "done_inv L s \<longleftrightarrow>
     (\<forall>c i. rp_calls s c = Some (P_Done i True)
        \<longrightarrow> (\<exists>text\<in>set (rp_received s). response_id L text = Some i \<and> processResponse L i text))"

definition rpc_inv :: "rpc_lib \<Rightarrow> rpc \<Rightarrow> bool" where
  "rpc_inv L s \<longleftrightarrow> promise_inv s \<and> future_inv L s \<and> done_inv L s"

text \<open>What a message changes: at most the value of one future, which becomes this message.\<close>

lemma onMessage_frame:
  "rp_promises (rpc_onMessage L text s) = rp_promises s"
  "rp_calls (rpc_onMessage L text s) = rp_calls s"
  "rp_received (rpc_onMessage L text s) = rp_received s"
  by (auto simp: rpc_onMessage_def handleResponse_def handleNotification_def split: option.split json.split)

lemma onMessage_future:
  "rp_future (rpc_onMessage L text s) =
     (case response_id L text of None \<Rightarrow> rp_future s
      | Some i \<Rightarrow> (case rp_promises s i of None \<Rightarrow> rp_future s
          | Some c \<Rightarrow> if rp_future s c = None then (rp_future s)(c \<mapsto> text) else rp_future s))"
  by (auto simp: rpc_onMessage_def response_id_def handleResponse_def handleNotification_def split: option.split json.split)

lemma call_holds_goto: "call_holds (s\<lparr>rp_calls := (rp_calls s)(c \<mapsto> p)\<rparr>) d = (if d = c then holds_promise p else call_holds s d)"
  by (simp add: call_holds_def)

lemma promise_inv_keep:
  assumes "promise_inv s" and "call_holds s c = holds_promise q"
  shows "promise_inv (goto_pc c q s)"
  using assms by (simp add: promise_inv_def call_holds_goto)

lemma promise_inv_add:
  assumes "promise_inv s" and "call_holds s c = None" and "rp_promises s i = None" and "holds_promise q = Some i"
  shows "promise_inv (s\<lparr>rp_promises := (rp_promises s)(i \<mapsto> c), rp_calls := (rp_calls s)(c \<mapsto> q)\<rparr>)"
proof -
  have "call_holds s d \<noteq> Some i" for d
    using assms(1,3) unfolding promise_inv_def by (metis option.distinct(1))
  with assms show ?thesis by (auto simp: promise_inv_def call_holds_def)
qed

lemma promise_inv_remove:
  assumes "promise_inv s" and "call_holds s c = Some i" and "holds_promise q = None"
  shows "promise_inv (s\<lparr>rp_promises := (rp_promises s)(i := None), rp_calls := (rp_calls s)(c \<mapsto> q)\<rparr>)"
proof -
  have "call_holds s d \<noteq> Some i" if "d \<noteq> c" for d
    using assms(1,2) that unfolding promise_inv_def by (metis option.inject)
  with assms show ?thesis by (auto simp: promise_inv_def call_holds_def)
qed

lemma promise_inv_thread:
  assumes "promise_inv s" and "rpc_thread_step L c ok s = Some t"
  shows "promise_inv t"
proof (cases "rp_calls s c")
  case None
  with assms(2) show ?thesis by (simp add: rpc_thread_step_def createFutureResponse_def getAsyncResponse_def)
next
  case (Some p)
  then have h: "call_holds s c = holds_promise p" by (simp add: call_holds_def)
  have sent: "promise_inv (s\<lparr>rp_sent := x, rp_calls := (rp_calls s)(c \<mapsto> P_Wait i)\<rparr>)"
    if "call_holds s c = Some i" for x i
    using promise_inv_keep [OF assms(1), of c "P_Wait i"] that by (simp add: promise_inv_def call_holds_def)
  show ?thesis
    using assms Some h
    by (cases p)
      (auto simp: rpc_thread_step_def createFutureResponse_def getAsyncResponse_def removePromise_def isRequestProcessingOngoing_def
        intro: sent promise_inv_keep promise_inv_add promise_inv_remove split: if_splits option.splits)
qed

lemma future_inv_thread:
  assumes "future_inv L s" and "rpc_thread_step L c ok s = Some t"
  shows "future_inv L t"
proof (cases "rp_calls s c")
  case None
  with assms(2) show ?thesis by (simp add: rpc_thread_step_def createFutureResponse_def getAsyncResponse_def)
next
  case (Some p)
  have frame: "rp_future t = rp_future s" "rp_received t = rp_received s"
    "\<And>d. d \<noteq> c \<Longrightarrow> rp_calls t d = rp_calls s d"
    using assms(2) Some
    by (cases p; auto simp: rpc_thread_step_def createFutureResponse_def getAsyncResponse_def removePromise_def split: if_splits option.splits)+
  have own: "(call_holds t c = call_holds s c \<or> call_holds t c = None \<or> before_promise s c)
      \<and> (before_promise t c \<longrightarrow> before_promise s c)"
    using assms(2) Some
    by (cases p; auto simp: rpc_thread_step_def createFutureResponse_def getAsyncResponse_def removePromise_def call_holds_def before_promise_def split: if_splits option.splits)
  have "call_holds t d = call_holds s d \<and> before_promise t d = before_promise s d" if "d \<noteq> c" for d
    using frame(3) [OF that] by (simp add: call_holds_def before_promise_def)
  with frame(1,2) own assms(1) show ?thesis unfolding future_inv_def by (metis option.distinct(1))
qed

lemma done_inv_thread:
  assumes "done_inv L s" and "future_inv L s" and "rpc_thread_step L c ok s = Some t"
  shows "done_inv L t"
proof (cases "rp_calls s c")
  case None
  with assms(3) show ?thesis by (simp add: rpc_thread_step_def createFutureResponse_def getAsyncResponse_def)
next
  case (Some p)
  have frame: "rp_received t = rp_received s" "\<And>d. d \<noteq> c \<Longrightarrow> rp_calls t d = rp_calls s d"
    using assms(3) Some
    by (cases p; auto simp: rpc_thread_step_def createFutureResponse_def getAsyncResponse_def removePromise_def split: if_splits option.splits)+
  have "\<exists>text\<in>set (rp_received s). response_id L text = Some i \<and> processResponse L i text"
    if d: "rp_calls t c = Some (P_Done i True)" for i
  proof -
    from d assms(3) Some obtain msg where p: "p = P_Ready i" "rp_future s c = Some msg" "processResponse L i msg"
      by (cases p) (auto simp: rpc_thread_step_def createFutureResponse_def getAsyncResponse_def removePromise_def split: if_splits option.splits)
    with Some have "call_holds s c = Some i" by (simp add: call_holds_def)
    with p assms(2) show ?thesis unfolding future_inv_def by blast
  qed
  with frame assms(1) show ?thesis unfolding done_inv_def by metis
qed

lemma rpc_inv_step:
  assumes inv: "rpc_inv L s" and step: "rpc_step L e s = Some t"
  shows "rpc_inv L t"
proof (cases e)
  case (Q_Step c ok)
  with step have "rpc_thread_step L c ok s = Some t" by (simp add: rpc_step_def)
  with inv show ?thesis
    unfolding rpc_inv_def by (blast intro: promise_inv_thread future_inv_thread done_inv_thread)
next
  case (Q_Call c i)
  with step have "rp_calls s c = None" "t = goto_pc c (P_Check i) s" by (auto simp: rpc_step_def split: if_splits)
  with inv show ?thesis
    by (auto simp: rpc_inv_def promise_inv_def future_inv_def done_inv_def call_holds_def before_promise_def)
next
  case (Q_Timeout c)
  with step obtain i where "rp_calls s c = Some (P_Wait i)" "rp_future s c = None" "t = goto_pc c (P_TimedOut i) s"
    by (auto simp: rpc_step_def split: option.splits rpc_pc.splits if_splits)
  with inv show ?thesis
    by (auto simp: rpc_inv_def promise_inv_def future_inv_def done_inv_def call_holds_def before_promise_def)
next
  case Q_Handler
  with step inv show ?thesis
    by (auto simp: rpc_step_def rpc_inv_def promise_inv_def future_inv_def done_inv_def call_holds_def before_promise_def)
next
  case (Q_Message msg)
  with step have t: "t = rpc_onMessage L msg (s\<lparr>rp_received := msg # rp_received s\<rparr>)" by (simp add: rpc_step_def)
  have same: "call_holds t = call_holds s" "before_promise t = before_promise s"
    "rp_promises t = rp_promises s" "rp_calls t = rp_calls s" "rp_received t = msg # rp_received s"
    by (auto simp: t call_holds_def before_promise_def onMessage_frame)
  have holder: "call_holds s c = Some i" if "rp_promises s i = Some c" for i c
    using inv that by (simp add: rpc_inv_def promise_inv_def)
  have pc: "call_holds s c \<noteq> None \<Longrightarrow> \<not> before_promise s c" for c
    by (auto simp: call_holds_def before_promise_def split: option.splits rpc_pc.splits)
  have fut: "rp_future t = (case response_id L msg of None \<Rightarrow> rp_future s
      | Some i \<Rightarrow> (case rp_promises s i of None \<Rightarrow> rp_future s
          | Some c \<Rightarrow> if rp_future s c = None then (rp_future s)(c \<mapsto> msg) else rp_future s))"
    by (simp add: t onMessage_future split: option.split)
  have "future_inv L t"
    using inv holder pc
    by (auto simp: rpc_inv_def future_inv_def same fut split: option.splits if_splits)
  with inv same show ?thesis by (auto simp: rpc_inv_def promise_inv_def done_inv_def)
qed

interpretation rq: transition_system "\<lambda>s. s = rpc_start" "rpc_step L" "rpc_inv L" for L
proof
  show "rpc_inv L s" if "s = rpc_start" for s
    using that by (simp add: rpc_inv_def promise_inv_def future_inv_def done_inv_def rpc_start_def call_holds_def)
qed (rule rpc_inv_step)

text \<open>A library for the examples: the messages \<open>a\<close> and \<open>b\<close> are responses to request 1.\<close>

definition sample_rpc :: rpc_lib where
  "sample_rpc = \<lparr>
     rl_object = (\<lambda>m. if m = ''a'' \<or> m = ''b'' then Some [(''id'', JNumber 1)]
                     else if m = ''r'' then Some [(''success'', JBool True)] else None),
     rl_message = (\<lambda>m. \<lparr>ms_jsonrpc = Some ''2.0'', ms_id = Some 1, ms_method = [], ms_params = [],
        ms_result = Some ''r'', ms_error = None\<rparr>),
     rl_text = (\<lambda>j. [])\<rparr>"

text \<open>
  C33: Requests and responses. Whatever the threads and the messages do: no two calls wait under
  the same identifier; a call returns success only for a message received that is a response with
  its identifier and reports success; and when no call is under way, no promise is left.
\<close>

theorem response_to_its_request:
  assumes "run_events (rpc_step L) es rpc_start = Some s"
  shows "(call_holds s c = Some i \<and> call_holds s d = Some i \<longrightarrow> c = d)
    \<and> (rp_calls s c = Some (P_Done i True) \<longrightarrow>
         (\<exists>m\<in>set (rp_received s). response_id L m = Some i \<and> processResponse L i m))
    \<and> ((\<forall>c. call_holds s c = None) \<longrightarrow> rp_promises s = (\<lambda>i. None))"
proof -
  have inv: "promise_inv s" "done_inv L s" using rq.reached_invariant [OF refl assms] by (auto simp: rpc_inv_def)
  have "c = d" if "call_holds s c = Some i" "call_holds s d = Some i"
    using inv(1) that unfolding promise_inv_def by (metis option.inject)
  moreover have "rp_promises s = (\<lambda>i. None)" if "\<forall>c. call_holds s c = None"
    using inv(1) that unfolding promise_inv_def by (metis ext not_Some_eq)
  ultimately show ?thesis using inv(2) by (simp add: done_inv_def)
qed

definition sample_rpc_run :: "rpc_event list" where
  "sample_rpc_run = [Q_Call 7 1, Q_Step 7 True, Q_Step 7 True, Q_Step 7 True, Q_Message ''a'', Q_Step 7 True]"

lemma sample_rpc_state:
  "run_events (rpc_step sample_rpc) (sample_rpc_run @ [Q_Step 7 True]) rpc_start = Some
     (rpc_start\<lparr>rp_promises := (rp_promises rpc_start)(1 \<mapsto> 7, 1 := None),
        rp_calls := (rp_calls rpc_start)(7 \<mapsto> P_Check 1, 7 \<mapsto> P_Create 1, 7 \<mapsto> P_Send 1, 7 \<mapsto> P_Wait 1, 7 \<mapsto> P_Ready 1, 7 \<mapsto> P_Done 1 True),
        rp_future := (rp_future rpc_start)(7 \<mapsto> ''a''), rp_sent := [1], rp_received := [''a'']\<rparr>)"
  by (simp add: sample_rpc_run_def rpc_step_def rpc_thread_step_def createFutureResponse_def getAsyncResponse_def rpc_start_def isRequestProcessingOngoing_def
    rpc_onMessage_def handleResponse_def sample_rpc_def json_has_def json_get_def processResponse_def response_valid_def
    version_fails_def DefaultVersion_def getId_def result_object_def getBoolParameter_def removePromise_def Let_def)

theorem response_to_its_request_witness:
  "\<exists>s. run_events (rpc_step sample_rpc) (sample_rpc_run @ [Q_Step 7 True]) rpc_start = Some s
     \<and> (\<exists>m\<in>set (rp_received s). response_id sample_rpc m = Some 1 \<and> processResponse sample_rpc 1 m)"
  using response_to_its_request [OF sample_rpc_state, of 7 1 7] sample_rpc_state by (auto simp: rpc_start_def)

text \<open>What it takes for a promise to get a second value.\<close>

definition throw_inv :: "rpc_lib \<Rightarrow> rpc \<Rightarrow> bool" where
  "throw_inv L s \<longleftrightarrow> rpc_inv L s
     \<and> (rp_thrown s \<longrightarrow> (\<exists>i. 2 \<le> length (filter (\<lambda>m. response_id L m = Some i) (rp_received s))))"

lemma onMessage_thrown:
  "rp_thrown (rpc_onMessage L msg s) =
     (rp_thrown s \<or> (case response_id L msg of None \<Rightarrow> False
        | Some i \<Rightarrow> (case rp_promises s i of None \<Rightarrow> False | Some c \<Rightarrow> rp_future s c \<noteq> None)))"
  by (auto simp: rpc_onMessage_def response_id_def handleResponse_def handleNotification_def split: option.split json.split)

lemma throw_inv_step:
  assumes "throw_inv L s" and step: "rpc_step L e s = Some t"
  shows "throw_inv L t"
proof -
  have inv: "rpc_inv L s" using assms by (simp add: throw_inv_def)
  have "\<exists>i. 2 \<le> length (filter (\<lambda>m. response_id L m = Some i) (rp_received t))" if thrown: "rp_thrown t"
  proof (cases "rp_thrown s")
    case True
    then obtain i where i: "2 \<le> length (filter (\<lambda>m. response_id L m = Some i) (rp_received s))"
      using assms(1) by (auto simp: throw_inv_def)
    have "\<exists>ms. rp_received t = ms @ rp_received s"
      using step by (auto simp: rpc_step_def rpc_thread_step_def createFutureResponse_def getAsyncResponse_def removePromise_def onMessage_frame
        split: rpc_event.splits option.splits rpc_pc.splits if_splits)
    with i show ?thesis by (auto intro!: exI [of _ i])
  next
    case False
    with thrown step obtain msg where t: "t = rpc_onMessage L msg (s\<lparr>rp_received := msg # rp_received s\<rparr>)"
      by (cases e) (auto simp: rpc_step_def rpc_thread_step_def createFutureResponse_def getAsyncResponse_def removePromise_def split: option.splits rpc_pc.splits if_splits)
    from thrown False obtain i c old where r: "response_id L msg = Some i" "rp_promises s i = Some c" "rp_future s c = Some old"
      by (auto simp: t onMessage_thrown split: option.splits)
    then have "call_holds s c = Some i" using inv by (simp add: rpc_inv_def promise_inv_def)
    with r(3) inv have "old \<in> set (rp_received s)" "response_id L old = Some i"
      by (auto simp: rpc_inv_def future_inv_def)
    then have "filter (\<lambda>m. response_id L m = Some i) (rp_received s) \<noteq> []" by (auto simp: filter_empty_conv)
    then have "2 \<le> length (filter (\<lambda>m. response_id L m = Some i) (rp_received t))"
      using r(1) by (cases "filter (\<lambda>m. response_id L m = Some i) (rp_received s)") (auto simp: t onMessage_frame)
    then show ?thesis by blast
  qed
  with rpc_inv_step [OF inv step] show ?thesis by (simp add: throw_inv_def)
qed

interpretation rqt: transition_system "\<lambda>s. s = rpc_start" "rpc_step L" "throw_inv L" for L
proof
  show "throw_inv L s" if "s = rpc_start" for s
    using that by (simp add: throw_inv_def rpc_inv_def promise_inv_def future_inv_def done_inv_def rpc_start_def call_holds_def)
qed (rule throw_inv_step)

text \<open>
  C34: A response that comes twice. While the first response waits to be taken by its call, a
  second message with the same identifier sets the value of a promise that has one, which throws in the thread
  of the connection; and nothing throws unless two responses with one identifier were received.
\<close>

theorem second_response_throws:
  assumes "run_events (rpc_step L) es rpc_start = Some s"
    and "response_id L m = Some i" and "response_id L m' = Some i" and "rp_calls s c = Some (P_Wait i)"
  shows "(if rp_thrown s then \<exists>j. 2 \<le> length (filter (\<lambda>m. response_id L m = Some j) (rp_received s)) else True)
    \<and> (\<exists>t. run_events (rpc_step L) [Q_Message m, Q_Message m'] s = Some t \<and> rp_thrown t)"
proof -
  have inv: "throw_inv L s" by (rule rqt.reached_invariant [OF refl assms(1)])
  have "rp_promises s i = Some c"
    using inv assms(4) by (auto simp: throw_inv_def rpc_inv_def promise_inv_def call_holds_def)
  then have "rp_thrown (rpc_onMessage L m' (u\<lparr>rp_received := x\<rparr>))"
    if "rp_promises u = rp_promises s" "rp_future u c \<noteq> None" for u x
    using that assms(3) by (simp add: onMessage_thrown)
  moreover have "rp_future (rpc_onMessage L m (s\<lparr>rp_received := m # rp_received s\<rparr>)) c \<noteq> None"
    using assms(2) \<open>rp_promises s i = Some c\<close> by (simp add: onMessage_future)
  ultimately show ?thesis using inv by (auto simp: rpc_step_def throw_inv_def onMessage_frame)
qed

lemma sample_rpc_waiting:
  "run_events (rpc_step sample_rpc) [Q_Call 7 1, Q_Step 7 True, Q_Step 7 True, Q_Step 7 True] rpc_start = Some
     (rpc_start\<lparr>rp_promises := (rp_promises rpc_start)(1 \<mapsto> 7),
        rp_calls := (rp_calls rpc_start)(7 \<mapsto> P_Check 1, 7 \<mapsto> P_Create 1, 7 \<mapsto> P_Send 1, 7 \<mapsto> P_Wait 1), rp_sent := [1]\<rparr>)"
  by (simp add: rpc_step_def rpc_thread_step_def createFutureResponse_def getAsyncResponse_def rpc_start_def isRequestProcessingOngoing_def)

theorem second_response_throws_witness:
  "\<exists>s t. run_events (rpc_step sample_rpc) [Q_Call 7 1, Q_Step 7 True, Q_Step 7 True, Q_Step 7 True] rpc_start = Some s
     \<and> run_events (rpc_step sample_rpc) [Q_Message ''a'', Q_Message ''b''] s = Some t \<and> rp_thrown t"
proof -
  have "response_id sample_rpc ''a'' = Some 1" "response_id sample_rpc ''b'' = Some 1"
    by (simp_all add: response_id_def sample_rpc_def json_has_def json_get_def)
  from second_response_throws [OF sample_rpc_waiting this, of 7] sample_rpc_waiting show ?thesis by auto
qed

subsection \<open>The end of a request\<close>

text \<open>How many steps of its own a call has before it; a call that has not begun has all of them.\<close>

fun steps_before :: "rpc_pc \<Rightarrow> nat" where
  "steps_before (P_Check i) = 5"
| "steps_before (P_Create i) = 4"
| "steps_before (P_Send i) = 3"
| "steps_before (P_Wait i) = 2"
| "steps_before (P_Ready i) = 1"
| "steps_before (P_TimedOut i) = 1"
| "steps_before (P_Failed i) = 1"
| "steps_before (P_Done i b) = 0"

definition steps_left :: "rpc \<Rightarrow> nat \<Rightarrow> nat" where
  "steps_left s c = (case rp_calls s c of None \<Rightarrow> 5 | Some p \<Rightarrow> steps_before p)"

fun own_event :: "nat \<Rightarrow> rpc_event \<Rightarrow> bool" where
  "own_event c (Q_Step d ok) \<longleftrightarrow> d = c"
| "own_event c (Q_Timeout d) \<longleftrightarrow> d = c"
| "own_event c _ \<longleftrightarrow> False"

lemma own_event_step:
  assumes "rpc_step L e s = Some t"
  shows "(if own_event c e then 1 else 0) + steps_left t c \<le> steps_left s c"
proof (cases e)
  case (Q_Step d ok)
  with assms obtain p where p: "rp_calls s d = Some p" "rpc_thread_step L d ok s = Some t"
    by (auto simp: rpc_step_def rpc_thread_step_def split: option.splits)
  then show ?thesis
    using Q_Step by (cases p) (auto simp: rpc_thread_step_def createFutureResponse_def getAsyncResponse_def
        removePromise_def steps_left_def split: if_splits option.splits)
qed (use assms in \<open>auto simp: rpc_step_def steps_left_def onMessage_frame split: option.splits rpc_pc.splits if_splits\<close>)

lemma own_events_run:
  "run_events (rpc_step L) es s = Some t \<Longrightarrow> length (filter (own_event c) es) + steps_left t c \<le> steps_left s c"
proof (induction es arbitrary: s)
  case Nil
  then show ?case by simp
next
  case (Cons e es)
  then obtain u where u: "rpc_step L e s = Some u" "run_events (rpc_step L) es u = Some t"
    by (auto split: option.splits)
  from own_event_step [OF u(1), of c] Cons.IH [OF u(2)] show ?case by (auto split: if_splits)
qed

text \<open>A call that has seen its response still has it.\<close>

definition ready_inv :: "rpc \<Rightarrow> bool" where
  "ready_inv s \<longleftrightarrow> (\<forall>c i. rp_calls s c = Some (P_Ready i) \<longrightarrow> rp_future s c \<noteq> None)"

lemma ready_inv_step:
  assumes "ready_inv s" and "rpc_step L e s = Some t"
  shows "ready_inv t"
proof (cases e)
  case (Q_Step d ok)
  with assms(2) obtain p where p: "rp_calls s d = Some p" "rpc_thread_step L d ok s = Some t"
    by (auto simp: rpc_step_def rpc_thread_step_def split: option.splits)
  then show ?thesis
    using assms(1) by (cases p) (auto simp: ready_inv_def rpc_thread_step_def createFutureResponse_def
        getAsyncResponse_def removePromise_def split: if_splits option.splits)
qed (use assms in \<open>auto simp: ready_inv_def rpc_step_def onMessage_frame onMessage_future
      split: option.splits rpc_pc.splits if_splits\<close>)

interpretation rqr: transition_system "\<lambda>s. s = rpc_start" "rpc_step L" ready_inv for L
  by unfold_locales (simp add: ready_inv_def rpc_start_def, rule ready_inv_step)

lemma future_while_ready:
  "run_events (rpc_step L) es rpc_start = Some s \<Longrightarrow> rp_calls s c = Some (P_Ready i) \<Longrightarrow> rp_future s c \<noteq> None"
  using rqr.reached_invariant [OF refl] by (auto simp: ready_inv_def)



end
