(* ===== verification/WebSocket.thy ===== *)
theory WebSocket
  imports WebRpc
begin

text \<open>
  \<open>helpers/WebSockets\<close>: the endpoint \<open>WSEndpoint\<close> with its policies: the roles client and server,
  pings, encryption, and the command interface. The websocketpp library is the parameter
  \<open>ws_env\<close>: a question is answered by a function of the number of questions so far. What
  the endpoint does is a trace, newest first.
\<close>

subsection \<open>State and environment\<close>

datatype conn_state = WS_CONNECTING | WS_OPEN | WS_CLOSING | WS_CLOSED

datatype opcode = OP_TEXT | OP_BINARY | OP_other nat

datatype tls_error = TLS_security | TLS_invalid_context | TLS_handshake_timeout
  | TLS_missing_init_handler | TLS_handshake_failed | TLS_failed_sni_hostname | TLS_other nat

text \<open>
  \<open>we_found\<close>: whether a handle gives a connection; \<open>we_error\<close>: the error of a connection, \<open>None\<close> where it
  is not of the category of TLS sockets; \<open>we_ok\<close>: whether an operation of the library
  succeeds. \<open>we_tls\<close>, \<open>we_ping\<close> and \<open>we_opcode\<close> are the policies.
\<close>

record ws_env =
  we_found :: "nat \<Rightarrow> nat \<Rightarrow> bool"
  we_state :: "nat \<Rightarrow> nat \<Rightarrow> conn_state"
  we_error :: "nat \<Rightarrow> nat \<Rightarrow> tls_error option"
  we_ok :: "nat \<Rightarrow> bool"
  we_tls :: bool
  we_ping :: bool
  we_opcode :: opcode

datatype ws_effect = W_Run | W_Join | W_Close nat | W_Send string | W_Ping nat | W_Message string
  | W_Initialized bool bool | W_ClosedCallback | W_Connect string | W_Listen int

record ws =
  ws_handler :: "nat option"
  ws_thread :: bool
  ws_timers :: nat
  ws_trace :: "ws_effect list"
  ws_tick :: nat
  ws_null :: bool

definition ws_start :: ws where
  "ws_start = \<lparr>ws_handler = None, ws_thread = False, ws_timers = 0, ws_trace = [], ws_tick = 0, ws_null = False\<rparr>"

definition ws_ask :: "(nat \<Rightarrow> 'a) \<Rightarrow> (ws, 'a) state" where
  "ws_ask f = State (\<lambda>s. (f (ws_tick s), s\<lparr>ws_tick := Suc (ws_tick s)\<rparr>))"

definition ws_does :: "ws_effect \<Rightarrow> (ws, unit) state" where
  "ws_does e = modify (\<lambda>s. s\<lparr>ws_trace := e # ws_trace s\<rparr>)"

subsection \<open>The endpoint\<close>

definition getConnection :: "ws_env \<Rightarrow> nat option \<Rightarrow> (ws, nat option) state" where
  "getConnection E hdl =
     (case hdl of None \<Rightarrow> ret None
      | Some h \<Rightarrow> do { ok \<leftarrow> ws_ask (\<lambda>n. we_found E n h); ret (if ok then Some h else None) })"

definition closeConnection :: "ws_env \<Rightarrow> (ws, unit) state" where
  "closeConnection E = do {
     h \<leftarrow> gets ws_handler;
     conn \<leftarrow> getConnection E h;
     case conn of None \<Rightarrow> ret ()
     | Some c \<Rightarrow> do {
         st \<leftarrow> ws_ask (\<lambda>n. we_state E n c);
         whenM (st = WS_OPEN) (ws_does (W_Close c)) }
   }"

definition startEventLoop :: "(ws, unit) state" where
  "startEventLoop = do {
     t \<leftarrow> gets ws_thread;
     whenM (\<not> t) (do { modify (\<lambda>s. s\<lparr>ws_thread := True\<rparr>); ws_does W_Run })
   }"

definition stopEventLoop :: "(ws, unit) state" where
  "stopEventLoop = do {
     t \<leftarrow> gets ws_thread;
     whenM t (do { ws_does W_Join; modify (\<lambda>s. s\<lparr>ws_thread := False\<rparr>) })
   }"

definition ws_destroy :: "ws_env \<Rightarrow> (ws, unit) state" where
  "ws_destroy E = do { closeConnection E; stopEventLoop }"

definition ws_send :: "ws_env \<Rightarrow> string \<Rightarrow> (ws, bool) state" where
  "ws_send E msg =
     (if msg = [] then ret False
      else do {
        ok \<leftarrow> ws_ask (we_ok E);
        whenM ok (ws_does (W_Send msg));
        ret ok })"

definition ws_onMessage :: "ws_env \<Rightarrow> opcode \<Rightarrow> string \<Rightarrow> (ws, unit) state" where
  "ws_onMessage E op payload = (if op \<noteq> we_opcode E then ret () else ws_does (W_Message payload))"

definition ping_schedule :: "(ws, unit) state" where
  "ping_schedule = modify (\<lambda>s. s\<lparr>ws_timers := Suc (ws_timers s)\<rparr>)"

definition startPing :: "ws_env \<Rightarrow> nat \<Rightarrow> (ws, unit) state" where
  "startPing E h =
     (if \<not> we_ping E then ret ()
      else do {
        conn \<leftarrow> getConnection E (Some h);
        case conn of None \<Rightarrow> ret () | Some c \<Rightarrow> ping_schedule })"

definition onOpen :: "ws_env \<Rightarrow> nat \<Rightarrow> (ws, unit) state" where
  "onOpen E h = do {
     modify (\<lambda>s. s\<lparr>ws_handler := Some h\<rparr>);
     ws_does (W_Initialized True True);
     startPing E h
   }"

text \<open>The errors after which the peer counts as not authenticated; \<open>None\<close> is a null pointer used.\<close>

definition auth_error :: "tls_error option \<Rightarrow> bool" where
  "auth_error e =
     (case e of None \<Rightarrow> False
      | Some v \<Rightarrow> (case v of
            TLS_security \<Rightarrow> True | TLS_invalid_context \<Rightarrow> True | TLS_handshake_timeout \<Rightarrow> True
          | TLS_missing_init_handler \<Rightarrow> True | TLS_handshake_failed \<Rightarrow> True | TLS_failed_sni_hostname \<Rightarrow> True
          | TLS_other _ \<Rightarrow> False))"

definition setAuthenticationState :: "ws_env \<Rightarrow> nat \<Rightarrow> (ws, bool option) state" where
  "setAuthenticationState E h =
     (if \<not> we_tls E then ret (Some True)
      else do {
        conn \<leftarrow> getConnection E (Some h);
        case conn of None \<Rightarrow> ret None
        | Some c \<Rightarrow> do { e \<leftarrow> ws_ask (\<lambda>n. we_error E n c); ret (Some (\<not> auth_error e)) } })"

text \<open>The source uses the connection without a test: it is null where the handle gives none.\<close>

definition onFail :: "ws_env \<Rightarrow> nat \<Rightarrow> (ws, unit) state" where
  "onFail E h = do {
     conn \<leftarrow> getConnection E (Some h);
     case conn of None \<Rightarrow> modify (\<lambda>s. s\<lparr>ws_null := True\<rparr>)
     | Some c \<Rightarrow> do {
         auth \<leftarrow> setAuthenticationState E h;
         case auth of None \<Rightarrow> modify (\<lambda>s. s\<lparr>ws_null := True\<rparr>)
         | Some a \<Rightarrow> ws_does (W_Initialized False a) }
   }"

definition onClose :: "(ws, unit) state" where
  "onClose = ws_does W_ClosedCallback"

subsection \<open>Roles and pings\<close>

definition addProtocolToAddress :: "ws_env \<Rightarrow> string \<Rightarrow> string" where
  "addProtocolToAddress E address = (if we_tls E then ''wss://'' @ address else ''ws://'' @ address)"

definition ws_connect :: "ws_env \<Rightarrow> string \<Rightarrow> (ws, bool) state" where
  "ws_connect E address = do {
     ok \<leftarrow> ws_ask (we_ok E);
     if \<not> ok then ret False
     else do { startEventLoop; ws_does (W_Connect (addProtocolToAddress E address)); ret True }
   }"

definition ws_disconnect :: "ws_env \<Rightarrow> (ws, unit) state" where
  "ws_disconnect E = closeConnection E"

definition server_start :: "ws_env \<Rightarrow> int \<Rightarrow> (ws, bool) state" where
  "server_start E port = do {
     ok \<leftarrow> ws_ask (we_ok E);
     if \<not> ok then ret False
     else do {
       ws_does (W_Listen port);
       ok \<leftarrow> ws_ask (we_ok E);
       if \<not> ok then ret False else do { startEventLoop; ret True } }
   }"

definition server_stop :: "ws_env \<Rightarrow> (ws, unit) state" where
  "server_stop E = do {
     ok \<leftarrow> ws_ask (we_ok E);
     if \<not> ok then ret () else closeConnection E
   }"

text \<open>The timer of a ping; a pong schedules the next one, its absence closes the connection.\<close>

definition ping :: "ws_env \<Rightarrow> (ws, unit) state" where
  "ping E = do {
     modify (\<lambda>s. s\<lparr>ws_timers := ws_timers s - 1\<rparr>);
     h \<leftarrow> gets ws_handler;
     conn \<leftarrow> getConnection E h;
     case conn of None \<Rightarrow> ret ()
     | Some c \<Rightarrow> do {
         st \<leftarrow> ws_ask (\<lambda>n. we_state E n c);
         if st \<noteq> WS_OPEN then ret ()
         else do { ok \<leftarrow> ws_ask (we_ok E); whenM ok (ws_does (W_Ping c)) } }
   }"

definition onPong :: "(ws, unit) state" where
  "onPong = ping_schedule"

definition onPongTimeout :: "ws_env \<Rightarrow> (ws, unit) state" where
  "onPongTimeout E = closeConnection E"

subsection \<open>The events of an endpoint\<close>

text \<open>A pong answers a ping: it comes only after one that is not answered yet.\<close>

datatype ws_event = V_Connect string | V_Disconnect | V_Start int | V_Stop | V_Send string
  | V_Open nat | V_Fail nat | V_Close | V_Message opcode string | V_Ping | V_Pong | V_PongTimeout | V_Destroy

fun ws_op :: "ws_env \<Rightarrow> ws_event \<Rightarrow> (ws, unit) state" where
  "ws_op E (V_Connect a) = do { ws_connect E a; ret () }"
| "ws_op E V_Disconnect = ws_disconnect E"
| "ws_op E (V_Start p) = do { server_start E p; ret () }"
| "ws_op E V_Stop = server_stop E"
| "ws_op E (V_Send m) = do { ws_send E m; ret () }"
| "ws_op E (V_Open h) = onOpen E h"
| "ws_op E (V_Fail h) = onFail E h"
| "ws_op E V_Close = onClose"
| "ws_op E (V_Message op m) = ws_onMessage E op m"
| "ws_op E V_Ping = ping E"
| "ws_op E V_Pong = onPong"
| "ws_op E V_PongTimeout = onPongTimeout E"
| "ws_op E V_Destroy = ws_destroy E"

definition ws_step :: "ws_env \<Rightarrow> ws_event \<Rightarrow> ws \<Rightarrow> ws option" where
  "ws_step E e s = (if e = V_Ping \<and> ws_timers s = 0 then None else Some (after (ws_op E e) s))"

text \<open>The threads that run the event loop: those started and not yet joined.\<close>

definition loops :: "ws \<Rightarrow> int" where
  "loops s = int (count_list (ws_trace s) W_Run) - int (count_list (ws_trace s) W_Join)"

definition loop_inv :: "ws \<Rightarrow> bool" where
  "loop_inv s \<longleftrightarrow> loops s = (if ws_thread s then 1 else 0) \<and> list_all (\<lambda>e. e \<noteq> W_Send []) (ws_trace s)"

lemma run_ws_ask [simp]: "run_state (ws_ask f) s = (f (ws_tick s), s\<lparr>ws_tick := Suc (ws_tick s)\<rparr>)"
  by (simp add: ws_ask_def)

lemma loop_inv_frame [simp]:
  "loop_inv (s\<lparr>ws_tick := n\<rparr>) = loop_inv s" "loop_inv (s\<lparr>ws_handler := h\<rparr>) = loop_inv s"
  "loop_inv (s\<lparr>ws_timers := n\<rparr>) = loop_inv s" "loop_inv (s\<lparr>ws_null := b\<rparr>) = loop_inv s"
  by (simp_all add: loop_inv_def loops_def)

lemma loop_ask [pres]: "preserves loop_inv (ws_ask f)"
  by (rule preservesI) simp

lemma loop_does [pres]: "e \<noteq> W_Run \<Longrightarrow> e \<noteq> W_Join \<Longrightarrow> e \<noteq> W_Send [] \<Longrightarrow> preserves loop_inv (ws_does e)"
  unfolding ws_does_def by (rule preserves_modify) (simp add: loop_inv_def loops_def)

lemma loop_start [pres]: "preserves loop_inv startEventLoop"
  by (rule preservesI) (simp add: startEventLoop_def ws_does_def loop_inv_def loops_def)

lemma loop_stop [pres]: "preserves loop_inv stopEventLoop"
  by (rule preservesI) (auto simp: stopEventLoop_def ws_does_def loop_inv_def loops_def split: if_splits)

lemma loop_connection [pres]: "preserves loop_inv (getConnection E h)" "preserves loop_inv (closeConnection E)"
  unfolding closeConnection_def getConnection_def by (intro pres; simp)+

lemma loop_ops [pres]:
  "preserves loop_inv (ws_connect E a)" "preserves loop_inv (server_start E p)"
  "preserves loop_inv (server_stop E)" "preserves loop_inv (ws_send E m)"
  "preserves loop_inv (onOpen E n)" "preserves loop_inv (onFail E n)" "preserves loop_inv onClose"
  "preserves loop_inv (ws_onMessage E opc m)" "preserves loop_inv (ping E)" "preserves loop_inv onPong"
  "preserves loop_inv (onPongTimeout E)" "preserves loop_inv (ws_destroy E)" "preserves loop_inv (ws_disconnect E)"
  unfolding ws_connect_def server_start_def server_stop_def ws_send_def onOpen_def onFail_def onClose_def
    ws_onMessage_def ping_def onPong_def onPongTimeout_def ws_destroy_def ws_disconnect_def
    setAuthenticationState_def startPing_def ping_schedule_def
  by (intro pres preserves_modify; simp)+

lemma loop_step: "loop_inv s \<Longrightarrow> ws_step E e s = Some t \<Longrightarrow> loop_inv t"
proof -
  have "preserves loop_inv (ws_op E e)" by (cases e; simp; intro pres)
  then show "loop_inv s \<Longrightarrow> ws_step E e s = Some t \<Longrightarrow> loop_inv t"
    by (auto simp: ws_step_def preserves_def split: if_splits)
qed

interpretation wse: transition_system "\<lambda>s. s = ws_start" "ws_step E" loop_inv for E
proof
  show "loop_inv s" if "s = ws_start" for s using that by (simp add: loop_inv_def loops_def ws_start_def)
qed (rule loop_step)

text \<open>
  C36: The endpoint. Whatever is asked of it and whatever the connections do, at most one thread runs its
  event loop, it never sends an empty message, and once it is destroyed the thread has been
  joined, so that no joinable thread is destroyed with it.
\<close>

theorem one_event_loop:
  assumes "run_events (ws_step E) es ws_start = Some s"
  shows "loops s = (if ws_thread s then 1 else 0) \<and> list_all (\<lambda>e. e \<noteq> W_Send []) (ws_trace s)
    \<and> loops (after (ws_destroy E) s) = 0"
proof -
  have inv: "loop_inv s" by (rule wse.reached_invariant [OF refl assms])
  have "\<not> ws_thread (after (ws_destroy E) s)"
    by (simp add: ws_destroy_def stopEventLoop_def ws_does_def split: prod.split)
  moreover have "loop_inv (after (ws_destroy E) s)" using loop_ops(12) inv by (rule preservesD)
  ultimately show ?thesis using inv by (auto simp: loop_inv_def)
qed

definition sample_ws :: ws_env where
  "sample_ws = \<lparr>we_found = (\<lambda>n h. True), we_state = (\<lambda>n h. WS_OPEN), we_error = (\<lambda>n h. None), we_ok = (\<lambda>n. True),
     we_tls = False, we_ping = True, we_opcode = OP_TEXT\<rparr>"

theorem one_event_loop_witness:
  "\<exists>s. run_events (ws_step sample_ws) [V_Connect ''a'', V_Open 1, V_Connect ''b''] ws_start = Some s \<and> loops s \<le> 1"
proof -
  obtain s where "run_events (ws_step sample_ws) [V_Connect ''a'', V_Open 1, V_Connect ''b''] ws_start = Some s"
    by (simp add: ws_step_def)
  with one_event_loop [OF this] show ?thesis by (auto split: if_splits)
qed

text \<open>
  A connection attempt that fails. The caller is told, and with TLS whether the peer could not be
  authenticated; but where the handle gives no connection any more, a null pointer is used.
\<close>

theorem failed_connection:
  "(let t = after (onFail E h) s; n = ws_tick s in
    if \<not> we_found E n h then ws_null t \<and> ws_trace t = ws_trace s
    else if \<not> we_tls E then ws_trace t = W_Initialized False True # ws_trace s
    else if \<not> we_found E (Suc n) h then ws_null t
    else ws_trace t = W_Initialized False (\<not> auth_error (we_error E (Suc (Suc n)) h)) # ws_trace s)"
  by (simp add: onFail_def getConnection_def setAuthenticationState_def ws_does_def Let_def)

subsection \<open>The command interface\<close>

text \<open>
  One caller of \<open>sendCommand\<close>: after sending, before it holds the lock; waiting without a
  condition for five seconds, a notification or nothing at all; returned. The commands answered
  are kept with the response given, newest first.
\<close>

datatype cmd_pc = K_Idle | K_Sent string | K_Waiting string

record cmd =
  lastResponse :: string
  cm_pc :: cmd_pc
  cm_answers :: "(string \<times> string) list"
  cm_messages :: "string list"

datatype cmd_event = K_Send string bool | K_Lock | K_Wake | K_Message string

definition cmd_start :: cmd where
  "cmd_start = \<lparr>lastResponse = [], cm_pc = K_Idle, cm_answers = [], cm_messages = []\<rparr>"

definition cmd_step :: "cmd_event \<Rightarrow> cmd \<Rightarrow> cmd option" where
  "cmd_step e s =
     (case e of
        K_Send c ok \<Rightarrow>
          (case cm_pc s of K_Idle \<Rightarrow> Some (if ok then s\<lparr>cm_pc := K_Sent c\<rparr> else s) | _ \<Rightarrow> None)
      | K_Lock \<Rightarrow> (case cm_pc s of K_Sent c \<Rightarrow> Some (s\<lparr>cm_pc := K_Waiting c\<rparr>) | _ \<Rightarrow> None)
      | K_Wake \<Rightarrow>
          (case cm_pc s of
             K_Waiting c \<Rightarrow> Some (s\<lparr>cm_answers := (c, lastResponse s) # cm_answers s, cm_pc := K_Idle\<rparr>)
           | _ \<Rightarrow> None)
      | K_Message m \<Rightarrow> Some (s\<lparr>lastResponse := m, cm_messages := m # cm_messages s\<rparr>))"

text \<open>
  Commands and responses. What a command is answered with, and reported as its success, is the
  last message that came, whichever command it was meant for: nothing after a timeout of the
  first command; the response to the first command, come late, to the second.
\<close>

theorem command_answered_with_last_message:
  "map_option cm_answers (run_events cmd_step [K_Send c True, K_Lock, K_Wake] cmd_start) = Some [(c, [])]
   \<and> map_option cm_answers (run_events cmd_step [K_Send c True, K_Lock, K_Wake, K_Message r, K_Send d True, K_Lock, K_Wake] cmd_start)
      = Some [(d, r), (c, [])]
   \<and> map_option cm_answers (run_events cmd_step [K_Send c True, K_Lock, K_Message r, K_Wake] cmd_start) = Some [(c, r)]"
  by (simp add: cmd_step_def cmd_start_def)

end
