(* ===== verification/WebTls.thy ===== *)
theory WebTls
  imports WebSocket
begin

text \<open>
  \<open>helpers/WebSockets/Encryption/TlsEnabled.h\<close>: the context that is made for each TLS connection.
  The calls on the context are a trace, oldest first; whether the \<open>n\<close>th of them throws and whether
  a file exists are parameters.
\<close>

subsection \<open>Making the context\<close>

text \<open>\<open>X_Options\<close> leaves TLS 1.2 as the only version; \<open>X_VerifyPeer\<close> asks for a certificate and checks it.\<close>

datatype tls_call = X_Options | X_VerifyPeer | X_VerifyCallback | X_DefaultPaths | X_LoadCA string
  | X_Ecdh | X_CertChain string | X_PrivateKey string

record tls_env =
  te_throws :: "nat \<Rightarrow> bool"
  te_exists :: "string \<Rightarrow> bool"

text \<open>The file names of an endpoint.\<close>

record tls_files =
  CAFileNames :: "string list"
  certFileName :: string
  keyFileName :: string

definition setCertFileName :: "string \<Rightarrow> tls_files \<Rightarrow> tls_files" where
  "setCertFileName n s = s\<lparr>certFileName := n\<rparr>"

definition setKeyFileName :: "string \<Rightarrow> tls_files \<Rightarrow> tls_files" where
  "setKeyFileName n s = s\<lparr>keyFileName := n\<rparr>"

definition setCAFileNames :: "string list \<Rightarrow> tls_files \<Rightarrow> tls_files" where
  "setCAFileNames ns s = s\<lparr>CAFileNames := ns\<rparr>"

text \<open>The trace of a context: the calls made, with whether each returned.\<close>

type_synonym context_calls = "(tls_call \<times> bool) list"

definition ctx_call :: "tls_env \<Rightarrow> tls_call \<Rightarrow> (context_calls, bool) state" where
  "ctx_call E c = State (\<lambda>s. let ok = \<not> te_throws E (length s) in (ok, s @ [(c, ok)]))"

definition ctx_then :: "(context_calls, bool) state \<Rightarrow> (context_calls, bool) state \<Rightarrow> (context_calls, bool) state" where
  "ctx_then m n = do { ok \<leftarrow> m; if ok then n else ret False }"

text \<open>Each authority is loaded in a block of its own that catches what it throws.\<close>

fun load_files :: "tls_env \<Rightarrow> string list \<Rightarrow> (context_calls, unit) state" where
  "load_files E [] = ret ()"
| "load_files E (f # fs) =
     (if te_exists E f then do { ok \<leftarrow> ctx_call E (X_LoadCA f); load_files E fs } else load_files E fs)"

definition loadCertificateAuthorities :: "tls_env \<Rightarrow> tls_files \<Rightarrow> (context_calls, unit) state" where
  "loadCertificateAuthorities E fs =
     (if CAFileNames fs = [] then do { ok \<leftarrow> ctx_call E X_DefaultPaths; ret () }
      else load_files E (CAFileNames fs))"

text \<open>
  The body of the block of \<open>onTlsInit\<close>, which catches what a call throws; the context is
  returned in any case.
\<close>

definition onTlsInit_block :: "tls_env \<Rightarrow> tls_files \<Rightarrow> (context_calls, bool) state" where
  "onTlsInit_block E fs =
     ctx_then (ctx_call E X_Options)
    (ctx_then (ctx_call E X_VerifyPeer)
    (ctx_then (ctx_call E X_VerifyCallback)
    (do {
       loadCertificateAuthorities E fs;
       modify (\<lambda>s. s @ [(X_Ecdh, True)]);
       if \<not> te_exists E (certFileName fs) then ret True
       else ctx_then (ctx_call E (X_CertChain (certFileName fs)))
         (if \<not> te_exists E (keyFileName fs) then ret True
          else ctx_call E (X_PrivateKey (keyFileName fs)))
     })))"

definition onTlsInit :: "tls_env \<Rightarrow> tls_files \<Rightarrow> context_calls" where
  "onTlsInit E fs = after (onTlsInit_block E fs) []"

text \<open>The callback of the verification only reports; it lets the verdict stand.\<close>

definition logIfCertFailure :: "bool \<Rightarrow> bool" where
  "logIfCertFailure preverified = preverified"

lemma run_ctx_call [simp]: "run_state (ctx_call E c) s = (\<not> te_throws E (length s), s @ [(c, \<not> te_throws E (length s))])"
  by (simp add: ctx_call_def Let_def)

lemma run_ctx_then [simp]:
  "run_state (ctx_then m n) s = (if result_of m s then run_state n (after m s) else (False, after m s))"
  by (simp add: ctx_then_def split: prod.split)

lemma load_files_calls: "\<exists>l. after (load_files E fs) s = s @ l \<and> set (map fst l) = X_LoadCA ` {f \<in> set fs. te_exists E f}"
proof (induction fs arbitrary: s)
  case Nil
  then show ?case by simp
next
  case (Cons f fs)
  show ?case
  proof (cases "te_exists E f")
    case True
    let ?c = "(X_LoadCA f, \<not> te_throws E (length s))"
    from Cons.IH [of "s @ [?c]"] obtain l where
      l: "after (load_files E fs) (s @ [?c]) = (s @ [?c]) @ l" "set (map fst l) = X_LoadCA ` {f \<in> set fs. te_exists E f}" by blast
    with True show ?thesis by (intro exI [of _ "?c # l"]) auto
  next
    case False
    with Cons.IH [of s] show ?thesis by (auto cong: conj_cong)
  qed
qed

text \<open>
  The TLS context. Where the two calls that restrict the versions and ask for the peer's
  certificate return, they come first, before any certificate is loaded, and, once the callback is
  set, the loading of exactly the authorities whose files exist is tried. Where one of the two throws, nothing more is done and the context is
  used all the same: without the check of the peer, since the exception is swallowed.
\<close>

theorem tls_context_verifies:
  "(if te_throws E 0 then onTlsInit E fs = [(X_Options, False)]
    else if te_throws E 1 then onTlsInit E fs = [(X_Options, True), (X_VerifyPeer, False)]
    else \<exists>rest. onTlsInit E fs = (X_Options, True) # (X_VerifyPeer, True) # rest
       \<and> (if te_throws E 2 then True
          else {f. X_LoadCA f \<in> set (map fst rest)} = {f \<in> set (CAFileNames fs). te_exists E f}))"
proof -
  let ?s = "[(X_Options, True), (X_VerifyPeer, True), (X_VerifyCallback, True)]"
  obtain l where l: "after (loadCertificateAuthorities E fs) ?s = ?s @ l"
    "{f. X_LoadCA f \<in> set (map fst l)} = {f \<in> set (CAFileNames fs). te_exists E f}"
  proof (cases "CAFileNames fs")
    case Nil
    with that [of "[(X_DefaultPaths, \<not> te_throws E 3)]"] show ?thesis
      by (simp add: loadCertificateAuthorities_def eval_nat_numeral)
  next
    case (Cons a as)
    obtain l where "after (load_files E (CAFileNames fs)) ?s = ?s @ l"
      "set (map fst l) = X_LoadCA ` {f \<in> set (CAFileNames fs). te_exists E f}"
      using load_files_calls by blast
    with Cons that [of l] show ?thesis by (auto simp: loadCertificateAuthorities_def)
  qed
  then show ?thesis
    by (auto simp: onTlsInit_def onTlsInit_block_def eval_nat_numeral split: prod.split)
qed

end
