(* ===== verification/Persist.thy ===== *)
theory Persist
  imports SwuPrelude
begin

text \<open>
  Three small helpers: \<open>UtilssyncPersistFile.h\<close>, \<open>UtilsgetRFCConfig.h\<close> and \<open>UtilsThreadRAII.h\<close>.
\<close>

subsection \<open>Persisting one setting\<close>

text \<open>
  Files and JSON objects belong to the framework: \<open>'d\<close> is the state of the disk, and the fields are what
  the operations of \<open>Core::File\<close> and \<open>JsonObject\<close> do to it for a file name. \<open>jf_sync\<close> is \<open>fsync\<close> on a
  file that \<open>fopen\<close> opened.
\<close>

record ('d, 'v) json_files =
  jf_open :: "string \<Rightarrow> 'd \<Rightarrow> bool"
  jf_fopen :: "string \<Rightarrow> 'd \<Rightarrow> bool"
  jf_create :: "string \<Rightarrow> 'd \<Rightarrow> 'd"
  jf_destroy :: "string \<Rightarrow> 'd \<Rightarrow> 'd"
  jf_read :: "string \<Rightarrow> 'd \<Rightarrow> string \<Rightarrow> 'v option"
  jf_write :: "string \<Rightarrow> (string \<Rightarrow> 'v option) \<Rightarrow> 'd \<Rightarrow> 'd"
  jf_sync :: "string \<Rightarrow> 'd \<Rightarrow> 'd"

definition syncPersistFile :: "('d, 'v) json_files \<Rightarrow> string \<Rightarrow> 'd \<Rightarrow> 'd" where
  "syncPersistFile L f d = (if jf_fopen L f d then jf_sync L f d else d)"

text \<open>The states of the disk after each call that can change it, oldest first.\<close>

definition persist_states :: "('d, 'v) json_files \<Rightarrow> string \<Rightarrow> string \<Rightarrow> 'v \<Rightarrow> 'd \<Rightarrow> 'd list" where
  "persist_states L f key v d =
     (let d1 = (if jf_open L f d then d else jf_create L f d);
          setting = jf_read L f d1;
          d2 = jf_destroy L f d1;
          d3 = jf_create L f d2;
          d4 = jf_write L f (setting(key \<mapsto> v)) d3
      in [d1, d2, d3, d4, syncPersistFile L f d4])"

definition persistJsonSettings :: "('d, 'v) json_files \<Rightarrow> string \<Rightarrow> string \<Rightarrow> 'v \<Rightarrow> 'd \<Rightarrow> 'd" where
  "persistJsonSettings L f key v d = last (persist_states L f key v d)"

text \<open>
  Where an object that was written to a new file is read back, with or without \<open>fsync\<close>, the setting is
  added to those of an existing file and replaces an older one of its key; the order of settings with
  different keys does not matter. In between the file is gone: the third state of the disk, a file
  that was just made, is all that a loss of power there leaves of the settings.
\<close>

theorem persisted_setting:
  assumes "\<And>s d. jf_read L f (jf_write L f s (jf_create L f (jf_destroy L f d))) = s"
    and "\<And>d. jf_read L f (jf_sync L f d) = jf_read L f d"
    and "jf_open L f d"
  shows "jf_read L f (persistJsonSettings L f k v d) = (jf_read L f d)(k \<mapsto> v)
    \<and> persist_states L f k v d ! 2 = jf_create L f (jf_destroy L f d)"
  using assms by (simp add: persistJsonSettings_def persist_states_def syncPersistFile_def Let_def)

theorem persisted_twice:
  assumes "\<And>s d. jf_read L f (jf_write L f s (jf_create L f (jf_destroy L f d))) = s"
    and "\<And>d. jf_read L f (jf_sync L f d) = jf_read L f d"
    and "\<And>d. jf_open L f d" and "k \<noteq> k'"
  shows "jf_read L f (persistJsonSettings L f k' v' (persistJsonSettings L f k v d))
    = jf_read L f (persistJsonSettings L f k v (persistJsonSettings L f k' v' d))"
  using assms(4) by (simp add: persisted_setting [OF assms(1,2,3)] fun_upd_twist)

subsection \<open>The RFC library\<close>

datatype wdmp_status = WDMP_SUCCESS | WDMP_ERR_DEFAULT_VALUE | WDMP_other nat

definition getRFCConfig :: "(string \<Rightarrow> wdmp_status \<times> 'p) \<Rightarrow> string \<Rightarrow> bool \<times> 'p" where
  "getRFCConfig getRFCParameter name =
     (let (status, out) = getRFCParameter name
      in (status = WDMP_SUCCESS \<or> status = WDMP_ERR_DEFAULT_VALUE, out))"

subsection \<open>A thread that is joined by its destructor\<close>

text \<open>
  The thread: is it joinable? \<open>None\<close> is \<open>std::terminate\<close>, which the destructor and the move assignment of a
  joinable \<open>std::thread\<close> call. The destructor of the class catches what \<open>join\<close> throws and is
  followed by that of its member.
\<close>

definition thread_destroy :: "bool \<Rightarrow> unit option" where
  "thread_destroy joinable = (if joinable then None else Some ())"

definition raii_destroy :: "bool \<Rightarrow> bool \<Rightarrow> unit option" where
  "raii_destroy join_throws joinable =
     thread_destroy (if joinable then join_throws else False)"

text \<open>The move assignment gives the new states of the target and the source.\<close>

definition raii_assign :: "bool \<Rightarrow> bool \<Rightarrow> (bool \<times> bool) option" where
  "raii_assign target source = (if target then None else Some (source, False))"

text \<open>
  The destructor joins, so that a thread that runs does not end the program, unless \<open>join\<close> throws
  (a thread that destroys its own object): the exception is caught, and the member is still
  joinable when it is destroyed. A thread that is replaced by a move assignment is not joined.
\<close>

theorem raii_joins:
  "raii_destroy join_throws joinable = (if joinable \<and> join_throws then None else Some ())
   \<and> raii_assign True source = None
   \<and> Option.bind (raii_assign False source) (\<lambda>(t, s). raii_destroy False t \<bind> (\<lambda>_. raii_destroy True s)) = Some ()"
  by (simp add: raii_destroy_def raii_assign_def thread_destroy_def)

end
