(* ===== verification/Spec2Isabelle.thy ===== *)
theory Spec2Isabelle
  imports MaintBound MaintUnknown StartTime PkgRefine FrontThreads FileTools Validators SysTools ApiLocks WebTls Persist
begin

text \<open>
  A verification development for the software-update plugins of RDK: the MaintenanceManager
  and the Packager, with the helper headers they are built on.

  \<^bold>\<open>The program.\<close> Two Thunder plugins in C++. The \<^emph>\<open>MaintenanceManager\<close>
  (\<open>MaintenanceManager/MaintenanceManager.cpp\<close> and \<open>.h\<close>) runs a maintenance cycle: an execution
  thread checks the device (network, activation, identity), reports
  \<open>MAINTENANCE_STARTED\<close>, and starts three scripts one after the other (RFC, software update, log
  upload). Each task reports through the IARM bus; the handler keeps a bit field of the tasks
  and reports the end of the cycle. Scheduled maintenance is started and stopped by JSON-RPC
  methods; a POSIX timer bounds each task; mode and time of the last success live in a record
  file (\<open>helpers/cSettings.h\<close>). The \<^emph>\<open>Packager\<close> (\<open>Packager/PackagerImplementation.cpp\<close>, \<open>.h\<close>
  and \<open>Packager.cpp\<close>) installs packages with the opkg library in a worker thread and tells its
  observers about the progress. The helper headers (\<open>helpers/\<close>) are shared with other plugins:
  files and properties, texts, validators, timers and locks, the front panel, and JSON-RPC over
  web sockets.

  \<^bold>\<open>The library.\<close> \<open>SwuPrelude\<close> has the state monad in which methods with members are written,
  Hoare-style rules for it, and the locale \<open>transition_system\<close>: start states, an
  executable step that is \<open>None\<close> where an event is not enabled, and an invariant; the locale
  \<open>refinement\<close> extends it by an abstract system, an abstraction, and what a step shows.
  \<open>CxxStrings\<close> has the operations of the C++ and C libraries on texts.

  \<^item> \<open>Settings\<close>: the class \<open>cSettings\<close>, \<open>Utils::fileExists\<close>, and the second parser of the
    record file (\<open>getFileContent\<close>, \<open>parseConfigFile\<close>). The locale \<open>settings_contract\<close> is the
    interface its users rely on.
  \<^item> \<open>StatusBits\<close>: the macros of \<open>MaintenanceManager.h\<close> on the 16-bit \<open>g_task_status\<close>, and
    \<open>UtilsBIT.h\<close> on 64 bits.
  \<^item> \<open>MaintTypes\<close>, \<open>MaintTimer\<close>, \<open>MaintDevice\<close>, \<open>MaintThread\<close>, \<open>MaintEvents\<close>, \<open>MaintApi\<close>: the
    members as the record \<open>mm\<close>, and one definition per method, in the order of the source.
    \<open>MaintMachine\<close> puts them together: the events that can happen to the plugin, when each is
    enabled (its locks), and the constructor.
  \<^item> \<open>MaintFrame\<close>, \<open>MaintSafety\<close>, \<open>MaintLife\<close>: which parts of the state an event can change
    (locale \<open>kept\<close>), and the invariants. \<open>MaintCycle\<close>, \<open>MaintLiveness\<close>, \<open>MaintRequests\<close>: complete
    cycles as runs of events, and what requests do. \<open>MaintOutcome\<close>: a cycle by what becomes of each
    of its tasks; \<open>MaintUnknown\<close>: the cycle of a device that waits for its identity.
    \<open>MaintContext\<close>: two more orders of events that
    end in a deadlock. \<open>MaintRefine\<close>: the reported statuses as a run of an automaton, the life
    cycle. \<open>MaintBound\<close>: how many steps the thread makes.
  \<^item> \<open>FileContent\<close>: \<open>readPropertyFromFile\<close> of \<open>helpers/UtilsgetFileContent.h\<close>.
  \<^item> \<open>StartTime\<close>: the start time of scheduled maintenance.
  \<^item> \<open>PkgTypes\<close>, \<open>PkgInstall\<close>, \<open>PkgMachine\<close>: the Packager; \<open>PkgInvariant\<close>, \<open>PkgProps\<close>: its
    invariant and properties; \<open>PkgRefine\<close>: the slot for one job that it refines.
  \<^item> \<open>UtilStrings\<close>: \<open>UtilsString.h\<close> and \<open>UtilsisValidInt.h\<close>, with the base64 encoder and a decoder
    as its reference. \<open>JsonValues\<close>: the macros of \<open>UtilsJsonRpc.h\<close>. \<open>FileTools\<close>: the rest of
    \<open>UtilsgetFileContent.h\<close>, \<open>UtilsFile.h\<close>, \<open>UtilsSearchRDKProfile.h\<close>. \<open>Validators\<close>:
    \<open>UtilsInputValidator.h\<close>.
  \<^item> \<open>SysTools\<close>: the timer \<open>tptimer.h\<close> as a transition system, the connection to the bus, the API
    lock of one thread (\<open>ApiLocks\<close>: of all threads and classes), the handlers of events that take it, references to interfaces, services, processes.
  \<^item> \<open>FrontPanel\<close>: \<open>frontpanel.cpp\<close>, its static variables and members as the record \<open>fp\<close>;
    \<open>FrontProps\<close>: its invariants and the run of a blink pattern, with one step for an operation or a
    firing of the timer; \<open>FrontThreads\<close>: the same operations as steps of two threads, of which the
    former is one schedule, and when the others are safe.
  \<^item> \<open>WebRpc\<close>: the messages of JSON-RPC and the threads that wait for responses
    (\<open>WebSockets/CommunicationInterface/JsonRpcInterface.h\<close>); \<open>WebSocket\<close>: the endpoint, its policies
    and the command interface; \<open>WebTls\<close>: the calls that make the context of a TLS connection.
  \<^item> \<open>Persist\<close>: \<open>UtilssyncPersistFile.h\<close>, \<open>UtilsgetRFCConfig.h\<close>, \<open>UtilsThreadRAII.h\<close>.

  \<^bold>\<open>State and environment.\<close> A member has the name it has in the source (without a leading
  underscore; \<open>p_\<close> for the Packager). What the code asks of the outside (other plugins, the
  shell, the package library, the kernel) is answered by a function of a counter of the
  questions, so that two equal calls can be answered differently and every property holds for
  every behaviour of the outside. What the code does to the outside is a trace, newest
  first. Logs and telemetry are left out.

  \<^bold>\<open>Concurrency.\<close> The execution thread and the worker are values of a datatype of program
  points; a step goes from one point to the next. The points are chosen where the code takes a
  lock, waits, or where another thread can see a difference. A handler that joins the
  thread is two steps, between which \<open>m_statusMutex\<close> is held; what it still has to do is its
  continuation. A wait can be woken for no reason (\<open>E_SpuriousWake\<close>). Data races on members
  that the code reads without a lock are interleavings of these steps, not torn values.

  \<^bold>\<open>Builds.\<close> The production build of the MaintenanceManager: IARM present, no unit-test macros;
  \<open>ENABLE_RFC_MANAGER\<close> and \<open>SUPPRESS_MAINTENANCE\<close> are parameters. Both variants of the Packager
  (\<open>DO_NOT_USE_DEPRECATED_API\<close>). Assertions are not executed; that they hold is a property.

  \<^bold>\<open>What the lemmas show.\<close> Safety: success is reported only after success, the thread object is
  never overwritten, modes are valid, shell commands are safe, the Packager's pointers are
  there. Invariants of the helpers: the blink timer, the timer of the framework, the promises
  of requests, the event loop. Refinements: the life cycle of the MaintenanceManager, the slot of the Packager. Mutual
  exclusion by the API locks. The threads of the front panel: safe where revoking the timer waits
  for a callback first, and otherwise a schedule that ends in an uncaught exception. Liveness: the scheduled cycle ends with its report, and
  so does the cycle after start-up, for every outcome of its tasks, at once or after the context of
  the device has come; a job of the worker ends; a request over a web socket returns; and the schedules on which that fails (two quick starts, a
  completion before the wait, a device context before the wait, a stop without a network, a last task that times out or
  cannot start, a job accepted too late). Round
  trips: settings, mode, base64, configuration of the start time. Errors: what the failing
  branches leave behind.

  \<^bold>\<open>Bounds and fuel.\<close> \<open>readPropertyFromFile\<close> recurses through the file: its first argument is the
  depth still available, \<open>None\<close> a deeper recursion, and the number of lines is shown to be
  enough for every lookup that ends. \<open>knowWhoAmI\<close> polls without bound: fuel, with the exact
  condition for its end. All other loops are bounded by their lists.

  \<^bold>\<open>Not modelled.\<close> The debug method \<open>sampleAPI\<close>, logs, telemetry, framework macros and
  reference counts of framework objects other than observers; time, but for its order;
  zero bytes in the record file;
  \<open>PowerManagerInterface.h\<close>, which names types only; in the front panel several callers at a time,
  and torn reads of its members.
\<close>

end
